theory Spec2Isabelle
  imports Main "HOL-Library.Word" "HOL-Library.Sublist"
begin

unbundle bit_operations_syntax

section \<open>The samples' exit-code helper\<close>

text \<open>
  \<^verbatim>\<open>class ExitCode\<close> of \<^verbatim>\<open>SampleVisionaryS.cpp\<close> and
  \<^verbatim>\<open>SampleVisionaryTMini.cpp\<close> (the two copies are identical). The member
  \<^verbatim>\<open>m_code\<close> is a C++ \<^verbatim>\<open>int\<close>; the class only compares and copies it, so no
  arithmetic can overflow and the codes are modelled as \<^typ>\<open>int\<close>.
\<close>

record ExitCode =
  m_code :: int

text \<open>The constructor: \<^verbatim>\<open>ExitCode() : m_code(0)\<close>.\<close>

definition ExitCode_new :: ExitCode where
  "ExitCode_new = \<lparr>m_code = 0\<rparr>"

text \<open>
  \<^verbatim>\<open>void operator()(int c)\<close>:
  \<^verbatim>\<open>if ((c != 0) && ((0 == m_code) || (c < m_code))) m_code = c;\<close>
\<close>

definition ExitCode_feed :: "int \<Rightarrow> ExitCode \<Rightarrow> ExitCode" where
  "ExitCode_feed c e =
     (if c \<noteq> 0 \<and> (0 = m_code e \<or> c < m_code e) then e\<lparr>m_code := c\<rparr> else e)"

text \<open>\<^verbatim>\<open>bool ok() const\<close> and \<^verbatim>\<open>int get() const\<close>.\<close>

definition ExitCode_ok :: "ExitCode \<Rightarrow> bool" where
  "ExitCode_ok e = (m_code e = 0)"

definition ExitCode_get :: "ExitCode \<Rightarrow> int" where
  "ExitCode_get e = m_code e"

text \<open>Feeding a finite sequence of codes, first to last.\<close>

definition ExitCode_feed_all :: "int list \<Rightarrow> ExitCode \<Rightarrow> ExitCode" where
  "ExitCode_feed_all cs e = fold ExitCode_feed cs e"

section \<open>The protocol engine the streaming samples call\<close>

text \<open>
  \<^verbatim>\<open>SampleVisionaryS.cpp\<close> and \<^verbatim>\<open>SampleVisionaryTMini.cpp\<close> call the classes
  \<^verbatim>\<open>CoLaParameterWriter\<close>, \<^verbatim>\<open>CoLaParameterReader\<close>, \<^verbatim>\<open>CoLaCommand\<close>,
  \<^verbatim>\<open>VisionaryControl\<close> and \<^verbatim>\<open>VisionaryDataStream\<close>, whose code is not part of the
  sources. This section models them from the specification (sections 3, 4 and 7); the
  device at the other end of the two connections is a parameter.
\<close>

subsection \<open>Failures and sequencing\<close>

text \<open>
  The failure conditions of section 7 of the specification that unwind to the caller.
  An operation returns its result or a failure, together with the state it leaves: a
  failure keeps what was done before it.
\<close>

datatype Failure = TruncatedPayload | ConnectivityError | TimeoutError | ProtocolViolation

definition ret :: "'a \<Rightarrow> 's \<Rightarrow> (Failure + 'a) \<times> 's" where
  "ret x s = (Inr x, s)"

definition bnd ::
  "('s \<Rightarrow> (Failure + 'a) \<times> 's) \<Rightarrow> ('a \<Rightarrow> 's \<Rightarrow> (Failure + 'b) \<times> 's) \<Rightarrow> 's \<Rightarrow> (Failure + 'b) \<times> 's"
where
  "bnd m f s = (case m s of (Inl e, s') \<Rightarrow> (Inl e, s') | (Inr x, s') \<Rightarrow> f x s')"

subsection \<open>Commands and the parameter codec\<close>

type_synonym byte = "8 word"

datatype CoLaCommandType =
    READ_VARIABLE | WRITE_VARIABLE | METHOD_INVOCATION
  | READ_VARIABLE_RESPONSE | WRITE_VARIABLE_RESPONSE | METHOD_INVOCATION_RESPONSE
  | ERROR_RESPONSE

text \<open>
  The samples name one result code, \<^verbatim>\<open>CoLaError::OK\<close>; every other code of the
  enumeration is a device-reported error, kept by its number.
\<close>

datatype CoLaError = OK | DeviceError nat

text \<open>
  Modelled from the spec: \<^verbatim>\<open>CoLaCommand\<close> (section 3): type, name, payload and
  result code; \<open>getError\<close> is the accessor the samples call.
\<close>

record CoLaCommand =
  cmdType :: CoLaCommandType
  cmdName :: string
  cmdPayload :: "byte list"
  getError :: CoLaError

text \<open>
  Modelled from the spec: the \<^verbatim>\<open>ParameterCodec\<close> (section 4.1): multi-byte integers
  are big-endian, a boolean is one byte.
\<close>

definition be16 :: "16 word \<Rightarrow> byte list" where
  "be16 v = [ucast (drop_bit 8 v), ucast v]"

definition be32 :: "32 word \<Rightarrow> byte list" where
  "be32 v = [ucast (drop_bit 24 v), ucast (drop_bit 16 v), ucast (drop_bit 8 v), ucast v]"

definition from_be :: "byte list \<Rightarrow> nat" where
  "from_be bs = foldl (\<lambda>a b. 256 * a + unat b) 0 bs"

text \<open>
  Modelled from the spec: \<^verbatim>\<open>CoLaParameterWriter\<close> (the \<^verbatim>\<open>CommandBuilder\<close> of
  section 4.2): constructed with type and name, each \<^verbatim>\<open>parameter...\<close> call appends
  the encoded value, \<^verbatim>\<open>build()\<close> returns the command.
\<close>

record CoLaParameterWriter =
  wrType :: CoLaCommandType
  wrName :: string
  wrBuffer :: "byte list"

definition CoLaParameterWriter_new :: "CoLaCommandType \<Rightarrow> string \<Rightarrow> CoLaParameterWriter" where
  "CoLaParameterWriter_new t n = \<lparr>wrType = t, wrName = n, wrBuffer = []\<rparr>"

definition parameterBool :: "bool \<Rightarrow> CoLaParameterWriter \<Rightarrow> CoLaParameterWriter" where
  "parameterBool b w = w\<lparr>wrBuffer := wrBuffer w @ [if b then 1 else 0]\<rparr>"

definition parameterUSInt :: "8 word \<Rightarrow> CoLaParameterWriter \<Rightarrow> CoLaParameterWriter" where
  "parameterUSInt v w = w\<lparr>wrBuffer := wrBuffer w @ [v]\<rparr>"

definition parameterUInt :: "16 word \<Rightarrow> CoLaParameterWriter \<Rightarrow> CoLaParameterWriter" where
  "parameterUInt v w = w\<lparr>wrBuffer := wrBuffer w @ be16 v\<rparr>"

definition parameterUDInt :: "32 word \<Rightarrow> CoLaParameterWriter \<Rightarrow> CoLaParameterWriter" where
  "parameterUDInt v w = w\<lparr>wrBuffer := wrBuffer w @ be32 v\<rparr>"

definition build :: "CoLaParameterWriter \<Rightarrow> CoLaCommand" where
  "build w = \<lparr>cmdType = wrType w, cmdName = wrName w, cmdPayload = wrBuffer w, getError = OK\<rparr>"

text \<open>
  Modelled from the spec: \<^verbatim>\<open>CoLaParameterReader\<close> (the \<^verbatim>\<open>CommandReader\<close> of
  section 4.3): a cursor over the payload of a command. A read takes exactly the bytes
  of its type and advances the cursor by that amount; a read past the end of the
  payload fails with the truncation condition. There is no operation that moves the
  cursor otherwise. \<open>rdLog\<close> is not part of the class: it records the type of every
  read issued, in order, failed ones included.
\<close>

datatype FieldType = Bool | USInt | SInt | UInt | UDInt | LReal | FlexString

record CoLaParameterReader =
  rdData :: "byte list"
  rdPos :: nat
  rdLog :: "FieldType list"

definition CoLaParameterReader_new :: "CoLaCommand \<Rightarrow> CoLaParameterReader" where
  "CoLaParameterReader_new c = \<lparr>rdData = cmdPayload c, rdPos = 0, rdLog = []\<rparr>"

definition fetch :: "nat \<Rightarrow> CoLaParameterReader \<Rightarrow> (Failure + byte list) \<times> CoLaParameterReader" where
  "fetch n r =
     (if rdPos r + n \<le> length (rdData r)
      then (Inr (take n (drop (rdPos r) (rdData r))), r\<lparr>rdPos := rdPos r + n\<rparr>)
      else (Inl TruncatedPayload, r))"

definition issue :: "FieldType \<Rightarrow> CoLaParameterReader \<Rightarrow> (Failure + unit) \<times> CoLaParameterReader" where
  "issue t r = (Inr (), r\<lparr>rdLog := rdLog r @ [t]\<rparr>)"

definition readBool :: "CoLaParameterReader \<Rightarrow> (Failure + bool) \<times> CoLaParameterReader" where
  "readBool = bnd (issue Bool) (\<lambda>_. bnd (fetch 1) (\<lambda>bs. ret (from_be bs \<noteq> 0)))"

definition readUSInt :: "CoLaParameterReader \<Rightarrow> (Failure + 8 word) \<times> CoLaParameterReader" where
  "readUSInt = bnd (issue USInt) (\<lambda>_. bnd (fetch 1) (\<lambda>bs. ret (word_of_nat (from_be bs))))"

text \<open>\<^verbatim>\<open>readSInt\<close> returns a \<^verbatim>\<open>std::int8_t\<close>: the byte read as two's complement.\<close>

definition readSInt :: "CoLaParameterReader \<Rightarrow> (Failure + int) \<times> CoLaParameterReader" where
  "readSInt =
     bnd (issue SInt) (\<lambda>_. bnd (fetch 1) (\<lambda>bs. ret (sint (word_of_nat (from_be bs) :: 8 word))))"

definition readUInt :: "CoLaParameterReader \<Rightarrow> (Failure + 16 word) \<times> CoLaParameterReader" where
  "readUInt = bnd (issue UInt) (\<lambda>_. bnd (fetch 2) (\<lambda>bs. ret (word_of_nat (from_be bs))))"

definition readUDInt :: "CoLaParameterReader \<Rightarrow> (Failure + 32 word) \<times> CoLaParameterReader" where
  "readUDInt = bnd (issue UDInt) (\<lambda>_. bnd (fetch 4) (\<lambda>bs. ret (word_of_nat (from_be bs))))"

text \<open>
  \<^verbatim>\<open>readLReal\<close> returns a \<^verbatim>\<open>double\<close>; the model keeps the eight bytes as the 64 bits
  of its IEEE representation and does not interpret them.
\<close>

definition readLReal :: "CoLaParameterReader \<Rightarrow> (Failure + 64 word) \<times> CoLaParameterReader" where
  "readLReal = bnd (issue LReal) (\<lambda>_. bnd (fetch 8) (\<lambda>bs. ret (word_of_nat (from_be bs))))"

text \<open>
  The flex string is a length field followed by that many raw bytes. The specification
  does not give the width of the length field; it is read here as two bytes, like a
  \<^verbatim>\<open>UInt\<close>.
\<close>

definition readFlexString :: "CoLaParameterReader \<Rightarrow> (Failure + string) \<times> CoLaParameterReader" where
  "readFlexString =
     bnd (issue FlexString) (\<lambda>_. bnd (fetch 2) (\<lambda>len. bnd (fetch (from_be len))
       (\<lambda>bs. ret (map (\<lambda>b. char_of (unat b)) bs))))"

subsection \<open>The device\<close>

text \<open>
  The two protocol variants of \<^verbatim>\<open>VisionaryControl::ProtocolType\<close>: \<^verbatim>\<open>COLA_B\<close> is the
  legacy variant of section 4.4 of the specification and \<^verbatim>\<open>COLA_2\<close> the "v2" variant
  (the assignment tool numbers them 1 and 2: \<^verbatim>\<open>cola version (ColaB: 1, Cola2: 2)\<close>).
\<close>

datatype ProtocolType = COLA_B | COLA_2

text \<open>
  The samples name two levels of \<^verbatim>\<open>IAuthentication::UserLevel\<close>; \<open>OTHER_LEVEL\<close> stands
  for the further levels the specification leaves open.
\<close>

datatype UserLevel = AUTHORIZED_CLIENT | SERVICE | OTHER_LEVEL nat

text \<open>What a control session puts on the wire, one entry per call that reaches the device.\<close>

datatype Call =
    CallOpen ProtocolType string nat
  | CallLogin UserLevel string
  | CallLogout
  | CallSend CoLaCommand
  | CallStop
  | CallStart
  | CallStep
  | CallIdent
  | CallClose

text \<open>
  Modelled from the spec: a frame of the streaming channel (section 3), as far as the
  samples read it: \<^verbatim>\<open>getFrameNum()\<close>, \<^verbatim>\<open>getTimestampMS()\<close>, and the blob with the maps.
\<close>

record Frame =
  frameNum :: nat
  timestampMS :: nat
  blob :: "byte list"

text \<open>
  What the assembly of section 4.5 finds in the bytes buffered so far: not yet a
  complete frame, a complete and valid frame followed by the bytes after it, or a
  frame that fails the length or checksum validation. The byte layout is fixed by the
  device specification and not by the observed code, so the function that finds it is a
  field of the device.
\<close>

datatype Assembly = Incomplete | Complete Frame "byte list" | Malformed

text \<open>What reaches the streaming socket while one \<^verbatim>\<open>getNextFrame\<close> call waits.\<close>

datatype Delivery = Bytes "byte list" | ConnectionReset

text \<open>
  The device and the network, as the engine sees them. \<open>respond\<close> gives the device's
  answer to the last command of the calls so far (\<open>None\<close>: nothing arrives within the
  time-out); \<open>arrivals k\<close> is what the streaming socket delivers during the \<open>k\<close>-th
  wait for a frame; \<open>systemClock k\<close> is the \<open>k\<close>-th reading of
  \<^verbatim>\<open>std::chrono::system_clock\<close>.
\<close>

record Device =
  reachable :: "ProtocolType \<Rightarrow> string \<Rightarrow> nat \<Rightarrow> bool"
  accepts :: "UserLevel \<Rightarrow> string \<Rightarrow> bool"
  respond :: "Call list \<Rightarrow> CoLaCommand option"
  deviceIdent :: string
  streamReachable :: "string \<Rightarrow> nat \<Rightarrow> bool"
  arrivals :: "nat \<Rightarrow> Delivery"
  framing :: "byte list \<Rightarrow> Assembly"
  systemClock :: "nat \<Rightarrow> int"

subsection \<open>The control session\<close>

datatype SessionState = Disconnected | Connected | Authenticated UserLevel

datatype AcquisitionState = STOPPED | RUNNING

text \<open>
  Modelled from the spec: the state of \<^verbatim>\<open>VisionaryControl\<close> (the \<^verbatim>\<open>ControlSession\<close>
  of sections 3 and 4.4): the connection and authentication state and the acquisition
  state. \<open>wire\<close> is not part of the class: it records the calls sent to the device.
\<close>

record VisionaryControl =
  sessionState :: SessionState
  acquisition :: AcquisitionState
  wire :: "Call list"

text \<open>
  Modelled from the spec: \<^verbatim>\<open>open(protocolVariant, address, timeout)\<close> establishes the
  connection or fails with a connection error (the samples get \<^verbatim>\<open>false\<close>).
\<close>

definition ctrl_open ::
  "Device \<Rightarrow> ProtocolType \<Rightarrow> string \<Rightarrow> nat \<Rightarrow> VisionaryControl \<Rightarrow> bool \<times> VisionaryControl"
where
  "ctrl_open dev variant address timeout s =
     (if reachable dev variant address timeout
      then (True, s\<lparr>sessionState := Connected,
                     wire := wire s @ [CallOpen variant address timeout]\<rparr>)
      else (False, s))"

text \<open>
  Modelled from the spec: \<^verbatim>\<open>login(level, password)\<close> sends an authentication command;
  on success the state is \<open>Authenticated level\<close>, replacing a level held before; on
  rejection the state is unchanged; before \<^verbatim>\<open>open\<close> it fails without sending.
\<close>

definition login ::
  "Device \<Rightarrow> UserLevel \<Rightarrow> string \<Rightarrow> VisionaryControl \<Rightarrow> bool \<times> VisionaryControl"
where
  "login dev level password s =
     (if sessionState s = Disconnected then (False, s)
      else if accepts dev level password
      then (True, s\<lparr>sessionState := Authenticated level,
                     wire := wire s @ [CallLogin level password]\<rparr>)
      else (False, s\<lparr>wire := wire s @ [CallLogin level password]\<rparr>))"

text \<open>
  Modelled from the spec: \<^verbatim>\<open>logout()\<close> sends a logout command and transitions back to
  \<open>Connected\<close> regardless of the previous authentication level. Without a connection
  nothing can be sent.
\<close>

definition logout :: "VisionaryControl \<Rightarrow> bool \<times> VisionaryControl" where
  "logout s =
     (if sessionState s = Disconnected then (False, s)
      else (True, s\<lparr>sessionState := Connected, wire := wire s @ [CallLogout]\<rparr>))"

text \<open>
  Modelled from the spec: \<^verbatim>\<open>sendCommand(cmd)\<close> is valid in \<open>Connected\<close> or any
  \<open>Authenticated\<close> state; it sends the command and returns the device's response
  command, whose error field is \<open>OK\<close> or the error code the device reports: a result.
  A transport failure (no connection, or no answer within the time-out) fails with the
  connectivity error instead.
\<close>

definition sendCommand ::
  "Device \<Rightarrow> CoLaCommand \<Rightarrow> VisionaryControl \<Rightarrow> (Failure + CoLaCommand) \<times> VisionaryControl"
where
  "sendCommand dev cmd s =
     (if sessionState s = Disconnected then (Inl ConnectivityError, s)
      else (case respond dev (wire s @ [CallSend cmd]) of
              None \<Rightarrow> (Inl ConnectivityError, s\<lparr>wire := wire s @ [CallSend cmd]\<rparr>)
            | Some response \<Rightarrow> (Inr response, s\<lparr>wire := wire s @ [CallSend cmd]\<rparr>)))"

text \<open>
  Modelled from the spec: \<^verbatim>\<open>startAcquisition()\<close>, \<^verbatim>\<open>stopAcquisition()\<close> and
  \<^verbatim>\<open>stepAcquisition()\<close> issue their method invocation; they are idempotent (stopping
  an already stopped device succeeds). The specification names no effect of a single
  step on the acquisition state, which is left as it is. Without a connection nothing
  can be sent.
\<close>

definition stopAcquisition :: "VisionaryControl \<Rightarrow> bool \<times> VisionaryControl" where
  "stopAcquisition s =
     (if sessionState s = Disconnected then (False, s)
      else (True, s\<lparr>acquisition := STOPPED, wire := wire s @ [CallStop]\<rparr>))"

definition startAcquisition :: "VisionaryControl \<Rightarrow> bool \<times> VisionaryControl" where
  "startAcquisition s =
     (if sessionState s = Disconnected then (False, s)
      else (True, s\<lparr>acquisition := RUNNING, wire := wire s @ [CallStart]\<rparr>))"

definition stepAcquisition :: "VisionaryControl \<Rightarrow> bool \<times> VisionaryControl" where
  "stepAcquisition s =
     (if sessionState s = Disconnected then (False, s)
      else (True, s\<lparr>wire := wire s @ [CallStep]\<rparr>))"

text \<open>
  \<^verbatim>\<open>getDeviceIdent()\<close> is not described by the specification; the samples only print
  the string it returns. It is the device's identification when there is a connection.
\<close>

definition getDeviceIdent :: "Device \<Rightarrow> VisionaryControl \<Rightarrow> string \<times> VisionaryControl" where
  "getDeviceIdent dev s =
     (if sessionState s = Disconnected then ([], s)
      else (deviceIdent dev, s\<lparr>wire := wire s @ [CallIdent]\<rparr>))"

text \<open>
  Modelled from the spec: \<^verbatim>\<open>close()\<close> releases the connection from any state and is
  safe to call several times.
\<close>

definition ctrl_close :: "VisionaryControl \<Rightarrow> VisionaryControl" where
  "ctrl_close s =
     (if sessionState s = Disconnected then s
      else s\<lparr>sessionState := Disconnected, wire := wire s @ [CallClose]\<rparr>)"

subsection \<open>The streaming channel\<close>

text \<open>
  Modelled from the spec: the state of \<^verbatim>\<open>VisionaryDataStream\<close> (the \<^verbatim>\<open>FrameChannel\<close>
  of sections 3 and 4.5): the connection, the partial-receive buffer and the last
  sequence number, and the frame handed to the data handler. \<open>waits\<close> counts the
  waits for a frame so far.
\<close>

record VisionaryDataStream =
  streamOpen :: bool
  buffer :: "byte list"
  lastSeq :: "nat option"
  handler :: "Frame option"
  waits :: nat

definition stream_open ::
  "Device \<Rightarrow> string \<Rightarrow> nat \<Rightarrow> VisionaryDataStream \<Rightarrow> bool \<times> VisionaryDataStream"
where
  "stream_open dev address prt c =
     (if streamReachable dev address prt then (True, c\<lparr>streamOpen := True\<rparr>) else (False, c))"

definition stream_close :: "VisionaryDataStream \<Rightarrow> VisionaryDataStream" where
  "stream_close c = c\<lparr>streamOpen := False\<rparr>"

text \<open>
  Modelled from the spec: \<^verbatim>\<open>nextFrame(timeout)\<close> of section 4.5. The bytes that arrive
  during the wait are added to the buffer. A complete, validated frame is returned and
  leaves the buffer; its sequence number must exceed the last one (a regression or a
  duplicate is a protocol violation). Without a complete frame the wait ends in the
  recoverable time-out and the channel keeps the buffered bytes for the next call. A
  closed or reset connection is fatal. One call is one wait: nothing is retried.
\<close>

definition nextFrame ::
  "Device \<Rightarrow> VisionaryDataStream \<Rightarrow> (Failure + Frame) \<times> VisionaryDataStream"
where
  "nextFrame dev c =
     (if \<not> streamOpen c then (Inl ConnectivityError, c)
      else (case arrivals dev (waits c) of
              ConnectionReset \<Rightarrow>
                (Inl ConnectivityError, c\<lparr>streamOpen := False, waits := Suc (waits c)\<rparr>)
            | Bytes bs \<Rightarrow>
                (case framing dev (buffer c @ bs) of
                   Incomplete \<Rightarrow>
                     (Inl TimeoutError, c\<lparr>buffer := buffer c @ bs, waits := Suc (waits c)\<rparr>)
                 | Malformed \<Rightarrow>
                     (Inl ProtocolViolation, c\<lparr>buffer := [], waits := Suc (waits c)\<rparr>)
                 | Complete f rest \<Rightarrow>
                     (if (case lastSeq c of None \<Rightarrow> True | Some n \<Rightarrow> n < frameNum f)
                      then (Inr f, c\<lparr>buffer := rest, lastSeq := Some (frameNum f),
                                     handler := Some f, waits := Suc (waits c)\<rparr>)
                      else (Inl ProtocolViolation,
                            c\<lparr>buffer := rest, waits := Suc (waits c)\<rparr>)))))"

text \<open>
  \<^verbatim>\<open>VisionaryDataStream::getNextFrame()\<close>, as the samples call it: it takes no
  time-out and returns a \<^verbatim>\<open>bool\<close>, so every failure of the wait is the value
  \<^verbatim>\<open>false\<close>.
\<close>

definition getNextFrame :: "Device \<Rightarrow> VisionaryDataStream \<Rightarrow> bool \<times> VisionaryDataStream" where
  "getNextFrame dev c = (case nextFrame dev c of (Inl e, c') \<Rightarrow> (False, c') | (Inr f, c') \<Rightarrow> (True, c'))"

section \<open>The streaming demos\<close>

subsection \<open>The state of a run\<close>

text \<open>
  What \<^verbatim>\<open>runStreamingDemo\<close> writes with \<^verbatim>\<open>std::printf\<close>, one constructor per format
  string, with the values printed.
\<close>

datatype Msg =
    FailedOpenControl
  | DeviceIdentIs string
  | FailedLogin
  | SettingFramePeriodTime
  | FailedWriteFramePeriodTime
  | SuccessfullySetFramePeriodTime
  | FailedReadFramePeriodTime
  | ReadFramePeriodTime "32 word"
  | ReadIntegrationTimeUs "32 word"
  | ReadIntegrationTimeUsColor "32 word"
  | InvokeAutoExposure "8 word"
  | InvokeAutoExposureFails bool
  | AutoExposureTimeout "8 word"
  | InfoMessage "32 word" string "16 word"
  | FailedLogout
  | FailedOpenDataStream
  | FrameTimeoutSingleStep
  | FrameReceivedStep nat nat
  | WritingFrameTo string
  | FinishedWritingFrameTo string
  | FrameTimeoutContinuous nat
  | FrameReceivedContinuous nat nat
  | SettingEnDepthMask
  | FailedWriteEnDepthMask
  | SuccessfullySetEnDepthMask
  | FailedReadHumidity
  | ReadHumidity "64 word"

text \<open>
  The local objects of \<^verbatim>\<open>runStreamingDemo\<close> (\<^verbatim>\<open>exitcode\<close>,
  \<^verbatim>\<open>visionaryControl\<close>, \<^verbatim>\<open>dataStream\<close> with its data handler), the standard
  output, and the number of clock readings taken so far.
\<close>

record World =
  exitcode :: ExitCode
  visionaryControl :: VisionaryControl
  dataStream :: VisionaryDataStream
  console :: "Msg list"
  clockReads :: nat

text \<open>
  The state at the start of \<^verbatim>\<open>runStreamingDemo\<close>; the acquisition state the device
  is in when the demo starts is a parameter.
\<close>

definition World_new :: "AcquisitionState \<Rightarrow> World" where
  "World_new a =
     \<lparr>exitcode = ExitCode_new,
      visionaryControl = \<lparr>sessionState = Disconnected, acquisition = a, wire = []\<rparr>,
      dataStream = \<lparr>streamOpen = False, buffer = [], lastSeq = None, handler = None, waits = 0\<rparr>,
      console = [], clockReads = 0\<rparr>"

text \<open>\<^verbatim>\<open>std::printf(...)\<close> and \<^verbatim>\<open>exitcode(c)\<close>.\<close>

definition say :: "Msg \<Rightarrow> World \<Rightarrow> World" where
  "say m w = w\<lparr>console := console w @ [m]\<rparr>"

definition exitcode_call :: "int \<Rightarrow> World \<Rightarrow> World" where
  "exitcode_call c w = w\<lparr>exitcode := ExitCode_feed c (exitcode w)\<rparr>"

text \<open>A statement that cannot fail, as a step of a sequence that can.\<close>

definition act :: "(World \<Rightarrow> World) \<Rightarrow> World \<Rightarrow> (Failure + unit) \<times> World" where
  "act f w = (Inr (), f w)"

text \<open>A call of a \<^verbatim>\<open>VisionaryControl\<close> member that returns a value.\<close>

definition control_call ::
  "(VisionaryControl \<Rightarrow> 'a \<times> VisionaryControl) \<Rightarrow> World \<Rightarrow> (Failure + 'a) \<times> World"
where
  "control_call f w =
     (case f (visionaryControl w) of (x, s) \<Rightarrow> (Inr x, w\<lparr>visionaryControl := s\<rparr>))"

text \<open>\<^verbatim>\<open>visionaryControl.sendCommand(cmd)\<close>.\<close>

definition send :: "Device \<Rightarrow> CoLaCommand \<Rightarrow> World \<Rightarrow> (Failure + CoLaCommand) \<times> World" where
  "send dev cmd w =
     (case sendCommand dev cmd (visionaryControl w) of
        (r, s) \<Rightarrow> (r, w\<lparr>visionaryControl := s\<rparr>))"

text \<open>The expression \<^verbatim>\<open>CoLaParameterReader(response).read...()\<close>: one read of a temporary reader.\<close>

definition decode ::
  "(CoLaParameterReader \<Rightarrow> (Failure + 'a) \<times> CoLaParameterReader) \<Rightarrow> CoLaCommand \<Rightarrow> World
     \<Rightarrow> (Failure + 'a) \<times> World"
where
  "decode rd response w = (fst (rd (CoLaParameterReader_new response)), w)"

text \<open>\<^verbatim>\<open>std::chrono::system_clock::now().time_since_epoch().count()\<close>.\<close>

definition now :: "Device \<Rightarrow> World \<Rightarrow> (Failure + int) \<times> World" where
  "now dev w = (Inr (systemClock dev (clockReads w)), w\<lparr>clockReads := Suc (clockReads w)\<rparr>)"

text \<open>
  Sequencing for the parts of the demo that contain a \<^verbatim>\<open>while\<close> loop which need not
  end: such a part returns \<open>None\<close> when it runs forever.
\<close>

definition total :: "('s \<Rightarrow> 'r) \<Rightarrow> 's \<Rightarrow> 'r option" where
  "total m s = Some (m s)"

definition bndP ::
  "('s \<Rightarrow> ((Failure + 'a) \<times> 's) option) \<Rightarrow> ('a \<Rightarrow> 's \<Rightarrow> ((Failure + 'b) \<times> 's) option)
     \<Rightarrow> 's \<Rightarrow> ((Failure + 'b) \<times> 's) option"
where
  "bndP m f s =
     (case m s of
        None \<Rightarrow> None
      | Some (Inl e, s') \<Rightarrow> Some (Inl e, s')
      | Some (Inr x, s') \<Rightarrow> f x s')"

fun forEachP ::
  "('a \<Rightarrow> 's \<Rightarrow> ((Failure + unit) \<times> 's) option) \<Rightarrow> 'a list \<Rightarrow> 's \<Rightarrow> ((Failure + unit) \<times> 's) option"
where
  "forEachP body [] s = Some (Inr (), s)"
| "forEachP body (x # xs) s = bndP (body x) (\<lambda>_. forEachP body xs) s"

subsection \<open>\<^verbatim>\<open>SampleVisionaryS.cpp\<close>: the blocks of \<^verbatim>\<open>runStreamingDemo\<close>\<close>

text \<open>Lines 100 to 115: set \<^verbatim>\<open>framePeriodTime\<close> to 150000.\<close>

definition setFramePeriodCommand :: CoLaCommand where
  "setFramePeriodCommand =
     build (parameterUDInt 150000 (CoLaParameterWriter_new WRITE_VARIABLE ''framePeriodTime''))"

definition setFramePeriod :: "Device \<Rightarrow> World \<Rightarrow> (Failure + unit) \<times> World" where
  "setFramePeriod dev =
     bnd (act (say SettingFramePeriodTime)) (\<lambda>_.
     bnd (send dev setFramePeriodCommand) (\<lambda>setFramePeriodResponse.
       if getError setFramePeriodResponse \<noteq> OK
       then bnd (act (exitcode_call 5)) (\<lambda>_. act (say FailedWriteFramePeriodTime))
       else act (say SuccessfullySetFramePeriodTime)))"

text \<open>Lines 119 to 133: read \<^verbatim>\<open>framePeriodTime\<close> back.\<close>

definition getFramePeriodCommand :: CoLaCommand where
  "getFramePeriodCommand = build (CoLaParameterWriter_new READ_VARIABLE ''framePeriodTime'')"

definition readFramePeriod :: "Device \<Rightarrow> World \<Rightarrow> (Failure + unit) \<times> World" where
  "readFramePeriod dev =
     bnd (send dev getFramePeriodCommand) (\<lambda>framePeriodResponse.
       if getError framePeriodResponse \<noteq> OK
       then bnd (act (exitcode_call 5)) (\<lambda>_. act (say FailedReadFramePeriodTime))
       else bnd (decode readUDInt framePeriodResponse) (\<lambda>framePeriodTime.
              act (say (ReadFramePeriodTime framePeriodTime))))"

text \<open>
  Lines 140 to 259: the auto exposure block. The four write commands, whose responses
  the sample does not look at, and the two reads of the integration times, which it
  decodes without looking at the error code.
\<close>

definition roiCommand :: "string \<Rightarrow> CoLaCommand" where
  "roiCommand name =
     build (parameterUDInt 384 (parameterUDInt 128 (parameterUDInt 480 (parameterUDInt 160
       (CoLaParameterWriter_new WRITE_VARIABLE name)))))"

definition readIntegrationTimes :: "Device \<Rightarrow> World \<Rightarrow> (Failure + unit) \<times> World" where
  "readIntegrationTimes dev =
     bnd (send dev (build (CoLaParameterWriter_new READ_VARIABLE ''integrationTimeUs'')))
       (\<lambda>getIntegrationTimeUsResponse.
     bnd (decode readUDInt getIntegrationTimeUsResponse) (\<lambda>integrationTimeUs.
     bnd (act (say (ReadIntegrationTimeUs integrationTimeUs))) (\<lambda>_.
     bnd (send dev (build (CoLaParameterWriter_new READ_VARIABLE ''integrationTimeUsColor'')))
       (\<lambda>getIntegrationTimeUsColorResponse.
     bnd (decode readUDInt getIntegrationTimeUsColorResponse) (\<lambda>integrationTimeUsColor.
     act (say (ReadIntegrationTimeUsColor integrationTimeUsColor)))))))"

text \<open>
  The \<^verbatim>\<open>while (autoExpParamRunning)\<close> loop of lines 227 to 244. The loop ends only
  when the device reports that the function is no longer running: the branch taken
  after ten seconds prints a message and stays in the loop.
\<close>

definition getAutoExpParamRunningCommand :: CoLaCommand where
  "getAutoExpParamRunningCommand =
     build (CoLaParameterWriter_new READ_VARIABLE ''autoExposureParameterizedRunning'')"

partial_function (option) waitAutoExposure ::
  "Device \<Rightarrow> 8 word \<Rightarrow> int \<Rightarrow> World \<Rightarrow> ((Failure + unit) \<times> World) option"
where
  "waitAutoExposure dev autoType startTime w =
     (case send dev getAutoExpParamRunningCommand w of
        (Inl e, w1) \<Rightarrow> Some (Inl e, w1)
      | (Inr autoExpParamRunningResponse, w1) \<Rightarrow>
          (case decode readBool autoExpParamRunningResponse w1 of
             (Inl e, w2) \<Rightarrow> Some (Inl e, w2)
           | (Inr autoExpParamRunning, w2) \<Rightarrow>
               (case now dev w2 of
                  (Inl e, w3) \<Rightarrow> Some (Inl e, w3)
                | (Inr timeNow, w3) \<Rightarrow>
                    (let w4 = (if timeNow - startTime \<le> 10000000000 then w3
                               else say (AutoExposureTimeout autoType) w3)
                     in if autoExpParamRunning
                        then waitAutoExposure dev autoType startTime w4
                        else Some (Inr (), w4)))))"

declare waitAutoExposure.simps [code]

text \<open>The body of the \<^verbatim>\<open>for\<close> loop over \<^verbatim>\<open>autoType\<close>, lines 207 to 245.\<close>

definition invokeAutoExposureCommand :: "8 word \<Rightarrow> CoLaCommand" where
  "invokeAutoExposureCommand autoType =
     build (parameterUSInt autoType (parameterUInt 1
       (CoLaParameterWriter_new METHOD_INVOCATION ''TriggerAutoExposureParameterized'')))"

definition triggerAutoExposure ::
  "Device \<Rightarrow> 8 word \<Rightarrow> World \<Rightarrow> ((Failure + unit) \<times> World) option"
where
  "triggerAutoExposure dev autoType =
     bndP (total
       (bnd (act (say (InvokeAutoExposure autoType))) (\<lambda>_.
        bnd (send dev (invokeAutoExposureCommand autoType)) (\<lambda>autoExposureResponse.
        bnd (if getError autoExposureResponse \<noteq> OK
             then bnd (decode readBool autoExposureResponse) (\<lambda>b.
                    act (say (InvokeAutoExposureFails b)))
             else ret ()) (\<lambda>_.
        now dev))))) (\<lambda>startTime.
     waitAutoExposure dev autoType startTime)"

definition autoExposure :: "Device \<Rightarrow> World \<Rightarrow> ((Failure + unit) \<times> World) option" where
  "autoExposure dev =
     bndP (total
       (bnd (send dev (build (parameterUSInt 0
               (CoLaParameterWriter_new WRITE_VARIABLE ''acquisitionModeStereo'')))) (\<lambda>_.
        bnd (send dev (roiCommand ''autoExposureROI'')) (\<lambda>_.
        bnd (send dev (roiCommand ''autoExposureColorROI'')) (\<lambda>_.
        bnd (send dev (roiCommand ''autoWhiteBalanceROI'')) (\<lambda>_.
        bnd (readIntegrationTimes dev) (\<lambda>_.
        control_call (login dev SERVICE ''CUST_SERV'')))))))) (\<lambda>serviceLogin.
     bndP (if serviceLogin then forEachP (triggerAutoExposure dev) [0, 1, 2]
           else total (ret ())) (\<lambda>_.
     total (readIntegrationTimes dev)))"

text \<open>
  Lines 263 to 297 (and lines 139 to 173 of \<^verbatim>\<open>SampleVisionaryTMini.cpp\<close>, which are
  the same): the info messages. One pass of the loop body reads the eleven members of
  one item; the loop runs 25 times over the same reader.
\<close>

record MSinfoItem =
  errorId :: "32 word"
  errorState :: "32 word"
  firstTime_PwrOnCount :: "16 word"
  firstTime_OpSecs :: "32 word"
  firstTime_TimeOccur :: "32 word"
  lastTime_PwrOnCount :: "16 word"
  lastTime_OpSecs :: "32 word"
  lastTime_TimeOccur :: "32 word"
  numberOccurrences :: "16 word"
  errReserved :: "16 word"
  extInfo :: string

definition readInfoItem :: "CoLaParameterReader \<Rightarrow> (Failure + MSinfoItem) \<times> CoLaParameterReader" where
  "readInfoItem =
     bnd readUDInt (\<lambda>v1. bnd readUDInt (\<lambda>v2.
     bnd readUInt (\<lambda>v3. bnd readUDInt (\<lambda>v4. bnd readUDInt (\<lambda>v5.
     bnd readUInt (\<lambda>v6. bnd readUDInt (\<lambda>v7. bnd readUDInt (\<lambda>v8.
     bnd readUInt (\<lambda>v9. bnd readUInt (\<lambda>v10. bnd readFlexString (\<lambda>v11.
     ret \<lparr>errorId = v1, errorState = v2, firstTime_PwrOnCount = v3, firstTime_OpSecs = v4,
          firstTime_TimeOccur = v5, lastTime_PwrOnCount = v6, lastTime_OpSecs = v7,
          lastTime_TimeOccur = v8, numberOccurrences = v9, errReserved = v10,
          extInfo = v11\<rparr>)))))))))))"

text \<open>The types of the eleven reads of one pass, in the order of the source.\<close>

definition infoSchema :: "FieldType list" where
  "infoSchema = [UDInt, UDInt, UInt, UDInt, UDInt, UInt, UDInt, UDInt, UInt, UInt, FlexString]"

text \<open>
  The \<^verbatim>\<open>for\<close> loop, by the number of passes still to run; its state is the reader
  and the run. A failing read ends the loop with its failure.
\<close>

fun readInfoLoop ::
  "nat \<Rightarrow> CoLaParameterReader \<times> World \<Rightarrow> (Failure + unit) \<times> (CoLaParameterReader \<times> World)"
where
  "readInfoLoop 0 st = (Inr (), st)"
| "readInfoLoop (Suc n) (reader, w) =
     (case readInfoItem reader of
        (Inl e, reader') \<Rightarrow> (Inl e, (reader', w))
      | (Inr item, reader') \<Rightarrow>
          readInfoLoop n
            (reader',
             if errorId item \<noteq> 0
             then say (InfoMessage (errorId item) (extInfo item) (numberOccurrences item)) w
             else w))"

text \<open>
  Modelled from the spec: the value of \<^verbatim>\<open>MSinfo\<close> as the device sends it. The name
  implies the layout (section 3): the payload is the flat encoding of the items, one
  after the other, each with its eleven members in the order in which the loop reads
  them, encoded by the \<^verbatim>\<open>ParameterCodec\<close> of section 4.1: the integers big-endian,
  the string as a flex string (the length field, two bytes as in \<open>readFlexString\<close>,
  followed by the raw bytes).
\<close>

definition flexStringBytes :: "string \<Rightarrow> byte list" where
  "flexStringBytes s = be16 (word_of_nat (length s)) @ map (\<lambda>c. word_of_nat (of_char c)) s"

definition infoItemPayload :: "MSinfoItem \<Rightarrow> byte list" where
  "infoItemPayload item =
     be32 (errorId item) @ be32 (errorState item)
     @ be16 (firstTime_PwrOnCount item) @ be32 (firstTime_OpSecs item)
     @ be32 (firstTime_TimeOccur item)
     @ be16 (lastTime_PwrOnCount item) @ be32 (lastTime_OpSecs item)
     @ be32 (lastTime_TimeOccur item)
     @ be16 (numberOccurrences item) @ be16 (errReserved item)
     @ flexStringBytes (extInfo item)"

definition MSinfoPayload :: "MSinfoItem list \<Rightarrow> byte list" where
  "MSinfoPayload items = concat (map infoItemPayload items)"

definition getMessagesCommand :: CoLaCommand where
  "getMessagesCommand = build (CoLaParameterWriter_new READ_VARIABLE ''MSinfo'')"

definition readInfoMessages :: "Device \<Rightarrow> World \<Rightarrow> (Failure + unit) \<times> World" where
  "readInfoMessages dev =
     bnd (send dev getMessagesCommand) (\<lambda>messagesResponse w.
       case readInfoLoop 25 (CoLaParameterReader_new messagesResponse, w) of
         (r, (reader, w')) \<Rightarrow> (r, w'))"

text \<open>Lines 301 to 305: logout.\<close>

definition logoutStep :: "World \<Rightarrow> (Failure + unit) \<times> World" where
  "logoutStep =
     bnd (control_call logout) (\<lambda>loggedOut.
       if \<not> loggedOut then bnd (act (say FailedLogout)) (\<lambda>_. act (exitcode_call 2))
       else ret ())"

text \<open>
  Lines 63 to 305 in their order: the control part of the demo. The result says
  whether the demo goes on (\<open>True\<close>) or has taken one of the two early
  \<^verbatim>\<open>return exitcode.get()\<close> statements (\<open>False\<close>).
\<close>

definition configurationPhase ::
  "Device \<Rightarrow> string \<Rightarrow> World \<Rightarrow> ((Failure + bool) \<times> World) option"
where
  "configurationPhase dev ipAddress =
     bndP (total (control_call (ctrl_open dev COLA_B ipAddress 5000))) (\<lambda>opened.
       if \<not> opened
       then total (bnd (act (say FailedOpenControl)) (\<lambda>_.
                   bnd (act (exitcode_call 1)) (\<lambda>_. ret False)))
       else
     bndP (total
       (bnd (control_call stopAcquisition) (\<lambda>_.
        bnd (control_call (getDeviceIdent dev)) (\<lambda>ident.
        bnd (act (say (DeviceIdentIs ident))) (\<lambda>_.
        control_call (login dev AUTHORIZED_CLIENT ''CLIENT'')))))) (\<lambda>loggedIn.
       if \<not> loggedIn
       then total (bnd (act (say FailedLogin)) (\<lambda>_.
                   bnd (act (exitcode_call 2)) (\<lambda>_. ret False)))
       else
     bndP (total (setFramePeriod dev)) (\<lambda>_.
     bndP (total (readFramePeriod dev)) (\<lambda>_.
     bndP (autoExposure dev) (\<lambda>_.
     bndP (total (readInfoMessages dev)) (\<lambda>_.
     total (bnd logoutStep (\<lambda>_. ret True))))))))"

text \<open>
  Lines 356 to 370 (and lines 244 to 261 of \<^verbatim>\<open>SampleVisionaryTMini.cpp\<close>, whose
  \<^verbatim>\<open>else\<close> branch also copies three maps that it does not use): one pass of the
  continuous loop, and the loop.
\<close>

definition getFrameNum :: "VisionaryDataStream \<Rightarrow> nat" where
  "getFrameNum c = (case handler c of None \<Rightarrow> 0 | Some f \<Rightarrow> frameNum f)"

definition getTimestampMS :: "VisionaryDataStream \<Rightarrow> nat" where
  "getTimestampMS c = (case handler c of None \<Rightarrow> 0 | Some f \<Rightarrow> timestampMS f)"

definition continuousStep :: "Device \<Rightarrow> nat \<Rightarrow> World \<Rightarrow> World" where
  "continuousStep dev i w =
     (case getNextFrame dev (dataStream w) of
        (received, c) \<Rightarrow>
          if \<not> received
          then exitcode_call 12 (say (FrameTimeoutContinuous i) (w\<lparr>dataStream := c\<rparr>))
          else say (FrameReceivedContinuous (getFrameNum c) (getTimestampMS c))
                 (w\<lparr>dataStream := c\<rparr>))"

function continuousLoop :: "Device \<Rightarrow> nat \<Rightarrow> nat \<Rightarrow> World \<Rightarrow> World" where
  "continuousLoop dev numberOfFrames i w =
     (if i < numberOfFrames
      then continuousLoop dev numberOfFrames (Suc i) (continuousStep dev i w)
      else w)"
  by pat_completeness auto
termination
  by (relation "measure (\<lambda>(dev, numberOfFrames, i, w). numberOfFrames - i)") auto

declare continuousLoop.simps [simp del]

text \<open>
  The run as it stands before pass \<open>i\<close> of the continuous loop entered in \<open>w\<close>, and
  whether \<^verbatim>\<open>getNextFrame()\<close> fails in that pass.
\<close>

definition worldBefore :: "Device \<Rightarrow> World \<Rightarrow> nat \<Rightarrow> World" where
  "worldBefore dev w i = fold (continuousStep dev) [0..<i] w"

definition frameFails :: "Device \<Rightarrow> World \<Rightarrow> nat \<Rightarrow> bool" where
  "frameFails dev w i = (\<not> fst (getNextFrame dev (dataStream (worldBefore dev w i))))"

text \<open>
  Lines 307 to 380: the streaming part. The point cloud and the PLY file of lines 341
  to 350 are outside the engine; of them the model keeps the two messages printed.
\<close>

definition streamingPhase :: "Device \<Rightarrow> string \<Rightarrow> nat \<Rightarrow> nat \<Rightarrow> World \<Rightarrow> int \<times> World" where
  "streamingPhase dev ipAddress dataPort numberOfFrames w =
     (case stream_open dev ipAddress dataPort (dataStream w) of
        (opened, c) \<Rightarrow>
          if \<not> opened
          then (let w1 = exitcode_call 10 (say FailedOpenDataStream (w\<lparr>dataStream := c\<rparr>))
                in (ExitCode_get (exitcode w1), w1))
          else
            (let w1 = w\<lparr>dataStream := c, visionaryControl := snd (stepAcquisition (visionaryControl w))\<rparr>;
                 (received, c2) = getNextFrame dev (dataStream w1);
                 w2 = (if \<not> received
                       then exitcode_call 11 (say FrameTimeoutSingleStep (w1\<lparr>dataStream := c2\<rparr>))
                       else say (FinishedWritingFrameTo ''VisionaryS.ply'')
                              (say (WritingFrameTo ''VisionaryS.ply'')
                                (say (FrameReceivedStep (getFrameNum c2) (getTimestampMS c2))
                                  (w1\<lparr>dataStream := c2\<rparr>))));
                 w3 = w2\<lparr>visionaryControl := snd (startAcquisition (visionaryControl w2))\<rparr>;
                 w4 = continuousLoop dev numberOfFrames 0 w3;
                 w5 = w4\<lparr>visionaryControl :=
                          ctrl_close (snd (stopAcquisition (visionaryControl w4)))\<rparr>;
                 w6 = w5\<lparr>dataStream := stream_close (dataStream w5)\<rparr>
             in (ExitCode_get (exitcode w6), w6)))"

text \<open>\<^verbatim>\<open>runStreamingDemo\<close> of \<^verbatim>\<open>SampleVisionaryS.cpp\<close>.\<close>

definition runStreamingDemo ::
  "Device \<Rightarrow> string \<Rightarrow> nat \<Rightarrow> nat \<Rightarrow> World \<Rightarrow> ((Failure + int) \<times> World) option"
where
  "runStreamingDemo dev ipAddress dataPort numberOfFrames =
     bndP (configurationPhase dev ipAddress) (\<lambda>goOn.
       if goOn
       then total (\<lambda>w. case streamingPhase dev ipAddress dataPort numberOfFrames w of
                          (code, w') \<Rightarrow> (Inr code, w'))
       else total (\<lambda>w. (Inr (ExitCode_get (exitcode w)), w)))"

subsection \<open>\<^verbatim>\<open>SampleVisionaryTMini.cpp\<close>: the blocks that differ\<close>

text \<open>
  The control session of this sample is opened with \<^verbatim>\<open>COLA_2\<close>. Lines 103 to 118 and
  122 to 135: write \<^verbatim>\<open>enDepthMask\<close>, read \<^verbatim>\<open>humidity\<close>. The external trigger part
  of this sample (lines 266 to 361) is not modelled.
\<close>

definition setEnDepthMaskCommand :: "bool \<Rightarrow> CoLaCommand" where
  "setEnDepthMaskCommand b =
     build (parameterBool b (CoLaParameterWriter_new WRITE_VARIABLE ''enDepthMask''))"

definition setEnDepthMask :: "Device \<Rightarrow> World \<Rightarrow> (Failure + unit) \<times> World" where
  "setEnDepthMask dev =
     bnd (act (say SettingEnDepthMask)) (\<lambda>_.
     bnd (send dev (setEnDepthMaskCommand False)) (\<lambda>setEnDepthMaskResponse.
       if getError setEnDepthMaskResponse \<noteq> OK
       then bnd (act (exitcode_call 5)) (\<lambda>_. act (say FailedWriteEnDepthMask))
       else act (say SuccessfullySetEnDepthMask)))"

definition getHumidity :: CoLaCommand where
  "getHumidity = build (CoLaParameterWriter_new READ_VARIABLE ''humidity'')"

definition readHumidity :: "Device \<Rightarrow> World \<Rightarrow> (Failure + unit) \<times> World" where
  "readHumidity dev =
     bnd (send dev getHumidity) (\<lambda>humidityResponse.
       if getError humidityResponse \<noteq> OK
       then bnd (act (exitcode_call 5)) (\<lambda>_. act (say FailedReadHumidity))
       else bnd (decode readLReal humidityResponse) (\<lambda>humidity.
              act (say (ReadHumidity humidity))))"

section \<open>A simulated device\<close>

text \<open>
  A device for concrete runs, in the manner of the end-to-end scenarios of section 8 of
  the specification: it keeps its variables in a store, answers a write of a variable
  it knows with \<open>OK\<close> and stores the payload, answers a read with the payload stored
  last, answers a command for an unknown variable with an error code and an empty
  payload, and answers a method invocation with \<open>OK\<close> and one byte. It accepts the
  passwords the sample uses, and delivers one frame per wait on the streaming channel, where a
  frame is three bytes (sequence number, time stamp and one blob byte); the second
  frame arrives in two parts, one byte during the second wait and the rest during the
  third.
\<close>

text \<open>An info item that is no message: its \<^verbatim>\<open>errorId\<close> is 0.\<close>

definition simInfoItem :: MSinfoItem where
  "simInfoItem =
     \<lparr>errorId = 0, errorState = 1, firstTime_PwrOnCount = 1, firstTime_OpSecs = 0,
      firstTime_TimeOccur = 0, lastTime_PwrOnCount = 1, lastTime_OpSecs = 0,
      lastTime_TimeOccur = 0, numberOccurrences = 0, errReserved = 0, extInfo = ''ok''\<rparr>"

text \<open>The value of \<^verbatim>\<open>MSinfo\<close>: 25 items without a message.\<close>

definition simMSinfoPayload :: "byte list" where
  "simMSinfoPayload = MSinfoPayload (replicate 25 simInfoItem)"

definition simVariables :: "string \<Rightarrow> byte list option" where
  "simVariables =
     [''framePeriodTime'' \<mapsto> be32 40000,
      ''acquisitionModeStereo'' \<mapsto> [0],
      ''autoExposureROI'' \<mapsto> [],
      ''autoExposureColorROI'' \<mapsto> [],
      ''autoWhiteBalanceROI'' \<mapsto> [],
      ''integrationTimeUs'' \<mapsto> be32 1000,
      ''integrationTimeUsColor'' \<mapsto> be32 2000,
      ''autoExposureParameterizedRunning'' \<mapsto> [0],
      ''MSinfo'' \<mapsto> simMSinfoPayload]"

fun simStore :: "Call list \<Rightarrow> (string \<Rightarrow> byte list option) \<Rightarrow> string \<Rightarrow> byte list option" where
  "simStore [] store = store"
| "simStore (CallSend cmd # calls) store =
     simStore calls
       (if cmdType cmd = WRITE_VARIABLE \<and> store (cmdName cmd) \<noteq> None
        then store(cmdName cmd \<mapsto> cmdPayload cmd) else store)"
| "simStore (c # calls) store = simStore calls store"

definition simAnswer :: "(string \<Rightarrow> byte list option) \<Rightarrow> CoLaCommand \<Rightarrow> CoLaCommand" where
  "simAnswer store cmd =
     (if cmdType cmd = METHOD_INVOCATION
      then \<lparr>cmdType = METHOD_INVOCATION_RESPONSE, cmdName = cmdName cmd, cmdPayload = [1],
            getError = OK\<rparr>
      else (case store (cmdName cmd) of
              None \<Rightarrow> \<lparr>cmdType = ERROR_RESPONSE, cmdName = cmdName cmd, cmdPayload = [],
                        getError = DeviceError 3\<rparr>
            | Some v \<Rightarrow>
                if cmdType cmd = WRITE_VARIABLE
                then \<lparr>cmdType = WRITE_VARIABLE_RESPONSE, cmdName = cmdName cmd, cmdPayload = [],
                      getError = OK\<rparr>
                else \<lparr>cmdType = READ_VARIABLE_RESPONSE, cmdName = cmdName cmd, cmdPayload = v,
                      getError = OK\<rparr>))"

definition simRespond :: "Call list \<Rightarrow> CoLaCommand option" where
  "simRespond calls =
     (case rev calls of
        CallSend cmd # earlier \<Rightarrow> Some (simAnswer (simStore (rev earlier) simVariables) cmd)
      | _ \<Rightarrow> None)"

definition simFraming :: "byte list \<Rightarrow> Assembly" where
  "simFraming bs =
     (case bs of
        s # t # b # rest \<Rightarrow> Complete \<lparr>frameNum = unat s, timestampMS = unat t, blob = [b]\<rparr> rest
      | _ \<Rightarrow> Incomplete)"

definition simDevice :: Device where
  "simDevice =
     \<lparr>reachable = (\<lambda>variant address timeout. True),
      accepts = (\<lambda>level password.
        (level = AUTHORIZED_CLIENT \<and> password = ''CLIENT'')
        \<or> (level = SERVICE \<and> password = ''CUST_SERV'')),
      respond = simRespond,
      deviceIdent = ''Visionary-S CX V3S102-1x 5.16.0'',
      streamReachable = (\<lambda>address prt. True),
      arrivals = (\<lambda>k. if k = 1 then Bytes [2] else if k = 2 then Bytes [7, 42]
                       else Bytes [word_of_nat (Suc k), 7, 42]),
      framing = simFraming,
      systemClock = (\<lambda>k. int k * 1000000000)\<rparr>"

text \<open>A device that answers every command with an error code.\<close>

definition refusingDevice :: Device where
  "refusingDevice =
     simDevice\<lparr>respond := (\<lambda>calls.
       Some \<lparr>cmdType = ERROR_RESPONSE, cmdName = [], cmdPayload = [],
             getError = DeviceError 3\<rparr>)\<rparr>"

text \<open>A device that answers every command with \<open>OK\<close> and eight zero bytes.\<close>

definition obligingDevice :: Device where
  "obligingDevice =
     simDevice\<lparr>respond := (\<lambda>calls.
       Some \<lparr>cmdType = READ_VARIABLE_RESPONSE, cmdName = [],
             cmdPayload = [0, 0, 0, 0, 0, 0, 0, 0], getError = OK\<rparr>)\<rparr>"

text \<open>The simulated device behind a control port that speaks the \<^verbatim>\<open>COLA_2\<close> variant only.\<close>

definition cola2Device :: Device where
  "cola2Device = simDevice\<lparr>reachable := (\<lambda>variant address timeout. variant = COLA_2)\<rparr>"

text \<open>
  The simulated device without the variable \<^verbatim>\<open>integrationTimeUs\<close>: it answers a read
  of that variable with an error code and an empty payload.
\<close>

definition noIntegrationTimeDevice :: Device where
  "noIntegrationTimeDevice =
     simDevice\<lparr>respond := (\<lambda>calls.
       case rev calls of
         CallSend cmd # earlier \<Rightarrow>
           if cmdName cmd = ''integrationTimeUs''
           then Some \<lparr>cmdType = ERROR_RESPONSE, cmdName = cmdName cmd, cmdPayload = [],
                      getError = DeviceError 3\<rparr>
           else simRespond calls
       | _ \<Rightarrow> simRespond calls)\<rparr>"

text \<open>A run that is logged in as authorized client and has sent nothing else.\<close>

definition loggedInWorld :: World where
  "loggedInWorld =
     (World_new STOPPED)\<lparr>visionaryControl :=
        \<lparr>sessionState = Authenticated AUTHORIZED_CLIENT, acquisition = STOPPED, wire = []\<rparr>\<rparr>"

text \<open>A run whose streaming channel is open and has waited for one frame.\<close>

definition streamingWorld :: World where
  "streamingWorld =
     (World_new RUNNING)\<lparr>dataStream :=
        \<lparr>streamOpen = True, buffer = [], lastSeq = Some 1, handler = None, waits = 1\<rparr>\<rparr>"

text \<open>The answer of the simulated device to the read of \<^verbatim>\<open>MSinfo\<close>.\<close>

definition simMSinfoResponse :: CoLaCommand where
  "simMSinfoResponse =
     \<lparr>cmdType = READ_VARIABLE_RESPONSE, cmdName = ''MSinfo'',
      cmdPayload = simMSinfoPayload, getError = OK\<rparr>"

section \<open>The two IP tools: \<^verbatim>\<open>SampleAutoIPScan.cpp\<close> and \<^verbatim>\<open>SampleAssignIP.cpp\<close>\<close>

subsection \<open>Formatted extraction from a \<^verbatim>\<open>std::istringstream\<close>\<close>

text \<open>
  The two \<^verbatim>\<open>main\<close> functions read their options with \<^verbatim>\<open>operator>>\<close>. What is left
  of a stream is modelled as the list of characters not yet read. White space is what
  \<^verbatim>\<open>std::isspace\<close> accepts in the C locale: the blank and the characters 9 to 13.
\<close>

definition isspace :: "char \<Rightarrow> bool" where
  "isspace c = (c = CHR '' '' \<or> (9 \<le> (of_char c :: nat) \<and> (of_char c :: nat) \<le> 13))"

definition isdigit :: "char \<Rightarrow> bool" where
  "isdigit c = (48 \<le> (of_char c :: nat) \<and> (of_char c :: nat) \<le> 57)"

text \<open>
  \<^verbatim>\<open>stream.get()\<close>: the next character and the rest, or the end-of-file value
  (\<open>None\<close>) when nothing is left.
\<close>

definition stream_get :: "string \<Rightarrow> char option \<times> string" where
  "stream_get s = (case s of [] \<Rightarrow> (None, []) | c # r \<Rightarrow> (Some c, r))"

text \<open>
  \<^verbatim>\<open>stream >> str\<close> for a \<^verbatim>\<open>std::string\<close>: leading white space is skipped; when
  nothing is left the extraction fails and the string keeps its old value; otherwise
  the string becomes the characters up to the next white space. The result is the new
  value, whether the stream is still good, and the rest of the stream.
\<close>

definition extract_string :: "string \<Rightarrow> string \<Rightarrow> string \<times> bool \<times> string" where
  "extract_string s old =
     (let r = dropWhile isspace s
      in if r = [] then (old, False, [])
         else (takeWhile (\<lambda>c. \<not> isspace c) r, True, dropWhile (\<lambda>c. \<not> isspace c) r))"

text \<open>
  The field an integer extraction accumulates: an optional sign and the decimal digits
  that follow it (the streams are in their default decimal mode). \<open>None\<close> when there
  is no digit.
\<close>

definition digits_value :: "string \<Rightarrow> nat" where
  "digits_value ds = foldl (\<lambda>a c. 10 * a + ((of_char c :: nat) - 48)) 0 ds"

definition scan_number :: "string \<Rightarrow> (bool \<times> nat) option" where
  "scan_number r =
     (let neg = (r \<noteq> [] \<and> hd r = CHR ''-'');
          body = (if r \<noteq> [] \<and> (hd r = CHR ''-'' \<or> hd r = CHR ''+'') then tl r else r);
          ds = takeWhile isdigit body
      in if ds = [] then None else Some (neg, digits_value ds))"

text \<open>
  \<^verbatim>\<open>stream >> n\<close> for an unsigned integer of \<open>bits\<close> bits
  (\<^verbatim>\<open>std::uint16_t\<close>, \<^verbatim>\<open>unsigned int\<close>): with nothing left after the white space
  the extraction fails and \<open>n\<close> keeps its old value; a field without digits stores 0 and
  fails; a magnitude that does not fit stores the largest value and fails; a leading
  minus sign negates modulo \<open>2 ^ bits\<close>, as the common standard libraries do. The
  result is the new value and whether the stream is still good.
\<close>

definition extract_unsigned :: "nat \<Rightarrow> string \<Rightarrow> nat \<Rightarrow> nat \<times> bool" where
  "extract_unsigned bits s old =
     (let r = dropWhile isspace s
      in if r = [] then (old, False)
         else (case scan_number r of
                 None \<Rightarrow> (0, False)
               | Some (neg, d) \<Rightarrow>
                   if 2 ^ bits \<le> d then (2 ^ bits - 1, False)
                   else if neg then ((2 ^ bits - d) mod 2 ^ bits, True)
                   else (d, True)))"

text \<open>The same for a 32-bit \<^verbatim>\<open>int\<close>: out of range stores the nearest bound and fails.\<close>

definition extract_int :: "string \<Rightarrow> int \<Rightarrow> int \<times> bool" where
  "extract_int s old =
     (let r = dropWhile isspace s
      in if r = [] then (old, False)
         else (case scan_number r of
                 None \<Rightarrow> (0, False)
               | Some (neg, d) \<Rightarrow>
                   if neg then (if 2 ^ 31 < d then (- (2 ^ 31), False) else (- int d, True))
                   else (if 2 ^ 31 \<le> d then (2 ^ 31 - 1, False) else (int d, True))))"

text \<open>
  The code shared by both tools after the option loop:
  \<^verbatim>\<open>std::replace(ip.begin(), ip.end(), '/', ' '); std::istringstream ipStream(ip);\<close>
  \<^verbatim>\<open>if (ipStream >> ip >> prefix)\<close> with a \<^verbatim>\<open>std::uint16_t prefix\<close>.
  \<open>None\<close> is the \<^verbatim>\<open>else\<close> branch (one of the two extractions failed).
\<close>

definition parse_cidr :: "string \<Rightarrow> (string \<times> nat) option" where
  "parse_cidr addr =
     (let replaced = map (\<lambda>c. if c = CHR ''/'' then CHR '' '' else c) addr
      in case extract_string replaced [] of
           (ip, ok, rest) \<Rightarrow>
             if \<not> ok then None
             else (case extract_unsigned 16 rest 0 of
                     (prefixLen, ok') \<Rightarrow> if ok' then Some (ip, prefixLen) else None))"

subsection \<open>The discovery library, as the tools use it\<close>

text \<open>
  \<^verbatim>\<open>VisionaryAutoIPScan.h\<close> is not part of the sources. Its MAC address type is the type
  parameter \<open>'mac\<close>; its two protocol constants are the datatype below; its functions
  and the constants \<^verbatim>\<open>DEFAULT_PORT\<close> and \<^verbatim>\<open>DEFAULT_GATEWAY\<close> are the fields of a
  record that the tools take as a parameter. \<open>doScan\<close> and \<open>assign\<close> also take the
  arguments of the constructor \<^verbatim>\<open>VisionaryAutoIPScan(hostIp, prefixLength)\<close> first.
  The fields of a \<^verbatim>\<open>DeviceInfo\<close> other than the MAC address are only printed and are
  kept as the text printed.
\<close>

datatype ScanProtocol = SCAN_COLA_B | SCAN_COLA_2

record 'mac DeviceInfo =
  deviceName :: string
  macAddress :: 'mac
  ipAddress :: string
  subNet :: string
  port :: string

record 'mac AutoIPScan =
  DEFAULT_PORT :: nat
  DEFAULT_GATEWAY :: string
  convertMacToString :: "'mac \<Rightarrow> string"
  convertMacToStruct :: "string \<Rightarrow> 'mac"
  doScan :: "string \<Rightarrow> nat \<Rightarrow> nat \<Rightarrow> nat \<Rightarrow> 'mac DeviceInfo list"
  assign :: "string \<Rightarrow> nat \<Rightarrow> 'mac \<Rightarrow> ScanProtocol \<Rightarrow> string \<Rightarrow> nat \<Rightarrow> string \<Rightarrow> bool \<Rightarrow> nat \<Rightarrow> bool"

text \<open>What the tools write to \<^verbatim>\<open>std::cout\<close>, one value per statement.\<close>

datatype Stdout =
    HelpText
  | DeviceBlock string string string string string
  | FoundDevices nat
  | AssignedOk
  | AssignedFailed

subsection \<open>\<^verbatim>\<open>runScanDemo\<close>\<close>

text \<open>
  The loop over \<^verbatim>\<open>deviceList\<close>: \<^verbatim>\<open>deviceMacs.insert(mac)\<close> reports in
  \<^verbatim>\<open>status.second\<close> whether the string was new; when it was not, \<^verbatim>\<open>continue\<close> skips
  the record. The state is the \<^verbatim>\<open>std::unordered_set\<close> and the output so far.
\<close>

fun scanLoop ::
  "('mac \<Rightarrow> string) \<Rightarrow> ('mac, 'x) DeviceInfo_scheme list \<Rightarrow> string set \<times> Stdout list
     \<Rightarrow> string set \<times> Stdout list"
where
  "scanLoop conv [] st = st"
| "scanLoop conv (it # rest) (deviceMacs, out) =
     (let mac = conv (macAddress it)
      in if mac \<in> deviceMacs then scanLoop conv rest (deviceMacs, out)
         else scanLoop conv rest
                (insert mac deviceMacs,
                 out @ [DeviceBlock (deviceName it) mac (ipAddress it) (subNet it) (port it)]))"

definition runScanDemo ::
  "'mac AutoIPScan \<Rightarrow> string \<Rightarrow> nat \<Rightarrow> nat \<Rightarrow> nat \<Rightarrow> Stdout list \<times> int"
where
  "runScanDemo lib hostIp prefixLength broadcastPort broadcastTimeoutMs =
     (let deviceList = doScan lib hostIp prefixLength broadcastTimeoutMs broadcastPort;
          (deviceMacs, out) = scanLoop (convertMacToString lib) deviceList ({}, [])
      in (out @ [FoundDevices (card deviceMacs)], 0))"

subsection \<open>\<^verbatim>\<open>main\<close> of \<^verbatim>\<open>SampleAutoIPScan.cpp\<close>\<close>

record ScanOpts =
  hostIP :: string
  broadcastPort :: nat
  broadcastTimeoutMs :: nat
  showHelpAndExit :: bool
  exitCode :: int

definition ScanOpts_init :: "'mac AutoIPScan \<Rightarrow> ScanOpts" where
  "ScanOpts_init lib =
     \<lparr>hostIP = [], broadcastPort = DEFAULT_PORT lib, broadcastTimeoutMs = 5000,
      showHelpAndExit = False, exitCode = 0\<rparr>"

text \<open>
  The \<^verbatim>\<open>switch (argstream.get())\<close> of the option loop, applied to the option letter
  (or the end-of-file value, which selects \<^verbatim>\<open>default\<close>) and the rest of the argument.
\<close>

definition scanSwitch :: "char option \<Rightarrow> string \<Rightarrow> ScanOpts \<Rightarrow> ScanOpts" where
  "scanSwitch k v opts =
     (if k = Some CHR ''h'' then opts\<lparr>showHelpAndExit := True\<rparr>
      else if k = Some CHR ''i'' then opts\<lparr>hostIP := fst (extract_string v (hostIP opts))\<rparr>
      else if k = Some CHR ''p'' then
        opts\<lparr>broadcastPort := fst (extract_unsigned 16 v (broadcastPort opts))\<rparr>
      else if k = Some CHR ''t'' then
        opts\<lparr>broadcastTimeoutMs := fst (extract_unsigned 32 v (broadcastTimeoutMs opts))\<rparr>
      else opts\<lparr>showHelpAndExit := True, exitCode := 1\<rparr>)"

text \<open>
  The option loop over \<^verbatim>\<open>argv[1..]\<close>. When the first character of an argument is
  not \<^verbatim>\<open>'-'\<close> (also when the argument is empty), the \<^verbatim>\<open>break\<close> of that branch
  leaves the loop; a \<^verbatim>\<open>break\<close> inside the \<^verbatim>\<open>switch\<close> only leaves the
  \<^verbatim>\<open>switch\<close>, and the loop goes on with the next argument.
\<close>

fun scanArgs :: "string list \<Rightarrow> ScanOpts \<Rightarrow> ScanOpts" where
  "scanArgs [] opts = opts"
| "scanArgs (a # args) opts =
     (if fst (stream_get a) \<noteq> Some CHR ''-''
      then opts\<lparr>showHelpAndExit := True, exitCode := 1\<rparr>
      else scanArgs args
             (scanSwitch (fst (stream_get (snd (stream_get a))))
                (snd (stream_get (snd (stream_get a)))) opts))"

text \<open>
  After the loop: the address is split, the help flag is also set when the split
  fails or the prefix exceeds 32, and the help branch returns \<^verbatim>\<open>exitCode\<close>.
  \<^verbatim>\<open>static_cast<uint8_t>(prefix)\<close> is the prefix modulo 256.
\<close>

definition scanMain :: "'mac AutoIPScan \<Rightarrow> string list \<Rightarrow> Stdout list \<times> int" where
  "scanMain lib args =
     (let opts = scanArgs args (ScanOpts_init lib);
          cidr = parse_cidr (hostIP opts);
          help = (case cidr of
                    Some (ip, prefixLen) \<Rightarrow> if 32 < prefixLen then True else showHelpAndExit opts
                  | None \<Rightarrow> True)
      in if help then ([HelpText], exitCode opts)
         else (case cidr of
                 Some (ip, prefixLen) \<Rightarrow>
                   runScanDemo lib ip (prefixLen mod 256) (broadcastPort opts)
                     (broadcastTimeoutMs opts)
               | None \<Rightarrow> ([HelpText], exitCode opts)))"

subsection \<open>\<^verbatim>\<open>runAssignDemo\<close> and \<^verbatim>\<open>main\<close> of \<^verbatim>\<open>SampleAssignIP.cpp\<close>\<close>

definition runAssignDemo ::
  "'mac AutoIPScan \<Rightarrow> string \<Rightarrow> ScanProtocol \<Rightarrow> string \<Rightarrow> nat \<Rightarrow> bool \<Rightarrow> nat \<Rightarrow> string
     \<Rightarrow> Stdout list \<times> int"
where
  "runAssignDemo lib destinationMac colaVer ipAddr prefixLength dhcp timeout ipGateway =
     (let successful =
            assign lib ipAddr prefixLength (convertMacToStruct lib destinationMac) colaVer
              ipAddr prefixLength ipGateway dhcp timeout
      in if successful then ([AssignedOk], 0) else ([AssignedFailed], 0))"

text \<open>
  \<^verbatim>\<open>int tmpCola\<close> is not initialised in the source; the value it holds before the
  first successful \<^verbatim>\<open>-c\<close> extraction is the parameter \<open>tmpCola0\<close> of \<open>assignMain\<close>.
\<close>

record AssignOpts =
  destinationMac :: string
  ipAddr :: string
  tmpCola :: int
  dhcp :: bool
  colaVersion :: ScanProtocol
  ipGateway :: string
  timeoutMs :: nat
  a_showHelpAndExit :: bool
  a_exitCode :: int

definition AssignOpts_init :: "'mac AutoIPScan \<Rightarrow> int \<Rightarrow> AssignOpts" where
  "AssignOpts_init lib tmpCola0 =
     \<lparr>destinationMac = [], ipAddr = [], tmpCola = tmpCola0, dhcp = False,
      colaVersion = SCAN_COLA_2, ipGateway = DEFAULT_GATEWAY lib, timeoutMs = 5000,
      a_showHelpAndExit = False, a_exitCode = 0\<rparr>"

definition assignSwitch :: "char option \<Rightarrow> string \<Rightarrow> AssignOpts \<Rightarrow> AssignOpts" where
  "assignSwitch k v opts =
     (if k = Some CHR ''h'' then opts\<lparr>a_showHelpAndExit := True\<rparr>
      else if k = Some CHR ''o'' then
        opts\<lparr>destinationMac := fst (extract_string v (destinationMac opts))\<rparr>
      else if k = Some CHR ''c'' then
        (let t = fst (extract_int v (tmpCola opts));
             v1 = (if t = 1 then SCAN_COLA_B else colaVersion opts);
             v2 = (if t = 2 then SCAN_COLA_2 else v1)
         in opts\<lparr>tmpCola := t, colaVersion := v2\<rparr>)
      else if k = Some CHR ''i'' then opts\<lparr>ipAddr := fst (extract_string v (ipAddr opts))\<rparr>
      else if k = Some CHR ''d'' then opts\<lparr>dhcp := True\<rparr>
      else if k = Some CHR ''t'' then
        opts\<lparr>timeoutMs := fst (extract_unsigned 32 v (timeoutMs opts))\<rparr>
      else if k = Some CHR ''g'' then
        opts\<lparr>ipGateway := fst (extract_string v (ipGateway opts))\<rparr>
      else opts\<lparr>a_showHelpAndExit := True, a_exitCode := 1\<rparr>)"

fun assignArgs :: "string list \<Rightarrow> AssignOpts \<Rightarrow> AssignOpts" where
  "assignArgs [] opts = opts"
| "assignArgs (a # args) opts =
     (if fst (stream_get a) \<noteq> Some CHR ''-''
      then opts\<lparr>a_showHelpAndExit := True, a_exitCode := 1\<rparr>
      else assignArgs args
             (assignSwitch (fst (stream_get (snd (stream_get a))))
                (snd (stream_get (snd (stream_get a)))) opts))"

definition assignMain :: "'mac AutoIPScan \<Rightarrow> int \<Rightarrow> string list \<Rightarrow> Stdout list \<times> int" where
  "assignMain lib tmpCola0 args =
     (let opts = assignArgs args (AssignOpts_init lib tmpCola0);
          cidr = parse_cidr (ipAddr opts);
          help = (case cidr of
                    Some (ip, prefixLen) \<Rightarrow> if 32 < prefixLen then True else a_showHelpAndExit opts
                  | None \<Rightarrow> True)
      in if help then ([HelpText], a_exitCode opts)
         else (case cidr of
                 Some (ip, prefixLen) \<Rightarrow>
                   runAssignDemo lib (destinationMac opts) (colaVersion opts) ip
                     (prefixLen mod 256) (dhcp opts) (timeoutMs opts) (ipGateway opts)
               | None \<Rightarrow> ([HelpText], a_exitCode opts)))"

text \<open>
  How the option loops classify one argument: it does not start with \<^verbatim>\<open>'-'\<close>
  (or is empty), or its option letter is none the tool knows (or is missing).
\<close>

definition nonDash :: "string \<Rightarrow> bool" where
  "nonDash a = (fst (stream_get a) \<noteq> Some CHR ''-'')"

definition optionLetter :: "string \<Rightarrow> char option" where
  "optionLetter a = fst (stream_get (snd (stream_get a)))"

definition unknownOption :: "string \<Rightarrow> string \<Rightarrow> bool" where
  "unknownOption letters a = (\<not> nonDash a \<and> optionLetter a \<notin> Some ` set letters)"

text \<open>
  The condition under which both tools show the help after the loop whatever the
  options were: the address does not split into \<^verbatim>\<open>ip/prefix\<close>, or the prefix
  exceeds 32.
\<close>

definition badCidr :: "string \<Rightarrow> bool" where
  "badCidr addr =
     (case parse_cidr addr of None \<Rightarrow> True | Some (ip, prefixLen) \<Rightarrow> 32 < prefixLen)"

text \<open>The MAC strings of the device blocks written to the output, in order.\<close>

fun printedMacs :: "Stdout list \<Rightarrow> string list" where
  "printedMacs [] = []"
| "printedMacs (DeviceBlock n m i s p # out) = m # printedMacs out"
| "printedMacs (x # out) = printedMacs out"

text \<open>An argument that asks for the help: \<^verbatim>\<open>-h\<close>, whatever follows the letter.\<close>

definition helpOption :: "string \<Rightarrow> bool" where
  "helpOption a = (\<not> nonDash a \<and> optionLetter a = Some CHR ''h'')"

text \<open>A command line with an argument that one of the option loops rejects.\<close>

definition rejected :: "string \<Rightarrow> string list \<Rightarrow> bool" where
  "rejected letters args = (\<exists>a \<in> set args. nonDash a \<or> unknownOption letters a)"

text \<open>
  A library instance for concrete runs: MAC addresses are their strings, a scan finds
  three records of two devices, and every assignment fails.
\<close>

definition exampleLib :: "string AutoIPScan" where
  "exampleLib =
     \<lparr>DEFAULT_PORT = 30718, DEFAULT_GATEWAY = ''0.0.0.0'', convertMacToString = id,
      convertMacToStruct = id,
      doScan = (\<lambda>h p t b.
        [\<lparr>deviceName = ''A'', macAddress = ''m1'', ipAddress = ''10.0.0.1'',
          subNet = ''255.0.0.0'', port = ''2122''\<rparr>,
         \<lparr>deviceName = ''B'', macAddress = ''m2'', ipAddress = ''10.0.0.2'',
          subNet = ''255.0.0.0'', port = ''2122''\<rparr>,
         \<lparr>deviceName = ''A'', macAddress = ''m1'', ipAddress = ''10.0.0.1'',
          subNet = ''255.0.0.0'', port = ''2122''\<rparr>]),
      assign = (\<lambda>h p m v i l g d t. False)\<rparr>"

section \<open>Predicates used in the proofs\<close>

text \<open>
  A reader operation follows a list of field types when it leaves the payload as it
  is, never moves the cursor backwards, and issues the reads of the list in order: all
  of them when it succeeds, and those up to the read that fails, which fails with the
  truncation condition, when it does not.
\<close>

definition follows ::
  "FieldType list \<Rightarrow> (CoLaParameterReader \<Rightarrow> (Failure + 'a) \<times> CoLaParameterReader) \<Rightarrow> bool"
where
  "follows ts m =
     (\<forall>r. rdData (snd (m r)) = rdData r \<and> rdPos r \<le> rdPos (snd (m r)) \<and>
          (case fst (m r) of
             Inr x \<Rightarrow> rdLog (snd (m r)) = rdLog r @ ts
           | Inl e \<Rightarrow> e = TruncatedPayload
                      \<and> (\<exists>k<length ts. rdLog (snd (m r)) = rdLog r @ take (Suc k) ts)))"

text \<open>
  What the loop over the info messages prints for a list of items: a line for every
  item whose \<^verbatim>\<open>errorId\<close> is not 0, in order.
\<close>

definition infoMessages :: "MSinfoItem list \<Rightarrow> World \<Rightarrow> World" where
  "infoMessages items w =
     fold (\<lambda>item w. if errorId item \<noteq> 0
                     then say (InfoMessage (errorId item) (extInfo item) (numberOccurrences item)) w
                     else w) items w"

text \<open>
  The calls on the wire when the demo has logged in, and the state of the run when it
  has read the frame period back from a device that answered as expected.
\<close>

definition loginCalls :: "string \<Rightarrow> Call list" where
  "loginCalls ip =
     [CallOpen COLA_B ip 5000, CallStop, CallIdent, CallLogin AUTHORIZED_CLIENT ''CLIENT'']"

definition afterReadBack :: "Device \<Rightarrow> string \<Rightarrow> AcquisitionState \<Rightarrow> World" where
  "afterReadBack dev ip a =
     (World_new a)\<lparr>
        visionaryControl :=
          \<lparr>sessionState = Authenticated AUTHORIZED_CLIENT, acquisition = STOPPED,
           wire = loginCalls ip @ [CallSend setFramePeriodCommand, CallSend getFramePeriodCommand]\<rparr>,
        console := [DeviceIdentIs (deviceIdent dev), SettingFramePeriodTime,
                    SuccessfullySetFramePeriodTime, ReadFramePeriodTime 150000]\<rparr>"

text \<open>
  One state of a run continues another without a logout: the calls on the wire and the
  output are extended at their ends, a connection that was there is still there, a
  session that was logged in is still logged in, and no logout call has been added.
\<close>

definition loggedIn :: "World \<Rightarrow> bool" where
  "loggedIn w = (case sessionState (visionaryControl w) of Authenticated level \<Rightarrow> True | _ \<Rightarrow> False)"

definition grows :: "World \<Rightarrow> World \<Rightarrow> bool" where
  "grows w w' =
     (prefix (wire (visionaryControl w)) (wire (visionaryControl w'))
      \<and> prefix (console w) (console w')
      \<and> (sessionState (visionaryControl w) \<noteq> Disconnected \<longrightarrow>
           sessionState (visionaryControl w') \<noteq> Disconnected)
      \<and> (loggedIn w \<longrightarrow> loggedIn w')
      \<and> (CallLogout \<notin> set (wire (visionaryControl w)) \<longrightarrow>
           CallLogout \<notin> set (wire (visionaryControl w'))))"

definition keeps :: "(World \<Rightarrow> (Failure + 'a) \<times> World) \<Rightarrow> bool" where
  "keeps m = (\<forall>w. grows w (snd (m w)))"

definition keepsP :: "(World \<Rightarrow> ((Failure + 'a) \<times> World) option) \<Rightarrow> bool" where
  "keepsP m = (\<forall>w r w'. m w = Some (r, w') \<longrightarrow> grows w w')"

section \<open>Properties of the exit-code helper\<close>

lemma ExitCode_feed_code:
  "m_code (ExitCode_feed c e) =
     (if c = 0 then m_code e else if m_code e = 0 then c else min c (m_code e))"
  by (simp add: ExitCode_feed_def min_def)

lemma ExitCode_feed_all_Cons:
  "ExitCode_feed_all (c # cs) e = ExitCode_feed_all cs (ExitCode_feed c e)"
  by (simp add: ExitCode_feed_all_def)

lemma ExitCode_feed_all_code:
  "m_code (ExitCode_feed_all cs e) =
     (if m_code e = 0
      then (if set cs - {0} = {} then 0 else Min (set cs - {0}))
      else Min (insert (m_code e) (set cs - {0})))"
proof (induction cs arbitrary: e)
  case Nil
  show ?case by (simp add: ExitCode_feed_all_def)
next
  case (Cons c cs)
  let ?T = "set cs - {0}"
  let ?e' = "ExitCode_feed c e"
  have fin: "finite ?T" by simp
  have IH: "m_code (ExitCode_feed_all (c # cs) e) =
     (if m_code ?e' = 0
      then (if ?T = {} then 0 else Min ?T)
      else Min (insert (m_code ?e') ?T))"
    unfolding ExitCode_feed_all_Cons by (rule Cons.IH)
  show ?case
  proof (cases "c = 0")
    case True
    then have "set (c # cs) - {0} = ?T" by auto
    moreover have "m_code ?e' = m_code e"
      using True by (simp add: ExitCode_feed_code)
    ultimately show ?thesis
      unfolding IH by simp
  next
    case False
    then have set_eq: "set (c # cs) - {0} = insert c ?T" by auto
    show ?thesis
    proof (cases "m_code e = 0")
      case True
      then have "m_code ?e' = c"
        using False by (simp add: ExitCode_feed_code)
      then show ?thesis
        unfolding IH set_eq using False True by simp
    next
      case nz: False
      have m: "m_code ?e' = min c (m_code e)"
        using False nz by (simp add: ExitCode_feed_code)
      have m0: "min c (m_code e) \<noteq> 0"
        using False nz by (simp add: min_def)
      have "Min (insert (min c (m_code e)) ?T) = Min (insert (m_code e) (insert c ?T))"
      proof (cases "?T = {}")
        case True
        show ?thesis unfolding True by (simp add: min.commute)
      next
        case False
        have "Min (insert (min c (m_code e)) ?T) = min (min c (m_code e)) (Min ?T)"
          using fin False by (rule Min_insert)
        also have "\<dots> = min (m_code e) (min c (Min ?T))"
          by (simp add: min.assoc min.left_commute)
        also have "min c (Min ?T) = Min (insert c ?T)"
          using fin False by (rule Min_insert [symmetric])
        also have "min (m_code e) (Min (insert c ?T)) = Min (insert (m_code e) (insert c ?T))"
          by (rule Min_insert [symmetric]) (use fin in simp_all)
        finally show ?thesis .
      qed
      then show ?thesis
        unfolding IH set_eq m using m0 nz by (simp only: if_False)
    qed
  qed
qed

text \<open>
  C2. For every finite sequence of codes fed through \<^verbatim>\<open>operator()\<close> into a fresh
  \<^verbatim>\<open>ExitCode\<close>, \<^verbatim>\<open>get()\<close> is 0 when every code fed is 0 and otherwise the least
  of the non-zero codes fed; the result does not depend on the feeding order (two
  sequences holding the same codes give the same result); and \<^verbatim>\<open>ok()\<close> holds exactly
  when \<^verbatim>\<open>get()\<close> is 0.
\<close>

theorem ExitCode_get_least_nonzero:
  "ExitCode_get (ExitCode_feed_all cs ExitCode_new) =
     (if \<forall>c \<in> set cs. c = 0 then 0 else Min (set cs - {0}))
   \<and> (set cs = set cs' \<longrightarrow>
        ExitCode_get (ExitCode_feed_all cs ExitCode_new) =
        ExitCode_get (ExitCode_feed_all cs' ExitCode_new))
   \<and> (ExitCode_ok (ExitCode_feed_all cs ExitCode_new) \<longleftrightarrow>
        ExitCode_get (ExitCode_feed_all cs ExitCode_new) = 0)"
proof -
  have empty_iff: "(set xs - {0} = {}) = (\<forall>c \<in> set xs. c = 0)" for xs :: "int list"
    by auto
  have main: "ExitCode_get (ExitCode_feed_all xs ExitCode_new) =
      (if \<forall>c \<in> set xs. c = 0 then 0 else Min (set xs - {0}))" for xs
    unfolding ExitCode_get_def ExitCode_feed_all_code empty_iff
    by (simp add: ExitCode_new_def)
  have perm: "set cs = set cs' \<longrightarrow>
        ExitCode_get (ExitCode_feed_all cs ExitCode_new) =
        ExitCode_get (ExitCode_feed_all cs' ExitCode_new)"
    unfolding main by simp
  show ?thesis
    using main [of cs] perm by (simp add: ExitCode_ok_def ExitCode_get_def)
qed

theorem ExitCode_get_least_nonzero_witness:
  "ExitCode_get (ExitCode_feed_all [12, 0, 5, 10] ExitCode_new) = 5
   \<and> ExitCode_get (ExitCode_feed_all [10, 5, 0, 12] ExitCode_new) = 5
   \<and> \<not> ExitCode_ok (ExitCode_feed_all [12, 0, 5, 10] ExitCode_new)
   \<and> ExitCode_get (ExitCode_feed_all [0, 0] ExitCode_new) = 0"
proof -
  have S: "set [12, 0, 5, 10] - {0} = {12, 5, 10 :: int}" by auto
  have a: "ExitCode_get (ExitCode_feed_all [12, 0, 5, 10] ExitCode_new) = 5"
    using ExitCode_get_least_nonzero [of "[12, 0, 5, 10]" "[10, 5, 0, 12]"]
    unfolding S by simp
  have b: "ExitCode_get (ExitCode_feed_all [10, 5, 0, 12] ExitCode_new) = 5"
    by (simp add: ExitCode_feed_all_def ExitCode_feed_def ExitCode_new_def ExitCode_get_def)
  have c: "ExitCode_get (ExitCode_feed_all [0, 0] ExitCode_new) = 0"
    by (simp add: ExitCode_feed_all_def ExitCode_feed_def ExitCode_new_def ExitCode_get_def)
  show ?thesis
    using a b c by (simp add: ExitCode_ok_def ExitCode_get_def)
qed

section \<open>Properties of the control session\<close>

text \<open>
  C4. For every session in an \<open>Authenticated level\<close> state, whatever the level,
  \<^verbatim>\<open>logout()\<close> succeeds and leaves the session in the \<open>Connected\<close> state; it sends
  one logout command and does not touch the acquisition state.
\<close>

theorem logout_returns_to_Connected:
  "sessionState s = Authenticated level \<Longrightarrow>
   fst (logout s) \<and> sessionState (snd (logout s)) = Connected
   \<and> wire (snd (logout s)) = wire s @ [CallLogout]
   \<and> acquisition (snd (logout s)) = acquisition s"
  by (simp add: logout_def)

theorem logout_returns_to_Connected_witness:
  "sessionState \<lparr>sessionState = Authenticated SERVICE, acquisition = STOPPED, wire = []\<rparr>
     = Authenticated SERVICE
   \<and> sessionState (snd (logout
        \<lparr>sessionState = Authenticated SERVICE, acquisition = STOPPED, wire = []\<rparr>)) = Connected
   \<and> sessionState (snd (logout
        \<lparr>sessionState = Authenticated AUTHORIZED_CLIENT, acquisition = RUNNING, wire = []\<rparr>))
       = Connected"
  using logout_returns_to_Connected
      [of "\<lparr>sessionState = Authenticated SERVICE, acquisition = STOPPED, wire = []\<rparr>" SERVICE]
    logout_returns_to_Connected
      [of "\<lparr>sessionState = Authenticated AUTHORIZED_CLIENT, acquisition = RUNNING, wire = []\<rparr>"
          AUTHORIZED_CLIENT]
  by simp

text \<open>
  C5. \<^verbatim>\<open>stopAcquisition()\<close> is idempotent: on a session with a connection it
  succeeds in every acquisition state, also when the device is already stopped, and
  leaves the device stopped; a second call in a row succeeds as well and leaves the
  acquisition state and the session state as the first call left them.
\<close>

theorem stopAcquisition_idempotent:
  "sessionState s \<noteq> Disconnected \<Longrightarrow>
   fst (stopAcquisition s)
   \<and> acquisition (snd (stopAcquisition s)) = STOPPED
   \<and> fst (stopAcquisition (snd (stopAcquisition s)))
   \<and> acquisition (snd (stopAcquisition (snd (stopAcquisition s))))
       = acquisition (snd (stopAcquisition s))
   \<and> sessionState (snd (stopAcquisition (snd (stopAcquisition s))))
       = sessionState (snd (stopAcquisition s))
   \<and> sessionState (snd (stopAcquisition s)) = sessionState s"
  by (simp add: stopAcquisition_def)

theorem stopAcquisition_idempotent_witness:
  "fst (stopAcquisition \<lparr>sessionState = Connected, acquisition = STOPPED, wire = []\<rparr>)
   \<and> acquisition (snd (stopAcquisition
        \<lparr>sessionState = Connected, acquisition = STOPPED, wire = []\<rparr>)) = STOPPED
   \<and> acquisition (snd (stopAcquisition (snd (stopAcquisition
        \<lparr>sessionState = Authenticated SERVICE, acquisition = RUNNING, wire = []\<rparr>)))) = STOPPED"
  using stopAcquisition_idempotent
      [of "\<lparr>sessionState = Connected, acquisition = STOPPED, wire = []\<rparr>"]
    stopAcquisition_idempotent
      [of "\<lparr>sessionState = Authenticated SERVICE, acquisition = RUNNING, wire = []\<rparr>"]
  by simp

section \<open>Properties of the streaming demos\<close>

subsection \<open>Sequencing and the calls of the control session\<close>

lemma bnd_Inr: "m s = (Inr x, s') \<Longrightarrow> bnd m f s = f x s'"
  by (simp add: bnd_def)

lemma bnd_Inl: "m s = (Inl e, s') \<Longrightarrow> bnd m f s = (Inl e, s')"
  by (simp add: bnd_def)

lemma bnd_act: "bnd (act g) f w = f () (g w)"
  by (simp add: bnd_def act_def)

lemma bnd_ret: "bnd (ret x) f s = f x s"
  by (simp add: bnd_def ret_def)

lemma sendCommand_answered:
  "sessionState s \<noteq> Disconnected \<Longrightarrow> respond dev (wire s @ [CallSend cmd]) = Some response \<Longrightarrow>
   sendCommand dev cmd s = (Inr response, s\<lparr>wire := wire s @ [CallSend cmd]\<rparr>)"
  by (simp add: sendCommand_def)

lemma send_answered:
  "sessionState (visionaryControl w) \<noteq> Disconnected \<Longrightarrow>
   respond dev (wire (visionaryControl w) @ [CallSend cmd]) = Some response \<Longrightarrow>
   send dev cmd w =
     (Inr response,
      w\<lparr>visionaryControl := (visionaryControl w)\<lparr>wire := wire (visionaryControl w) @ [CallSend cmd]\<rparr>\<rparr>)"
  by (simp add: send_def sendCommand_answered)

lemma send_wire:
  "sessionState (visionaryControl w) \<noteq> Disconnected \<Longrightarrow>
   wire (visionaryControl (snd (send dev cmd w))) = wire (visionaryControl w) @ [CallSend cmd]
   \<and> sessionState (visionaryControl (snd (send dev cmd w))) = sessionState (visionaryControl w)"
  by (simp add: send_def sendCommand_def split: option.splits)

subsection \<open>Device errors are data\<close>

text \<open>
  The two shapes of block in which the samples look at \<^verbatim>\<open>getError()\<close>: a write, with
  a message before the command and one for each outcome, and a read, whose answer is
  decoded when the device reports \<open>OK\<close>.
\<close>

lemma write_block:
  assumes "sessionState (visionaryControl w) \<noteq> Disconnected"
    and "respond dev (wire (visionaryControl w) @ [CallSend cmd]) = Some response"
  shows "bnd (act (say m1)) (\<lambda>_. bnd (send dev cmd) (\<lambda>r.
           if getError r \<noteq> OK then bnd (act (exitcode_call 5)) (\<lambda>_. act (say m2))
           else act (say m3))) w
         = (Inr (), w\<lparr>visionaryControl :=
                        (visionaryControl w)\<lparr>wire := wire (visionaryControl w) @ [CallSend cmd]\<rparr>,
                      exitcode := (if getError response \<noteq> OK then ExitCode_feed 5 (exitcode w)
                                   else exitcode w),
                      console := console w @ [m1, if getError response \<noteq> OK then m2 else m3]\<rparr>)"
proof -
  have "send dev cmd (say m1 w) =
      (Inr response,
       (say m1 w)\<lparr>visionaryControl :=
          (visionaryControl w)\<lparr>wire := wire (visionaryControl w) @ [CallSend cmd]\<rparr>\<rparr>)"
    using assms send_answered [of "say m1 w" dev cmd response] by (simp add: say_def)
  then show ?thesis
    by (simp add: bnd_act bnd_Inr act_def say_def exitcode_call_def)
qed

lemma read_block:
  assumes "sessionState (visionaryControl w) \<noteq> Disconnected"
    and "respond dev (wire (visionaryControl w) @ [CallSend cmd]) = Some response"
  shows "bnd (send dev cmd) (\<lambda>r.
           if getError r \<noteq> OK then bnd (act (exitcode_call 5)) (\<lambda>_. act (say m2))
           else bnd (decode rd r) (\<lambda>v. act (say (m3 v)))) w
         = (if getError response \<noteq> OK
            then (Inr (), w\<lparr>visionaryControl :=
                   (visionaryControl w)\<lparr>wire := wire (visionaryControl w) @ [CallSend cmd]\<rparr>,
                   exitcode := ExitCode_feed 5 (exitcode w),
                   console := console w @ [m2]\<rparr>)
            else (case fst (rd (CoLaParameterReader_new response)) of
                    Inl e \<Rightarrow> (Inl e, w\<lparr>visionaryControl :=
                      (visionaryControl w)\<lparr>wire := wire (visionaryControl w) @ [CallSend cmd]\<rparr>\<rparr>)
                  | Inr v \<Rightarrow> (Inr (), w\<lparr>visionaryControl :=
                      (visionaryControl w)\<lparr>wire := wire (visionaryControl w) @ [CallSend cmd]\<rparr>,
                      console := console w @ [m3 v]\<rparr>)))"
  using send_answered [OF assms]
  by (simp add: bnd_act bnd_Inr bnd_def act_def say_def exitcode_call_def decode_def
           split: sum.splits)

lemma read_block_wire:
  assumes "sessionState (visionaryControl w) \<noteq> Disconnected"
  shows "wire (visionaryControl (snd (bnd (send dev cmd) (\<lambda>r.
           if getError r \<noteq> OK then bnd (act (exitcode_call 5)) (\<lambda>_. act (say m2))
           else bnd (decode rd r) (\<lambda>v. act (say (m3 v)))) w)))
         = wire (visionaryControl w) @ [CallSend cmd]"
  using send_wire [OF assms, of dev cmd]
  by (auto simp: bnd_def act_def say_def exitcode_call_def decode_def
           split: prod.splits sum.splits)

text \<open>
  C6. What the device reports comes back from \<^verbatim>\<open>sendCommand\<close> as the response, its
  error field as the device set it, and the caller branches on \<^verbatim>\<open>getError()\<close>. For
  the four blocks of the two samples cited (write and read of \<^verbatim>\<open>framePeriodTime\<close>,
  write of \<^verbatim>\<open>enDepthMask\<close>, read of \<^verbatim>\<open>humidity\<close>), on a session with a connection
  and for every response the device gives to the command of the block: the block sends
  its command, exactly that one call; when the error code of the response is not
  \<open>OK\<close>, it feeds 5 into the exit code, prints the failure message and ends normally;
  when it is \<open>OK\<close>, the exit code is left as it was and a write prints the success
  message, while a read decodes the payload and prints the value (and fails only when
  the decoding does, with nothing printed). The statement after the block runs: after
  the write of \<^verbatim>\<open>framePeriodTime\<close>, whatever its response, the read command is sent
  next.
\<close>

theorem device_error_returned_as_data:
  "sessionState (visionaryControl w) \<noteq> Disconnected \<and>
   respond dev (wire (visionaryControl w) @ [CallSend cmd]) = Some response \<longrightarrow>
     (cmd = setFramePeriodCommand \<longrightarrow>
        setFramePeriod dev w
          = (Inr (),
             w\<lparr>visionaryControl :=
                 (visionaryControl w)\<lparr>wire := wire (visionaryControl w)
                                               @ [CallSend setFramePeriodCommand]\<rparr>,
               exitcode := (if getError response \<noteq> OK then ExitCode_feed 5 (exitcode w)
                            else exitcode w),
               console := console w
                 @ [SettingFramePeriodTime,
                    if getError response \<noteq> OK then FailedWriteFramePeriodTime
                    else SuccessfullySetFramePeriodTime]\<rparr>)
        \<and> wire (visionaryControl (snd (bnd (setFramePeriod dev) (\<lambda>_. readFramePeriod dev) w)))
            = wire (visionaryControl w)
                @ [CallSend setFramePeriodCommand, CallSend getFramePeriodCommand])
     \<and> (cmd = getFramePeriodCommand \<longrightarrow>
        readFramePeriod dev w
          = (if getError response \<noteq> OK
             then (Inr (),
                   w\<lparr>visionaryControl :=
                       (visionaryControl w)\<lparr>wire := wire (visionaryControl w)
                                                     @ [CallSend getFramePeriodCommand]\<rparr>,
                     exitcode := ExitCode_feed 5 (exitcode w),
                     console := console w @ [FailedReadFramePeriodTime]\<rparr>)
             else (case fst (readUDInt (CoLaParameterReader_new response)) of
                     Inl e \<Rightarrow>
                       (Inl e,
                        w\<lparr>visionaryControl :=
                            (visionaryControl w)\<lparr>wire := wire (visionaryControl w)
                                                          @ [CallSend getFramePeriodCommand]\<rparr>\<rparr>)
                   | Inr framePeriodTime \<Rightarrow>
                       (Inr (),
                        w\<lparr>visionaryControl :=
                            (visionaryControl w)\<lparr>wire := wire (visionaryControl w)
                                                          @ [CallSend getFramePeriodCommand]\<rparr>,
                          console := console w @ [ReadFramePeriodTime framePeriodTime]\<rparr>))))
     \<and> (cmd = setEnDepthMaskCommand False \<longrightarrow>
        setEnDepthMask dev w
          = (Inr (),
             w\<lparr>visionaryControl :=
                 (visionaryControl w)\<lparr>wire := wire (visionaryControl w)
                                               @ [CallSend (setEnDepthMaskCommand False)]\<rparr>,
               exitcode := (if getError response \<noteq> OK then ExitCode_feed 5 (exitcode w)
                            else exitcode w),
               console := console w
                 @ [SettingEnDepthMask,
                    if getError response \<noteq> OK then FailedWriteEnDepthMask
                    else SuccessfullySetEnDepthMask]\<rparr>))
     \<and> (cmd = getHumidity \<longrightarrow>
        readHumidity dev w
          = (if getError response \<noteq> OK
             then (Inr (),
                   w\<lparr>visionaryControl :=
                       (visionaryControl w)\<lparr>wire := wire (visionaryControl w)
                                                     @ [CallSend getHumidity]\<rparr>,
                     exitcode := ExitCode_feed 5 (exitcode w),
                     console := console w @ [FailedReadHumidity]\<rparr>)
             else (case fst (readLReal (CoLaParameterReader_new response)) of
                     Inl e \<Rightarrow>
                       (Inl e,
                        w\<lparr>visionaryControl :=
                            (visionaryControl w)\<lparr>wire := wire (visionaryControl w)
                                                          @ [CallSend getHumidity]\<rparr>\<rparr>)
                   | Inr humidity \<Rightarrow>
                       (Inr (),
                        w\<lparr>visionaryControl :=
                            (visionaryControl w)\<lparr>wire := wire (visionaryControl w)
                                                          @ [CallSend getHumidity]\<rparr>,
                          console := console w @ [ReadHumidity humidity]\<rparr>))))"
proof (intro impI, elim conjE)
  assume conn: "sessionState (visionaryControl w) \<noteq> Disconnected"
    and resp: "respond dev (wire (visionaryControl w) @ [CallSend cmd]) = Some response"
  have w1: "setFramePeriod dev w
      = (Inr (),
         w\<lparr>visionaryControl :=
             (visionaryControl w)\<lparr>wire := wire (visionaryControl w) @ [CallSend cmd]\<rparr>,
           exitcode := (if getError response \<noteq> OK then ExitCode_feed 5 (exitcode w)
                        else exitcode w),
           console := console w
             @ [SettingFramePeriodTime,
                if getError response \<noteq> OK then FailedWriteFramePeriodTime
                else SuccessfullySetFramePeriodTime]\<rparr>)"
    if "cmd = setFramePeriodCommand"
    unfolding setFramePeriod_def using write_block [OF conn resp] that by simp
  have w2: "wire (visionaryControl (snd (bnd (setFramePeriod dev) (\<lambda>_. readFramePeriod dev) w)))
      = wire (visionaryControl w) @ [CallSend setFramePeriodCommand, CallSend getFramePeriodCommand]"
    if c: "cmd = setFramePeriodCommand"
  proof -
    let ?w1 = "w\<lparr>visionaryControl :=
             (visionaryControl w)\<lparr>wire := wire (visionaryControl w) @ [CallSend cmd]\<rparr>,
           exitcode := (if getError response \<noteq> OK then ExitCode_feed 5 (exitcode w)
                        else exitcode w),
           console := console w
             @ [SettingFramePeriodTime,
                if getError response \<noteq> OK then FailedWriteFramePeriodTime
                else SuccessfullySetFramePeriodTime]\<rparr>"
    have conn1: "sessionState (visionaryControl ?w1) \<noteq> Disconnected"
      using conn by simp
    have "wire (visionaryControl (snd (readFramePeriod dev ?w1)))
        = wire (visionaryControl ?w1) @ [CallSend getFramePeriodCommand]"
      unfolding readFramePeriod_def by (rule read_block_wire [OF conn1])
    then show ?thesis
      using w1 [OF c] c by (simp add: bnd_Inr)
  qed
  have r1: "readFramePeriod dev w
      = (if getError response \<noteq> OK
         then (Inr (),
               w\<lparr>visionaryControl :=
                   (visionaryControl w)\<lparr>wire := wire (visionaryControl w) @ [CallSend cmd]\<rparr>,
                 exitcode := ExitCode_feed 5 (exitcode w),
                 console := console w @ [FailedReadFramePeriodTime]\<rparr>)
         else (case fst (readUDInt (CoLaParameterReader_new response)) of
                 Inl e \<Rightarrow>
                   (Inl e,
                    w\<lparr>visionaryControl :=
                        (visionaryControl w)\<lparr>wire := wire (visionaryControl w) @ [CallSend cmd]\<rparr>\<rparr>)
               | Inr framePeriodTime \<Rightarrow>
                   (Inr (),
                    w\<lparr>visionaryControl :=
                        (visionaryControl w)\<lparr>wire := wire (visionaryControl w) @ [CallSend cmd]\<rparr>,
                      console := console w @ [ReadFramePeriodTime framePeriodTime]\<rparr>)))"
    if "cmd = getFramePeriodCommand"
    unfolding readFramePeriod_def that [symmetric] by (rule read_block [OF conn resp])
  have t1: "setEnDepthMask dev w
      = (Inr (),
         w\<lparr>visionaryControl :=
             (visionaryControl w)\<lparr>wire := wire (visionaryControl w) @ [CallSend cmd]\<rparr>,
           exitcode := (if getError response \<noteq> OK then ExitCode_feed 5 (exitcode w)
                        else exitcode w),
           console := console w
             @ [SettingEnDepthMask,
                if getError response \<noteq> OK then FailedWriteEnDepthMask
                else SuccessfullySetEnDepthMask]\<rparr>)"
    if "cmd = setEnDepthMaskCommand False"
    unfolding setEnDepthMask_def using write_block [OF conn resp] that by simp
  have t2: "readHumidity dev w
      = (if getError response \<noteq> OK
         then (Inr (),
               w\<lparr>visionaryControl :=
                   (visionaryControl w)\<lparr>wire := wire (visionaryControl w) @ [CallSend cmd]\<rparr>,
                 exitcode := ExitCode_feed 5 (exitcode w),
                 console := console w @ [FailedReadHumidity]\<rparr>)
         else (case fst (readLReal (CoLaParameterReader_new response)) of
                 Inl e \<Rightarrow>
                   (Inl e,
                    w\<lparr>visionaryControl :=
                        (visionaryControl w)\<lparr>wire := wire (visionaryControl w) @ [CallSend cmd]\<rparr>\<rparr>)
               | Inr humidity \<Rightarrow>
                   (Inr (),
                    w\<lparr>visionaryControl :=
                        (visionaryControl w)\<lparr>wire := wire (visionaryControl w) @ [CallSend cmd]\<rparr>,
                      console := console w @ [ReadHumidity humidity]\<rparr>)))"
    if "cmd = getHumidity"
    unfolding readHumidity_def that [symmetric] by (rule read_block [OF conn resp])
  show "(cmd = setFramePeriodCommand \<longrightarrow>
        setFramePeriod dev w
          = (Inr (),
             w\<lparr>visionaryControl :=
                 (visionaryControl w)\<lparr>wire := wire (visionaryControl w)
                                               @ [CallSend setFramePeriodCommand]\<rparr>,
               exitcode := (if getError response \<noteq> OK then ExitCode_feed 5 (exitcode w)
                            else exitcode w),
               console := console w
                 @ [SettingFramePeriodTime,
                    if getError response \<noteq> OK then FailedWriteFramePeriodTime
                    else SuccessfullySetFramePeriodTime]\<rparr>)
        \<and> wire (visionaryControl (snd (bnd (setFramePeriod dev) (\<lambda>_. readFramePeriod dev) w)))
            = wire (visionaryControl w)
                @ [CallSend setFramePeriodCommand, CallSend getFramePeriodCommand])
     \<and> (cmd = getFramePeriodCommand \<longrightarrow>
        readFramePeriod dev w
          = (if getError response \<noteq> OK
             then (Inr (),
                   w\<lparr>visionaryControl :=
                       (visionaryControl w)\<lparr>wire := wire (visionaryControl w)
                                                     @ [CallSend getFramePeriodCommand]\<rparr>,
                     exitcode := ExitCode_feed 5 (exitcode w),
                     console := console w @ [FailedReadFramePeriodTime]\<rparr>)
             else (case fst (readUDInt (CoLaParameterReader_new response)) of
                     Inl e \<Rightarrow>
                       (Inl e,
                        w\<lparr>visionaryControl :=
                            (visionaryControl w)\<lparr>wire := wire (visionaryControl w)
                                                          @ [CallSend getFramePeriodCommand]\<rparr>\<rparr>)
                   | Inr framePeriodTime \<Rightarrow>
                       (Inr (),
                        w\<lparr>visionaryControl :=
                            (visionaryControl w)\<lparr>wire := wire (visionaryControl w)
                                                          @ [CallSend getFramePeriodCommand]\<rparr>,
                          console := console w @ [ReadFramePeriodTime framePeriodTime]\<rparr>))))
     \<and> (cmd = setEnDepthMaskCommand False \<longrightarrow>
        setEnDepthMask dev w
          = (Inr (),
             w\<lparr>visionaryControl :=
                 (visionaryControl w)\<lparr>wire := wire (visionaryControl w)
                                               @ [CallSend (setEnDepthMaskCommand False)]\<rparr>,
               exitcode := (if getError response \<noteq> OK then ExitCode_feed 5 (exitcode w)
                            else exitcode w),
               console := console w
                 @ [SettingEnDepthMask,
                    if getError response \<noteq> OK then FailedWriteEnDepthMask
                    else SuccessfullySetEnDepthMask]\<rparr>))
     \<and> (cmd = getHumidity \<longrightarrow>
        readHumidity dev w
          = (if getError response \<noteq> OK
             then (Inr (),
                   w\<lparr>visionaryControl :=
                       (visionaryControl w)\<lparr>wire := wire (visionaryControl w)
                                                     @ [CallSend getHumidity]\<rparr>,
                     exitcode := ExitCode_feed 5 (exitcode w),
                     console := console w @ [FailedReadHumidity]\<rparr>)
             else (case fst (readLReal (CoLaParameterReader_new response)) of
                     Inl e \<Rightarrow>
                       (Inl e,
                        w\<lparr>visionaryControl :=
                            (visionaryControl w)\<lparr>wire := wire (visionaryControl w)
                                                          @ [CallSend getHumidity]\<rparr>\<rparr>)
                   | Inr humidity \<Rightarrow>
                       (Inr (),
                        w\<lparr>visionaryControl :=
                            (visionaryControl w)\<lparr>wire := wire (visionaryControl w)
                                                          @ [CallSend getHumidity]\<rparr>,
                          console := console w @ [ReadHumidity humidity]\<rparr>))))"
  proof (intro conjI impI)
    assume c: "cmd = setFramePeriodCommand"
    from w1 [OF c] show "setFramePeriod dev w
          = (Inr (),
             w\<lparr>visionaryControl :=
                 (visionaryControl w)\<lparr>wire := wire (visionaryControl w)
                                               @ [CallSend setFramePeriodCommand]\<rparr>,
               exitcode := (if getError response \<noteq> OK then ExitCode_feed 5 (exitcode w)
                            else exitcode w),
               console := console w
                 @ [SettingFramePeriodTime,
                    if getError response \<noteq> OK then FailedWriteFramePeriodTime
                    else SuccessfullySetFramePeriodTime]\<rparr>)"
      unfolding c .
    from w2 [OF c] show
      "wire (visionaryControl (snd (bnd (setFramePeriod dev) (\<lambda>_. readFramePeriod dev) w)))
            = wire (visionaryControl w)
                @ [CallSend setFramePeriodCommand, CallSend getFramePeriodCommand]" .
  next
    assume c: "cmd = getFramePeriodCommand"
    from r1 [OF c] show "readFramePeriod dev w
          = (if getError response \<noteq> OK
             then (Inr (),
                   w\<lparr>visionaryControl :=
                       (visionaryControl w)\<lparr>wire := wire (visionaryControl w)
                                                     @ [CallSend getFramePeriodCommand]\<rparr>,
                     exitcode := ExitCode_feed 5 (exitcode w),
                     console := console w @ [FailedReadFramePeriodTime]\<rparr>)
             else (case fst (readUDInt (CoLaParameterReader_new response)) of
                     Inl e \<Rightarrow>
                       (Inl e,
                        w\<lparr>visionaryControl :=
                            (visionaryControl w)\<lparr>wire := wire (visionaryControl w)
                                                          @ [CallSend getFramePeriodCommand]\<rparr>\<rparr>)
                   | Inr framePeriodTime \<Rightarrow>
                       (Inr (),
                        w\<lparr>visionaryControl :=
                            (visionaryControl w)\<lparr>wire := wire (visionaryControl w)
                                                          @ [CallSend getFramePeriodCommand]\<rparr>,
                          console := console w @ [ReadFramePeriodTime framePeriodTime]\<rparr>)))"
      unfolding c .
  next
    assume c: "cmd = setEnDepthMaskCommand False"
    from t1 [OF c] show "setEnDepthMask dev w
          = (Inr (),
             w\<lparr>visionaryControl :=
                 (visionaryControl w)\<lparr>wire := wire (visionaryControl w)
                                               @ [CallSend (setEnDepthMaskCommand False)]\<rparr>,
               exitcode := (if getError response \<noteq> OK then ExitCode_feed 5 (exitcode w)
                            else exitcode w),
               console := console w
                 @ [SettingEnDepthMask,
                    if getError response \<noteq> OK then FailedWriteEnDepthMask
                    else SuccessfullySetEnDepthMask]\<rparr>)"
      unfolding c .
  next
    assume c: "cmd = getHumidity"
    from t2 [OF c] show "readHumidity dev w
          = (if getError response \<noteq> OK
             then (Inr (),
                   w\<lparr>visionaryControl :=
                       (visionaryControl w)\<lparr>wire := wire (visionaryControl w)
                                                     @ [CallSend getHumidity]\<rparr>,
                     exitcode := ExitCode_feed 5 (exitcode w),
                     console := console w @ [FailedReadHumidity]\<rparr>)
             else (case fst (readLReal (CoLaParameterReader_new response)) of
                     Inl e \<Rightarrow>
                       (Inl e,
                        w\<lparr>visionaryControl :=
                            (visionaryControl w)\<lparr>wire := wire (visionaryControl w)
                                                          @ [CallSend getHumidity]\<rparr>\<rparr>)
                   | Inr humidity \<Rightarrow>
                       (Inr (),
                        w\<lparr>visionaryControl :=
                            (visionaryControl w)\<lparr>wire := wire (visionaryControl w)
                                                          @ [CallSend getHumidity]\<rparr>,
                          console := console w @ [ReadHumidity humidity]\<rparr>)))"
      unfolding c .
  qed
qed

theorem device_error_returned_as_data_witness:
  "fst (setFramePeriod refusingDevice loggedInWorld) = Inr ()
   \<and> ExitCode_get (exitcode (snd (setFramePeriod refusingDevice loggedInWorld))) = 5
   \<and> console (snd (setFramePeriod refusingDevice loggedInWorld))
       = [SettingFramePeriodTime, FailedWriteFramePeriodTime]
   \<and> wire (visionaryControl (snd (setFramePeriod refusingDevice loggedInWorld)))
       = [CallSend setFramePeriodCommand]
   \<and> wire (visionaryControl (snd (bnd (setFramePeriod refusingDevice)
                                      (\<lambda>_. readFramePeriod refusingDevice) loggedInWorld)))
       = [CallSend setFramePeriodCommand, CallSend getFramePeriodCommand]
   \<and> fst (setFramePeriod obligingDevice loggedInWorld) = Inr ()
   \<and> ExitCode_get (exitcode (snd (setFramePeriod obligingDevice loggedInWorld))) = 0
   \<and> console (snd (setFramePeriod obligingDevice loggedInWorld))
       = [SettingFramePeriodTime, SuccessfullySetFramePeriodTime]
   \<and> readFramePeriod refusingDevice loggedInWorld
       = (Inr (), loggedInWorld\<lparr>visionaryControl :=
                    (visionaryControl loggedInWorld)\<lparr>wire := [CallSend getFramePeriodCommand]\<rparr>,
                    exitcode := \<lparr>m_code = 5\<rparr>, console := [FailedReadFramePeriodTime]\<rparr>)
   \<and> readFramePeriod obligingDevice loggedInWorld
       = (Inr (), loggedInWorld\<lparr>visionaryControl :=
                    (visionaryControl loggedInWorld)\<lparr>wire := [CallSend getFramePeriodCommand]\<rparr>,
                    console := [ReadFramePeriodTime 0]\<rparr>)
   \<and> setEnDepthMask refusingDevice loggedInWorld
       = (Inr (), loggedInWorld\<lparr>visionaryControl :=
                    (visionaryControl loggedInWorld)\<lparr>wire := [CallSend (setEnDepthMaskCommand False)]\<rparr>,
                    exitcode := \<lparr>m_code = 5\<rparr>,
                    console := [SettingEnDepthMask, FailedWriteEnDepthMask]\<rparr>)
   \<and> setEnDepthMask obligingDevice loggedInWorld
       = (Inr (), loggedInWorld\<lparr>visionaryControl :=
                    (visionaryControl loggedInWorld)\<lparr>wire := [CallSend (setEnDepthMaskCommand False)]\<rparr>,
                    console := [SettingEnDepthMask, SuccessfullySetEnDepthMask]\<rparr>)
   \<and> readHumidity refusingDevice loggedInWorld
       = (Inr (), loggedInWorld\<lparr>visionaryControl :=
                    (visionaryControl loggedInWorld)\<lparr>wire := [CallSend getHumidity]\<rparr>,
                    exitcode := \<lparr>m_code = 5\<rparr>, console := [FailedReadHumidity]\<rparr>)
   \<and> readHumidity obligingDevice loggedInWorld
       = (Inr (), loggedInWorld\<lparr>visionaryControl :=
                    (visionaryControl loggedInWorld)\<lparr>wire := [CallSend getHumidity]\<rparr>,
                    console := [ReadHumidity 0]\<rparr>)"
proof -
  let ?bad = "\<lparr>cmdType = ERROR_RESPONSE, cmdName = [], cmdPayload = [], getError = DeviceError 3\<rparr>"
  let ?good = "\<lparr>cmdType = READ_VARIABLE_RESPONSE, cmdName = [],
                cmdPayload = [0, 0, 0, 0, 0, 0, 0, 0], getError = OK\<rparr>"
  have conn: "sessionState (visionaryControl loggedInWorld) \<noteq> Disconnected"
    by (simp add: loggedInWorld_def)
  have bad: "respond refusingDevice (wire (visionaryControl loggedInWorld) @ [CallSend c])
               = Some ?bad"
    and good: "respond obligingDevice (wire (visionaryControl loggedInWorld) @ [CallSend c])
               = Some ?good" for c
    by (simp_all add: refusingDevice_def obligingDevice_def)
  have e0: "exitcode loggedInWorld = ExitCode_new" "console loggedInWorld = []"
    "wire (visionaryControl loggedInWorld) = []"
    by (simp_all add: loggedInWorld_def World_new_def)
  have five: "ExitCode_feed 5 ExitCode_new = \<lparr>m_code = 5\<rparr>"
    "ExitCode_get \<lparr>m_code = 5\<rparr> = 5" "ExitCode_get ExitCode_new = 0"
    by (simp_all add: ExitCode_get_def ExitCode_feed_def ExitCode_new_def)
  have dec: "fst (readUDInt (CoLaParameterReader_new ?good)) = Inr 0"
    "fst (readLReal (CoLaParameterReader_new ?good)) = Inr 0"
    by (simp_all add: readUDInt_def readLReal_def bnd_def issue_def fetch_def ret_def
          CoLaParameterReader_new_def from_be_def)
  have same: "loggedInWorld\<lparr>exitcode := ExitCode_new\<rparr> = loggedInWorld"
    by (simp add: loggedInWorld_def World_new_def)
  from device_error_returned_as_data [of loggedInWorld refusingDevice setFramePeriodCommand ?bad]
       device_error_returned_as_data [of loggedInWorld obligingDevice setFramePeriodCommand ?good]
       device_error_returned_as_data [of loggedInWorld refusingDevice getFramePeriodCommand ?bad]
       device_error_returned_as_data [of loggedInWorld obligingDevice getFramePeriodCommand ?good]
       device_error_returned_as_data [of loggedInWorld refusingDevice "setEnDepthMaskCommand False" ?bad]
       device_error_returned_as_data [of loggedInWorld obligingDevice "setEnDepthMaskCommand False" ?good]
       device_error_returned_as_data [of loggedInWorld refusingDevice getHumidity ?bad]
       device_error_returned_as_data [of loggedInWorld obligingDevice getHumidity ?good]
       conn bad good
  show ?thesis
    by (simp add: e0 five dec)
qed

subsection \<open>Decoding what the codec encoded\<close>

lemma split256: "256 * (m div 256) + m mod 256 = (m :: nat)"
  by simp

lemma from_be_be16: "from_be (be16 v) = unat v"
proof -
  let ?n = "unat v"
  have "?n < 65536" using unsigned_less [of v, where ?'a = nat] by simp
  then have "?n div 256 < 256" by simp
  then have a: "?n div 256 mod 256 = ?n div 256" by simp
  have "from_be (be16 v) = 256 * (?n div 256 mod 256) + ?n mod 256"
    by (simp add: from_be_def be16_def unsigned_ucast_eq unat_drop_bit_eq drop_bit_eq_div
          take_bit_eq_mod unat_div)
  also have "\<dots> = ?n" unfolding a by (rule split256)
  finally show ?thesis .
qed

lemma from_be_be32: "from_be (be32 v) = unat v"
proof -
  let ?n = "unat v"
  have "?n < 4294967296" using unsigned_less [of v, where ?'a = nat] by simp
  then have "?n div 16777216 < 256" by simp
  then have a: "?n div 16777216 mod 256 = ?n div 16777216" by simp
  have d1: "?n div 16777216 = ?n div 65536 div 256" by (simp add: div_mult2_eq [symmetric])
  have d2: "?n div 65536 = ?n div 256 div 256" by (simp add: div_mult2_eq [symmetric])
  have "from_be (be32 v)
      = 256 * (256 * (256 * (?n div 16777216 mod 256) + ?n div 65536 mod 256)
                + ?n div 256 mod 256) + ?n mod 256"
    by (simp add: from_be_def be32_def unsigned_ucast_eq unat_drop_bit_eq drop_bit_eq_div
          take_bit_eq_mod unat_div)
  also have "\<dots> = 256 * (256 * (?n div 65536) + ?n div 256 mod 256) + ?n mod 256"
    unfolding a unfolding d1 by (simp only: split256)
  also have "\<dots> = 256 * (?n div 256) + ?n mod 256"
    unfolding d2 by (simp only: split256)
  also have "\<dots> = ?n" by (rule split256)
  finally show ?thesis .
qed

lemma length_be: "length (be16 v) = 2" "length (be32 u) = 4"
  by (simp_all add: be16_def be32_def)

lemma decode_chars:
  "map (\<lambda>b. char_of (unat b)) (map (\<lambda>c. word_of_nat (of_char c) :: byte) s) = s"
  by (induction s) (simp_all add: unat_of_nat)

lemma fetch_here:
  assumes "drop (rdPos r) (rdData r) = bs @ rest" and "rdPos r \<le> length (rdData r)"
  shows "fetch (length bs) r = (Inr bs, r\<lparr>rdPos := rdPos r + length bs\<rparr>)"
proof -
  from assms(1) have "length (drop (rdPos r) (rdData r)) = length bs + length rest" by simp
  with assms(2) have "rdPos r + length bs \<le> length (rdData r)" by simp
  moreover from assms(1) have "take (length bs) (drop (rdPos r) (rdData r)) = bs" by simp
  ultimately show ?thesis by (simp add: fetch_def)
qed

lemma drop_in_range: "drop p xs = b # bs \<Longrightarrow> p \<le> length xs"
  by (metis drop_all list.distinct(1) nat_le_linear)

lemma drop_here:
  assumes "drop p xs = bs @ rest"
  shows "drop (p + length bs) xs = rest"
proof -
  have "drop (p + length bs) xs = drop (length bs) (drop p xs)" by (simp add: add.commute)
  then show ?thesis unfolding assms by simp
qed

lemma readUDInt_here:
  assumes "drop (rdPos r) (rdData r) = be32 v @ rest"
  shows "readUDInt r = (Inr v, r\<lparr>rdPos := rdPos r + 4, rdLog := rdLog r @ [UDInt]\<rparr>)"
    and "drop (rdPos r + 4) (rdData r) = rest"
proof -
  have "drop (rdPos (r\<lparr>rdLog := rdLog r @ [UDInt]\<rparr>)) (rdData (r\<lparr>rdLog := rdLog r @ [UDInt]\<rparr>))
      = be32 v @ rest"
    using assms by simp
  moreover from assms have "rdPos r \<le> length (rdData r)"
    by (auto simp: be32_def dest: drop_in_range)
  ultimately have "fetch (length (be32 v)) (r\<lparr>rdLog := rdLog r @ [UDInt]\<rparr>)
      = (Inr (be32 v), r\<lparr>rdLog := rdLog r @ [UDInt], rdPos := rdPos r + length (be32 v)\<rparr>)"
    using fetch_here [of "r\<lparr>rdLog := rdLog r @ [UDInt]\<rparr>" "be32 v" rest] by simp
  then show "readUDInt r = (Inr v, r\<lparr>rdPos := rdPos r + 4, rdLog := rdLog r @ [UDInt]\<rparr>)"
    by (simp add: readUDInt_def bnd_def issue_def ret_def length_be from_be_be32)
  from drop_here [OF assms] show "drop (rdPos r + 4) (rdData r) = rest"
    by (simp add: length_be)
qed

lemma readUInt_here:
  assumes "drop (rdPos r) (rdData r) = be16 v @ rest"
  shows "readUInt r = (Inr v, r\<lparr>rdPos := rdPos r + 2, rdLog := rdLog r @ [UInt]\<rparr>)"
    and "drop (rdPos r + 2) (rdData r) = rest"
proof -
  have "drop (rdPos (r\<lparr>rdLog := rdLog r @ [UInt]\<rparr>)) (rdData (r\<lparr>rdLog := rdLog r @ [UInt]\<rparr>))
      = be16 v @ rest"
    using assms by simp
  moreover from assms have "rdPos r \<le> length (rdData r)"
    by (auto simp: be16_def dest: drop_in_range)
  ultimately have "fetch (length (be16 v)) (r\<lparr>rdLog := rdLog r @ [UInt]\<rparr>)
      = (Inr (be16 v), r\<lparr>rdLog := rdLog r @ [UInt], rdPos := rdPos r + length (be16 v)\<rparr>)"
    using fetch_here [of "r\<lparr>rdLog := rdLog r @ [UInt]\<rparr>" "be16 v" rest] by simp
  then show "readUInt r = (Inr v, r\<lparr>rdPos := rdPos r + 2, rdLog := rdLog r @ [UInt]\<rparr>)"
    by (simp add: readUInt_def bnd_def issue_def ret_def length_be from_be_be16)
  from drop_here [OF assms] show "drop (rdPos r + 2) (rdData r) = rest"
    by (simp add: length_be)
qed

lemma readFlexString_here:
  assumes here: "drop (rdPos r) (rdData r) = flexStringBytes s @ rest"
    and short: "length s < 65536"
  shows "readFlexString r
      = (Inr s, r\<lparr>rdPos := rdPos r + (2 + length s), rdLog := rdLog r @ [FlexString]\<rparr>)"
    and "drop (rdPos r + (2 + length s)) (rdData r) = rest"
proof -
  let ?len = "be16 (word_of_nat (length s))"
  let ?raw = "map (\<lambda>c. word_of_nat (of_char c) :: byte) s"
  let ?r1 = "r\<lparr>rdLog := rdLog r @ [FlexString]\<rparr>"
  let ?r2 = "?r1\<lparr>rdPos := rdPos ?r1 + length ?len\<rparr>"
  let ?r3 = "?r2\<lparr>rdPos := rdPos ?r2 + length ?raw\<rparr>"
  from here have h1: "drop (rdPos ?r1) (rdData ?r1) = ?len @ (?raw @ rest)"
    by (simp add: flexStringBytes_def)
  then have in1: "rdPos ?r1 \<le> length (rdData ?r1)"
    by (auto simp: be16_def dest: drop_in_range)
  have two: "length ?len = 2" by (simp add: length_be)
  from fetch_here [OF h1 in1] have f1: "fetch 2 ?r1 = (Inr ?len, ?r2)"
    unfolding two .
  from drop_here [OF h1] have h2: "drop (rdPos ?r2) (rdData ?r2) = ?raw @ rest"
    by simp
  from h1 have "length (drop (rdPos ?r1) (rdData ?r1)) = length (?len @ (?raw @ rest))"
    by (simp only:)
  then have in2: "rdPos ?r2 \<le> length (rdData ?r2)"
    by (simp add: length_be)
  have "unat (word_of_nat (length s) :: 16 word) = length s"
    using short by (simp add: unat_of_nat)
  then have n: "from_be ?len = length s"
    by (simp add: from_be_be16)
  from fetch_here [OF h2 in2] have f2: "fetch (length s) ?r2 = (Inr ?raw, ?r3)"
    by simp
  have "readFlexString r
      = bnd (fetch 2) (\<lambda>len. bnd (fetch (from_be len))
          (\<lambda>bs. ret (map (\<lambda>b. char_of (unat b)) bs))) ?r1"
    by (simp add: readFlexString_def bnd_def issue_def)
  also have "\<dots> = bnd (fetch (length s)) (\<lambda>bs. ret (map (\<lambda>b. char_of (unat b)) bs)) ?r2"
    by (simp only: bnd_Inr [where m = "fetch 2" and s = "?r1", OF f1] n)
  also have "\<dots> = ret (map (\<lambda>b. char_of (unat b)) ?raw) ?r3"
    by (simp only: bnd_Inr [where m = "fetch (length s)" and s = "?r2", OF f2])
  also have "\<dots> = (Inr s, r\<lparr>rdPos := rdPos r + (2 + length s), rdLog := rdLog r @ [FlexString]\<rparr>)"
    unfolding decode_chars by (simp add: ret_def length_be)
  finally show "readFlexString r
      = (Inr s, r\<lparr>rdPos := rdPos r + (2 + length s), rdLog := rdLog r @ [FlexString]\<rparr>)" .
  have "length (flexStringBytes s) = 2 + length s"
    by (simp add: flexStringBytes_def length_be)
  with drop_here [OF here] show "drop (rdPos r + (2 + length s)) (rdData r) = rest"
    by simp
qed

lemma length_infoItemPayload: "length (infoItemPayload item) = 34 + length (extInfo item)"
  by (simp add: infoItemPayload_def flexStringBytes_def length_be)

lemma readInfoItem_encoded:
  assumes here: "drop (rdPos r) (rdData r) = infoItemPayload item @ rest"
    and short: "length (extInfo item) < 65536"
  shows "readInfoItem r
      = (Inr item, r\<lparr>rdPos := rdPos r + length (infoItemPayload item),
                       rdLog := rdLog r @ infoSchema\<rparr>)"
    and "drop (rdPos r + length (infoItemPayload item)) (rdData r) = rest"
proof -
  let ?r = "\<lambda>n ts. r\<lparr>rdPos := rdPos r + n, rdLog := rdLog r @ ts\<rparr>"
  note p0 = here [unfolded infoItemPayload_def append_assoc]
  note s1 = readUDInt_here [OF p0]
  have p1: "drop (rdPos (?r 4 [UDInt])) (rdData (?r 4 [UDInt])) = be32 (errorState item) @
      be16 (firstTime_PwrOnCount item) @ be32 (firstTime_OpSecs item)
     @ be32 (firstTime_TimeOccur item)
     @ be16 (lastTime_PwrOnCount item) @ be32 (lastTime_OpSecs item)
     @ be32 (lastTime_TimeOccur item)
     @ be16 (numberOccurrences item) @ be16 (errReserved item)
     @ flexStringBytes (extInfo item) @ rest"
    using s1(2) by simp
  note s2 = readUDInt_here [OF p1]
  have p2: "drop (rdPos (?r 8 [UDInt, UDInt])) (rdData (?r 8 [UDInt, UDInt])) =
      be16 (firstTime_PwrOnCount item) @ be32 (firstTime_OpSecs item)
     @ be32 (firstTime_TimeOccur item)
     @ be16 (lastTime_PwrOnCount item) @ be32 (lastTime_OpSecs item)
     @ be32 (lastTime_TimeOccur item)
     @ be16 (numberOccurrences item) @ be16 (errReserved item)
     @ flexStringBytes (extInfo item) @ rest"
    using s2(2) by (simp add: ac_simps)
  note s3 = readUInt_here [OF p2]
  have p3: "drop (rdPos (?r 10 [UDInt, UDInt, UInt])) (rdData (?r 10 [UDInt, UDInt, UInt])) =
      be32 (firstTime_OpSecs item)
     @ be32 (firstTime_TimeOccur item)
     @ be16 (lastTime_PwrOnCount item) @ be32 (lastTime_OpSecs item)
     @ be32 (lastTime_TimeOccur item)
     @ be16 (numberOccurrences item) @ be16 (errReserved item)
     @ flexStringBytes (extInfo item) @ rest"
    using s3(2) by (simp add: ac_simps)
  note s4 = readUDInt_here [OF p3]
  have p4: "drop (rdPos (?r 14 [UDInt, UDInt, UInt, UDInt]))
                 (rdData (?r 14 [UDInt, UDInt, UInt, UDInt])) =
      be32 (firstTime_TimeOccur item)
     @ be16 (lastTime_PwrOnCount item) @ be32 (lastTime_OpSecs item)
     @ be32 (lastTime_TimeOccur item)
     @ be16 (numberOccurrences item) @ be16 (errReserved item)
     @ flexStringBytes (extInfo item) @ rest"
    using s4(2) by (simp add: ac_simps)
  note s5 = readUDInt_here [OF p4]
  have p5: "drop (rdPos (?r 18 [UDInt, UDInt, UInt, UDInt, UDInt]))
                 (rdData (?r 18 [UDInt, UDInt, UInt, UDInt, UDInt])) =
      be16 (lastTime_PwrOnCount item) @ be32 (lastTime_OpSecs item)
     @ be32 (lastTime_TimeOccur item)
     @ be16 (numberOccurrences item) @ be16 (errReserved item)
     @ flexStringBytes (extInfo item) @ rest"
    using s5(2) by (simp add: ac_simps)
  note s6 = readUInt_here [OF p5]
  have p6: "drop (rdPos (?r 20 [UDInt, UDInt, UInt, UDInt, UDInt, UInt]))
                 (rdData (?r 20 [UDInt, UDInt, UInt, UDInt, UDInt, UInt])) =
      be32 (lastTime_OpSecs item)
     @ be32 (lastTime_TimeOccur item)
     @ be16 (numberOccurrences item) @ be16 (errReserved item)
     @ flexStringBytes (extInfo item) @ rest"
    using s6(2) by (simp add: ac_simps)
  note s7 = readUDInt_here [OF p6]
  have p7: "drop (rdPos (?r 24 [UDInt, UDInt, UInt, UDInt, UDInt, UInt, UDInt]))
                 (rdData (?r 24 [UDInt, UDInt, UInt, UDInt, UDInt, UInt, UDInt])) =
      be32 (lastTime_TimeOccur item)
     @ be16 (numberOccurrences item) @ be16 (errReserved item)
     @ flexStringBytes (extInfo item) @ rest"
    using s7(2) by (simp add: ac_simps)
  note s8 = readUDInt_here [OF p7]
  have p8: "drop (rdPos (?r 28 [UDInt, UDInt, UInt, UDInt, UDInt, UInt, UDInt, UDInt]))
                 (rdData (?r 28 [UDInt, UDInt, UInt, UDInt, UDInt, UInt, UDInt, UDInt])) =
      be16 (numberOccurrences item) @ be16 (errReserved item)
     @ flexStringBytes (extInfo item) @ rest"
    using s8(2) by (simp add: ac_simps)
  note s9 = readUInt_here [OF p8]
  have p9: "drop (rdPos (?r 30 [UDInt, UDInt, UInt, UDInt, UDInt, UInt, UDInt, UDInt, UInt]))
                 (rdData (?r 30 [UDInt, UDInt, UInt, UDInt, UDInt, UInt, UDInt, UDInt, UInt])) =
      be16 (errReserved item) @ flexStringBytes (extInfo item) @ rest"
    using s9(2) by (simp add: ac_simps)
  note s10 = readUInt_here [OF p9]
  have p10: "drop (rdPos (?r 32 [UDInt, UDInt, UInt, UDInt, UDInt, UInt, UDInt, UDInt, UInt, UInt]))
                 (rdData (?r 32 [UDInt, UDInt, UInt, UDInt, UDInt, UInt, UDInt, UDInt, UInt, UInt])) =
      flexStringBytes (extInfo item) @ rest"
    using s10(2) by (simp add: ac_simps)
  note s11 = readFlexString_here [OF p10 short]
  have r1: "readUDInt r = (Inr (errorId item), ?r 4 [UDInt])"
    using s1(1) by simp
  have r2: "readUDInt (?r 4 [UDInt]) = (Inr (errorState item), ?r 8 [UDInt, UDInt])"
    using s2(1) by (simp add: ac_simps)
  have r3: "readUInt (?r 8 [UDInt, UDInt])
      = (Inr (firstTime_PwrOnCount item), ?r 10 [UDInt, UDInt, UInt])"
    using s3(1) by (simp add: ac_simps)
  have r4: "readUDInt (?r 10 [UDInt, UDInt, UInt])
      = (Inr (firstTime_OpSecs item), ?r 14 [UDInt, UDInt, UInt, UDInt])"
    using s4(1) by (simp add: ac_simps)
  have r5: "readUDInt (?r 14 [UDInt, UDInt, UInt, UDInt])
      = (Inr (firstTime_TimeOccur item), ?r 18 [UDInt, UDInt, UInt, UDInt, UDInt])"
    using s5(1) by (simp add: ac_simps)
  have r6: "readUInt (?r 18 [UDInt, UDInt, UInt, UDInt, UDInt])
      = (Inr (lastTime_PwrOnCount item), ?r 20 [UDInt, UDInt, UInt, UDInt, UDInt, UInt])"
    using s6(1) by (simp add: ac_simps)
  have r7: "readUDInt (?r 20 [UDInt, UDInt, UInt, UDInt, UDInt, UInt])
      = (Inr (lastTime_OpSecs item), ?r 24 [UDInt, UDInt, UInt, UDInt, UDInt, UInt, UDInt])"
    using s7(1) by (simp add: ac_simps)
  have r8: "readUDInt (?r 24 [UDInt, UDInt, UInt, UDInt, UDInt, UInt, UDInt])
      = (Inr (lastTime_TimeOccur item),
         ?r 28 [UDInt, UDInt, UInt, UDInt, UDInt, UInt, UDInt, UDInt])"
    using s8(1) by (simp add: ac_simps)
  have r9: "readUInt (?r 28 [UDInt, UDInt, UInt, UDInt, UDInt, UInt, UDInt, UDInt])
      = (Inr (numberOccurrences item),
         ?r 30 [UDInt, UDInt, UInt, UDInt, UDInt, UInt, UDInt, UDInt, UInt])"
    using s9(1) by (simp add: ac_simps)
  have r10: "readUInt (?r 30 [UDInt, UDInt, UInt, UDInt, UDInt, UInt, UDInt, UDInt, UInt])
      = (Inr (errReserved item),
         ?r 32 [UDInt, UDInt, UInt, UDInt, UDInt, UInt, UDInt, UDInt, UInt, UInt])"
    using s10(1) by (simp add: ac_simps)
  have r11: "readFlexString
        (?r 32 [UDInt, UDInt, UInt, UDInt, UDInt, UInt, UDInt, UDInt, UInt, UInt])
      = (Inr (extInfo item), ?r (34 + length (extInfo item)) infoSchema)"
    using s11(1) by (simp add: ac_simps infoSchema_def)
  show "readInfoItem r
      = (Inr item, r\<lparr>rdPos := rdPos r + length (infoItemPayload item),
                       rdLog := rdLog r @ infoSchema\<rparr>)"
    unfolding readInfoItem_def length_infoItemPayload
    by (simp add: bnd_Inr r1 r2 r3 r4 r5 r6 r7 r8 r9 r10 r11 ret_def)
  from drop_here [OF here]
  show "drop (rdPos r + length (infoItemPayload item)) (rdData r) = rest" .
qed

lemma readInfoLoop_encoded:
  assumes "drop (rdPos r) (rdData r) = MSinfoPayload items @ rest"
    and "\<forall>item \<in> set items. length (extInfo item) < 65536"
  shows "readInfoLoop (length items) (r, w)
      = (Inr (), (r\<lparr>rdPos := rdPos r + length (MSinfoPayload items),
                     rdLog := rdLog r @ concat (replicate (length items) infoSchema)\<rparr>,
                  infoMessages items w))"
  using assms
proof (induction items arbitrary: r w)
  case Nil
  show ?case by (simp add: MSinfoPayload_def infoMessages_def)
next
  case (Cons item items)
  let ?r1 = "r\<lparr>rdPos := rdPos r + length (infoItemPayload item), rdLog := rdLog r @ infoSchema\<rparr>"
  let ?w1 = "if errorId item \<noteq> 0
             then say (InfoMessage (errorId item) (extInfo item) (numberOccurrences item)) w
             else w"
  from Cons.prems(1)
  have here: "drop (rdPos r) (rdData r) = infoItemPayload item @ (MSinfoPayload items @ rest)"
    by (simp add: MSinfoPayload_def)
  from Cons.prems(2) have short: "length (extInfo item) < 65536"
    and rest: "\<forall>item \<in> set items. length (extInfo item) < 65536"
    by simp_all
  note one = readInfoItem_encoded [OF here short]
  from one(2) have next_item: "drop (rdPos ?r1) (rdData ?r1) = MSinfoPayload items @ rest"
    by simp
  have "readInfoLoop (length (item # items)) (r, w) = readInfoLoop (length items) (?r1, ?w1)"
    by (simp add: one(1))
  also have "\<dots> = (Inr (), (?r1\<lparr>rdPos := rdPos ?r1 + length (MSinfoPayload items),
                     rdLog := rdLog ?r1 @ concat (replicate (length items) infoSchema)\<rparr>,
                  infoMessages items ?w1))"
    by (rule Cons.IH [OF next_item rest])
  also have "\<dots> = (Inr (), (r\<lparr>rdPos := rdPos r + length (MSinfoPayload (item # items)),
                     rdLog := rdLog r @ concat (replicate (length (item # items)) infoSchema)\<rparr>,
                  infoMessages (item # items) w))"
    by (simp add: MSinfoPayload_def infoMessages_def add.assoc)
  finally show ?case .
qed

subsection \<open>The reads of the info messages\<close>

lemma follows_ret: "follows [] (ret x)"
  by (simp add: follows_def ret_def)

lemma follows_fixed:
  "follows [t] (bnd (issue t) (\<lambda>_. bnd (fetch n) (\<lambda>bs. ret (f bs))))"
  by (simp add: follows_def bnd_def issue_def fetch_def ret_def)

lemma follows_readFlexString: "follows [FlexString] readFlexString"
  by (simp add: follows_def readFlexString_def bnd_def issue_def fetch_def ret_def)

lemma follows_reads:
  "follows [UDInt] readUDInt" "follows [UInt] readUInt"
  unfolding readUDInt_def readUInt_def by (rule follows_fixed)+

lemma follows_Cons:
  assumes m: "follows [t] m" and f: "\<And>x. follows ts (f x)"
  shows "follows (t # ts) (bnd m f)"
  unfolding follows_def
proof (intro allI)
  fix r
  from m have m1: "rdData (snd (m r)) = rdData r" "rdPos r \<le> rdPos (snd (m r))"
    and m2: "case fst (m r) of Inr x \<Rightarrow> rdLog (snd (m r)) = rdLog r @ [t]
             | Inl e \<Rightarrow> e = TruncatedPayload \<and> rdLog (snd (m r)) = rdLog r @ [t]"
    by (auto simp: follows_def split: sum.splits)
  show "rdData (snd (bnd m f r)) = rdData r \<and> rdPos r \<le> rdPos (snd (bnd m f r)) \<and>
        (case fst (bnd m f r) of
           Inr x \<Rightarrow> rdLog (snd (bnd m f r)) = rdLog r @ t # ts
         | Inl e \<Rightarrow> e = TruncatedPayload
                    \<and> (\<exists>k<length (t # ts). rdLog (snd (bnd m f r)) = rdLog r @ take (Suc k) (t # ts)))"
  proof (cases "m r")
    case (Pair res r1)
    show ?thesis
    proof (cases res)
      case (Inl e)
      with Pair m1 m2 have "e = TruncatedPayload" "rdLog r1 = rdLog r @ take (Suc 0) (t # ts)"
        "rdData r1 = rdData r" "rdPos r \<le> rdPos r1" by simp_all
      moreover have "bnd m f r = (Inl e, r1)" using Pair Inl by (simp add: bnd_def)
      moreover have "0 < length (t # ts)" by simp
      ultimately show ?thesis by (simp only: fst_conv snd_conv sum.case) blast
    next
      case (Inr x)
      from f [of x] have f1: "rdData (snd (f x r1)) = rdData r1" "rdPos r1 \<le> rdPos (snd (f x r1))"
        and f2: "case fst (f x r1) of Inr y \<Rightarrow> rdLog (snd (f x r1)) = rdLog r1 @ ts
             | Inl e \<Rightarrow> e = TruncatedPayload
                        \<and> (\<exists>k<length ts. rdLog (snd (f x r1)) = rdLog r1 @ take (Suc k) ts)"
        by (simp_all add: follows_def)
      have b: "bnd m f r = f x r1" using Pair Inr by (simp add: bnd_def)
      from m1 m2 Pair Inr have r1: "rdData r1 = rdData r" "rdPos r \<le> rdPos r1"
        "rdLog r1 = rdLog r @ [t]" by simp_all
      show ?thesis
      proof (cases "fst (f x r1)")
        case (Inl e)
        with f2 obtain k where "e = TruncatedPayload" "k < length ts"
          "rdLog (snd (f x r1)) = rdLog r1 @ take (Suc k) ts" by auto
        then have "Suc k < length (t # ts)"
          "rdLog (snd (f x r1)) = rdLog r @ take (Suc (Suc k)) (t # ts)"
          using r1 by simp_all
        with Inl \<open>e = TruncatedPayload\<close> f1 r1 show ?thesis
          unfolding b by auto
      next
        case (Inr y)
        with f1 f2 r1 show ?thesis unfolding b by simp
      qed
    qed
  qed
qed

lemma follows_readInfoItem: "follows infoSchema readInfoItem"
  unfolding infoSchema_def readInfoItem_def
  by (intro follows_Cons follows_reads follows_readFlexString follows_ret)

lemma length_infoSchema: "length infoSchema = 11"
  by (simp add: infoSchema_def)

lemma length_schedule: "length (concat (replicate n infoSchema)) = n * 11"
  by (induction n) (simp_all add: length_infoSchema)

lemma readInfoLoop_follows:
  "readInfoLoop n (r, w) = (res, (r', w')) \<Longrightarrow>
   rdData r' = rdData r \<and> rdPos r \<le> rdPos r' \<and>
   (case res of
      Inr u \<Rightarrow> rdLog r' = rdLog r @ concat (replicate n infoSchema)
    | Inl e \<Rightarrow> e = TruncatedPayload
               \<and> (\<exists>k<length (concat (replicate n infoSchema)).
                     rdLog r' = rdLog r @ take (Suc k) (concat (replicate n infoSchema))))"
proof (induction n arbitrary: r w)
  case 0
  then have "res = Inr ()" "r' = r" by simp_all
  then show ?case by simp
next
  case (Suc n)
  let ?C = "concat (replicate n infoSchema)"
  from follows_readInfoItem
  have i1: "rdData (snd (readInfoItem r)) = rdData r" "rdPos r \<le> rdPos (snd (readInfoItem r))"
    and i2: "case fst (readInfoItem r) of
               Inr x \<Rightarrow> rdLog (snd (readInfoItem r)) = rdLog r @ infoSchema
             | Inl e \<Rightarrow> e = TruncatedPayload
                        \<and> (\<exists>k<length infoSchema.
                              rdLog (snd (readInfoItem r)) = rdLog r @ take (Suc k) infoSchema)"
    by (simp_all add: follows_def)
  obtain x r1 where item: "readInfoItem r = (x, r1)" by (cases "readInfoItem r")
  show ?case
  proof (cases x)
    case (Inl e)
    with item Suc.prems have res: "res = Inl e" "r' = r1" by simp_all
    from i2 item Inl obtain k where k: "e = TruncatedPayload" "k < length infoSchema"
      "rdLog r1 = rdLog r @ take (Suc k) infoSchema" by auto
    from k(2) have "take (Suc k) (concat (replicate (Suc n) infoSchema)) = take (Suc k) infoSchema"
      by simp
    moreover from k(2) have "k < length (concat (replicate (Suc n) infoSchema))" by simp
    ultimately have "\<exists>j<length (concat (replicate (Suc n) infoSchema)).
        rdLog r1 = rdLog r @ take (Suc j) (concat (replicate (Suc n) infoSchema))"
      using k(3) by (intro exI [of _ k]) simp
    then show ?thesis
      using res k(1) i1 item by simp
  next
    case (Inr it)
    let ?w1 = "if errorId it \<noteq> 0
               then say (InfoMessage (errorId it) (extInfo it) (numberOccurrences it)) w else w"
    from item Inr Suc.prems have run: "readInfoLoop n (r1, ?w1) = (res, (r', w'))" by simp
    from i1 i2 item Inr have r1: "rdData r1 = rdData r" "rdPos r \<le> rdPos r1"
      "rdLog r1 = rdLog r @ infoSchema" by simp_all
    from Suc.IH [OF run] have ih1: "rdData r' = rdData r1" "rdPos r1 \<le> rdPos r'"
      and ih2: "case res of
          Inr u \<Rightarrow> rdLog r' = rdLog r1 @ ?C
        | Inl e \<Rightarrow> e = TruncatedPayload
                   \<and> (\<exists>k<length ?C. rdLog r' = rdLog r1 @ take (Suc k) ?C)"
      by simp_all
    show ?thesis
    proof (cases res)
      case (Inr u)
      with ih1 ih2 r1 show ?thesis by simp
    next
      case (Inl e)
      with ih2 obtain k where k: "e = TruncatedPayload" "k < length ?C"
        "rdLog r' = rdLog r1 @ take (Suc k) ?C" by auto
      have "rdLog r' = rdLog r @ take (Suc (length infoSchema + k))
                                   (concat (replicate (Suc n) infoSchema))"
        using k(3) r1(3) by simp
      moreover have "length infoSchema + k < length (concat (replicate (Suc n) infoSchema))"
        using k(2) by simp
      ultimately have "\<exists>j<length (concat (replicate (Suc n) infoSchema)).
          rdLog r' = rdLog r @ take (Suc j) (concat (replicate (Suc n) infoSchema))"
        by (intro exI [of _ "length infoSchema + k"]) simp
      moreover have "rdPos r \<le> rdPos r'" using ih1 r1 by simp
      ultimately show ?thesis
        using Inl k(1) ih1 r1 by simp
    qed
  qed
qed

lemma follows_forward: "follows ts m \<Longrightarrow> rdPos r \<le> rdPos (snd (m r))"
  by (simp add: follows_def)

lemma readInfoLoop_schedule:
  assumes run: "readInfoLoop 25 (CoLaParameterReader_new response, w) = (res, (reader, w'))"
  shows "prefix (rdLog reader) (concat (replicate 25 infoSchema))
   \<and> rdData reader = cmdPayload response
   \<and> (res = Inr () \<longrightarrow> rdLog reader = concat (replicate 25 infoSchema))
   \<and> (\<forall>e. res = Inl e \<longrightarrow> e = TruncatedPayload \<and> rdLog reader \<noteq> [])"
proof -
  let ?S = "concat (replicate 25 infoSchema)"
  note L = readInfoLoop_follows [OF run]
  have new: "rdLog (CoLaParameterReader_new response) = []"
    "rdData (CoLaParameterReader_new response) = cmdPayload response"
    by (simp_all add: CoLaParameterReader_new_def)
  have ok: "rdLog reader = ?S" if "res = Inr ()"
    using L that new by simp
  have bad: "e = TruncatedPayload \<and> rdLog reader \<noteq> [] \<and> prefix (rdLog reader) ?S"
    if "res = Inl e" for e
  proof -
    from L that new obtain k where k: "e = TruncatedPayload" "k < length ?S"
      "rdLog reader = take (Suc k) ?S" by auto
    from k(2,3) have "rdLog reader \<noteq> []" by auto
    moreover from k(3) have "prefix (rdLog reader) ?S" by (simp add: take_is_prefix)
    ultimately show ?thesis using k(1) by simp
  qed
  have pre: "prefix (rdLog reader) ?S"
  proof (cases res)
    case (Inl e)
    then show ?thesis using bad by blast
  next
    case (Inr u)
    then show ?thesis using ok by simp
  qed
  have data: "rdData reader = cmdPayload response"
    using L new by simp
  have bad': "\<forall>e. res = Inl e \<longrightarrow> e = TruncatedPayload \<and> rdLog reader \<noteq> []"
    using bad by blast
  have ok': "res = Inr () \<longrightarrow> rdLog reader = ?S"
    using ok by blast
  show ?thesis
    by (rule conjI, fact pre, rule conjI, fact data, rule conjI, fact ok', fact bad')
qed

lemma reads_forward:
  "rdPos r \<le> rdPos (snd (readUDInt r)) \<and> rdPos r \<le> rdPos (snd (readUInt r))
   \<and> rdPos r \<le> rdPos (snd (readFlexString r)) \<and> rdPos r \<le> rdPos (snd (readInfoItem r))
   \<and> rdData (snd (readInfoItem r)) = rdData r"
  using follows_reads follows_readFlexString follows_readInfoItem
  by (simp add: follows_def)

text \<open>
  C3. A response to the read of \<^verbatim>\<open>MSinfo\<close> carries 25 items in the flat encoding of
  the codec, each string shorter than 65536 characters, the most its length field can
  give. For every such response the loop decodes the payload with one reader, forward
  only: it issues exactly 25 * 11 reads, 25 times the eleven types of one item in the
  order \<open>UDInt\<close>, \<open>UDInt\<close>, \<open>UInt\<close>, \<open>UDInt\<close>, \<open>UDInt\<close>, \<open>UInt\<close>, \<open>UDInt\<close>, \<open>UDInt\<close>,
  \<open>UInt\<close>, \<open>UInt\<close>, \<open>FlexString\<close>; no read fails; the cursor ends at the end of the
  payload, which is left as it was; and the lines printed are those of the items whose
  \<^verbatim>\<open>errorId\<close> is not 0, with the values that were encoded. No read of the loop moves
  the cursor backwards or changes the payload. For every response whatsoever, the reads
  issued are an initial part of that schedule, the whole of it when no read fails, and
  a read fails only with the truncation condition.
\<close>

theorem MSinfo_reads_follow_schedule:
  assumes "cmdPayload response = MSinfoPayload items"
    and "length items = 25"
    and "\<forall>item \<in> set items. length (extInfo item) < 65536"
  shows "readInfoLoop 25 (CoLaParameterReader_new response, w)
      = (Inr (),
         (\<lparr>rdData = cmdPayload response, rdPos = length (cmdPayload response),
           rdLog = concat (replicate 25 infoSchema)\<rparr>,
          infoMessages items w))
    \<and> length (concat (replicate 25 infoSchema)) = 25 * 11
    \<and> (\<forall>r. rdPos r \<le> rdPos (snd (readUDInt r)) \<and> rdPos r \<le> rdPos (snd (readUInt r))
            \<and> rdPos r \<le> rdPos (snd (readFlexString r))
            \<and> rdPos r \<le> rdPos (snd (readInfoItem r))
            \<and> rdData (snd (readInfoItem r)) = rdData r)
    \<and> (\<forall>other w0 res reader w1.
          readInfoLoop 25 (CoLaParameterReader_new other, w0) = (res, (reader, w1)) \<longrightarrow>
          prefix (rdLog reader) (concat (replicate 25 infoSchema))
          \<and> rdData reader = cmdPayload other
          \<and> (res = Inr () \<longrightarrow> rdLog reader = concat (replicate 25 infoSchema))
          \<and> (\<forall>e. res = Inl e \<longrightarrow> e = TruncatedPayload \<and> rdLog reader \<noteq> []))"
proof -
  let ?r0 = "CoLaParameterReader_new response"
  have "drop (rdPos ?r0) (rdData ?r0) = MSinfoPayload items @ []"
    using assms(1) by (simp add: CoLaParameterReader_new_def)
  from readInfoLoop_encoded [OF this assms(3), of w]
  have run: "readInfoLoop 25 (?r0, w)
      = (Inr (),
         (\<lparr>rdData = cmdPayload response, rdPos = length (cmdPayload response),
           rdLog = concat (replicate 25 infoSchema)\<rparr>,
          infoMessages items w))"
    using assms(1,2) by (simp add: CoLaParameterReader_new_def)
  have len: "length (concat (replicate 25 infoSchema)) = 25 * 11" by (rule length_schedule)
  have fwd: "\<forall>r. rdPos r \<le> rdPos (snd (readUDInt r)) \<and> rdPos r \<le> rdPos (snd (readUInt r))
            \<and> rdPos r \<le> rdPos (snd (readFlexString r))
            \<and> rdPos r \<le> rdPos (snd (readInfoItem r))
            \<and> rdData (snd (readInfoItem r)) = rdData r"
    using reads_forward by blast
  have every: "\<forall>other w0 res reader w1.
          readInfoLoop 25 (CoLaParameterReader_new other, w0) = (res, (reader, w1)) \<longrightarrow>
          prefix (rdLog reader) (concat (replicate 25 infoSchema))
          \<and> rdData reader = cmdPayload other
          \<and> (res = Inr () \<longrightarrow> rdLog reader = concat (replicate 25 infoSchema))
          \<and> (\<forall>e. res = Inl e \<longrightarrow> e = TruncatedPayload \<and> rdLog reader \<noteq> [])"
    using readInfoLoop_schedule by blast
  show ?thesis
    by (rule conjI, fact run, rule conjI, fact len, rule conjI, fact fwd, fact every)
qed

subsection \<open>Decoding the info messages of the simulated device\<close>

lemma infoMessages_simInfoItem: "infoMessages (replicate n simInfoItem) w = w"
  by (induction n) (simp_all add: infoMessages_def simInfoItem_def)

lemma length_simMSinfoPayload: "length simMSinfoPayload = 900"
proof -
  have "length (MSinfoPayload (replicate n simInfoItem)) = n * 36" for n
    by (induction n) (simp_all add: MSinfoPayload_def length_infoItemPayload simInfoItem_def)
  then show ?thesis by (simp add: simMSinfoPayload_def)
qed

lemma readInfoLoop_simMSinfo:
  "readInfoLoop 25 (CoLaParameterReader_new simMSinfoResponse, w) =
     (Inr (),
      (\<lparr>rdData = simMSinfoPayload, rdPos = 900,
        rdLog = concat (replicate 25 infoSchema)\<rparr>, w))"
proof -
  let ?r0 = "CoLaParameterReader_new simMSinfoResponse"
  have "drop (rdPos ?r0) (rdData ?r0) = MSinfoPayload (replicate 25 simInfoItem) @ []"
    by (simp add: CoLaParameterReader_new_def simMSinfoResponse_def simMSinfoPayload_def)
  moreover have "\<forall>item \<in> set (replicate 25 simInfoItem). length (extInfo item) < 65536"
    by (simp add: simInfoItem_def)
  ultimately have "readInfoLoop (length (replicate 25 simInfoItem)) (?r0, w)
      = (Inr (), (?r0\<lparr>rdPos := rdPos ?r0 + length (MSinfoPayload (replicate 25 simInfoItem)),
                     rdLog := rdLog ?r0
                       @ concat (replicate (length (replicate 25 simInfoItem)) infoSchema)\<rparr>,
                  infoMessages (replicate 25 simInfoItem) w))"
    by (rule readInfoLoop_encoded)
  then show ?thesis
    using length_simMSinfoPayload
    by (simp add: infoMessages_simInfoItem CoLaParameterReader_new_def simMSinfoResponse_def
          simMSinfoPayload_def)
qed

theorem MSinfo_reads_follow_schedule_witness:
  "readInfoLoop 25 (CoLaParameterReader_new simMSinfoResponse, loggedInWorld)
     = (Inr (),
        (\<lparr>rdData = simMSinfoPayload, rdPos = 900,
          rdLog = concat (replicate 25 infoSchema)\<rparr>, loggedInWorld))
   \<and> length (concat (replicate 25 infoSchema)) = 275"
proof -
  have 1: "cmdPayload simMSinfoResponse = MSinfoPayload (replicate 25 simInfoItem)"
    by (simp add: simMSinfoResponse_def simMSinfoPayload_def)
  have 2: "length (replicate 25 simInfoItem) = 25" by simp
  have 3: "\<forall>item \<in> set (replicate 25 simInfoItem). length (extInfo item) < 65536"
    by (simp add: simInfoItem_def)
  have payload: "cmdPayload simMSinfoResponse = simMSinfoPayload"
    by (simp add: simMSinfoResponse_def)
  from MSinfo_reads_follow_schedule [OF 1 2 3, of loggedInWorld]
  show ?thesis
    by (simp only: payload length_simMSinfoPayload infoMessages_simInfoItem) simp
qed

subsection \<open>The continuous acquisition loop\<close>

lemma continuousLoop_fold:
  "continuousLoop dev n i w = fold (continuousStep dev) [i..<n] w"
proof (induction dev n i w rule: continuousLoop.induct)
  case (1 dev n i w)
  show ?case
  proof (cases "i < n")
    case True
    then have "[i..<n] = i # [Suc i..<n]" by (rule upt_conv_Cons)
    with True "1.IH" show ?thesis
      by (subst continuousLoop.simps) simp
  next
    case False
    then show ?thesis by (subst continuousLoop.simps) simp
  qed
qed

lemma worldBefore_Suc:
  "worldBefore dev w (Suc i) = continuousStep dev i (worldBefore dev w i)"
  by (simp add: worldBefore_def)

lemma continuousStep_fields:
  "dataStream (continuousStep dev i x) = snd (getNextFrame dev (dataStream x))"
  "exitcode (continuousStep dev i x) =
     (if fst (getNextFrame dev (dataStream x)) then exitcode x
      else ExitCode_feed 12 (exitcode x))"
  "\<not> fst (getNextFrame dev (dataStream x)) \<Longrightarrow>
     console (continuousStep dev i x) = console x @ [FrameTimeoutContinuous i]"
  "visionaryControl (continuousStep dev i x) = visionaryControl x"
  by (auto simp: continuousStep_def say_def exitcode_call_def split: prod.splits)

lemma ExitCode_feed_twice: "ExitCode_feed c (ExitCode_feed c e) = ExitCode_feed c e"
  by (simp add: ExitCode_feed_def)

lemma worldBefore_exitcode:
  "exitcode (worldBefore dev w n) =
     (if \<exists>i<n. frameFails dev w i then ExitCode_feed 12 (exitcode w) else exitcode w)"
proof (induction n)
  case 0
  show ?case by (simp add: worldBefore_def)
next
  case (Suc n)
  have ex: "(\<exists>i<Suc n. frameFails dev w i) = ((\<exists>i<n. frameFails dev w i) \<or> frameFails dev w n)"
    by (auto simp: less_Suc_eq)
  have "exitcode (worldBefore dev w (Suc n)) =
      (if frameFails dev w n then ExitCode_feed 12 (exitcode (worldBefore dev w n))
       else exitcode (worldBefore dev w n))"
    unfolding worldBefore_Suc by (simp add: continuousStep_fields frameFails_def)
  then show ?case
    unfolding Suc.IH ex by (auto simp: ExitCode_feed_twice)
qed

lemma nextFrame_timeout:
  "nextFrame dev c = (Inl TimeoutError, c') \<Longrightarrow>
   streamOpen c' \<and> waits c' = Suc (waits c) \<and> lastSeq c' = lastSeq c
   \<and> buffer c' = buffer c @ (case arrivals dev (waits c) of Bytes bs \<Rightarrow> bs | ConnectionReset \<Rightarrow> [])"
  by (auto simp: nextFrame_def split: if_splits Delivery.splits Assembly.splits)

text \<open>
  C7. A failing \<^verbatim>\<open>getNextFrame()\<close> does not end the continuous acquisition loop: the
  loop makes its \<^verbatim>\<open>numberOfFrames\<close> passes whatever their outcome, each with one call
  on the channel as the pass before left it; a pass whose call fails prints the
  time-out message and feeds 12 into the exit code, so that the exit code after the
  loop has 12 fed in exactly when a pass failed. In the engine, a wait that ends in the
  time-out is a single wait (nothing is retried), leaves the channel open and keeps
  every byte buffered or delivered so far for the next call.
\<close>

theorem continuous_loop_tolerates_timeouts:
  "continuousLoop dev numberOfFrames 0 w = worldBefore dev w numberOfFrames
   \<and> (\<forall>i. i < numberOfFrames \<longrightarrow>
         dataStream (worldBefore dev w (Suc i))
           = snd (getNextFrame dev (dataStream (worldBefore dev w i)))
         \<and> (frameFails dev w i \<longrightarrow>
              console (worldBefore dev w (Suc i))
                = console (worldBefore dev w i) @ [FrameTimeoutContinuous i]
              \<and> exitcode (worldBefore dev w (Suc i))
                  = ExitCode_feed 12 (exitcode (worldBefore dev w i))))
   \<and> exitcode (continuousLoop dev numberOfFrames 0 w)
       = (if \<exists>i<numberOfFrames. frameFails dev w i then ExitCode_feed 12 (exitcode w)
          else exitcode w)
   \<and> (\<forall>c c'. nextFrame dev c = (Inl TimeoutError, c') \<longrightarrow>
         streamOpen c' \<and> waits c' = Suc (waits c)
         \<and> buffer c' = buffer c @ (case arrivals dev (waits c) of
                                     Bytes bs \<Rightarrow> bs | ConnectionReset \<Rightarrow> []))"
proof -
  have loop: "continuousLoop dev numberOfFrames 0 w = worldBefore dev w numberOfFrames"
    by (simp add: continuousLoop_fold worldBefore_def)
  have step: "dataStream (worldBefore dev w (Suc i))
           = snd (getNextFrame dev (dataStream (worldBefore dev w i)))
         \<and> (frameFails dev w i \<longrightarrow>
              console (worldBefore dev w (Suc i))
                = console (worldBefore dev w i) @ [FrameTimeoutContinuous i]
              \<and> exitcode (worldBefore dev w (Suc i))
                  = ExitCode_feed 12 (exitcode (worldBefore dev w i)))" for i
    unfolding worldBefore_Suc by (simp add: continuousStep_fields frameFails_def)
  have timeout: "\<forall>c c'. nextFrame dev c = (Inl TimeoutError, c') \<longrightarrow>
         streamOpen c' \<and> waits c' = Suc (waits c)
         \<and> buffer c' = buffer c @ (case arrivals dev (waits c) of
                                     Bytes bs \<Rightarrow> bs | ConnectionReset \<Rightarrow> [])"
    using nextFrame_timeout by blast
  have steps: "\<forall>i. i < numberOfFrames \<longrightarrow>
         dataStream (worldBefore dev w (Suc i))
           = snd (getNextFrame dev (dataStream (worldBefore dev w i)))
         \<and> (frameFails dev w i \<longrightarrow>
              console (worldBefore dev w (Suc i))
                = console (worldBefore dev w i) @ [FrameTimeoutContinuous i]
              \<and> exitcode (worldBefore dev w (Suc i))
                  = ExitCode_feed 12 (exitcode (worldBefore dev w i)))"
    using step by simp
  have code: "exitcode (continuousLoop dev numberOfFrames 0 w)
       = (if \<exists>i<numberOfFrames. frameFails dev w i then ExitCode_feed 12 (exitcode w)
          else exitcode w)"
    unfolding loop by (rule worldBefore_exitcode)
  show ?thesis
    by (rule conjI, fact loop, rule conjI, fact steps, rule conjI, fact code, fact timeout)
qed

lemma streamingWorld_pass0:
  "nextFrame simDevice (dataStream streamingWorld)
     = (Inl TimeoutError,
        \<lparr>streamOpen = True, buffer = [2], lastSeq = Some 1, handler = None, waits = 2\<rparr>)"
  by (simp add: nextFrame_def streamingWorld_def simDevice_def simFraming_def World_new_def)

lemma streamingWorld_pass1:
  "dataStream (worldBefore simDevice streamingWorld (Suc 0))
     = \<lparr>streamOpen = True, buffer = [2], lastSeq = Some 1, handler = None, waits = 2\<rparr>"
  by (simp add: worldBefore_def continuousStep_fields getNextFrame_def streamingWorld_pass0)

theorem continuous_loop_tolerates_timeouts_witness:
  "frameFails simDevice streamingWorld 0
   \<and> console (worldBefore simDevice streamingWorld (Suc 0)) = [FrameTimeoutContinuous 0]
   \<and> buffer (dataStream (worldBefore simDevice streamingWorld (Suc 0))) = [2]
   \<and> nextFrame simDevice (dataStream (worldBefore simDevice streamingWorld (Suc 0)))
       = (Inr \<lparr>frameNum = 2, timestampMS = 7, blob = [42]\<rparr>,
          \<lparr>streamOpen = True, buffer = [], lastSeq = Some 2,
           handler = Some \<lparr>frameNum = 2, timestampMS = 7, blob = [42]\<rparr>, waits = 3\<rparr>)
   \<and> ExitCode_get (exitcode (continuousLoop simDevice 3 0 streamingWorld)) = 12"
proof -
  have fails: "frameFails simDevice streamingWorld 0"
    by (simp add: frameFails_def worldBefore_def getNextFrame_def streamingWorld_pass0)
  then have ex: "\<exists>i<3. frameFails simDevice streamingWorld i"
    by (intro exI [of _ 0]) simp
  have c0: "console (worldBefore simDevice streamingWorld 0) = []"
    "exitcode streamingWorld = ExitCode_new"
    by (simp_all add: worldBefore_def streamingWorld_def World_new_def)
  have twelve: "ExitCode_get (ExitCode_feed 12 ExitCode_new) = 12"
    by (simp add: ExitCode_get_def ExitCode_feed_def ExitCode_new_def)
  have next1: "nextFrame simDevice
       \<lparr>streamOpen = True, buffer = [2], lastSeq = Some 1, handler = None, waits = 2\<rparr>
       = (Inr \<lparr>frameNum = 2, timestampMS = 7, blob = [42]\<rparr>,
          \<lparr>streamOpen = True, buffer = [], lastSeq = Some 2,
           handler = Some \<lparr>frameNum = 2, timestampMS = 7, blob = [42]\<rparr>, waits = 3\<rparr>)"
    by (simp add: nextFrame_def simDevice_def simFraming_def)
  note T = continuous_loop_tolerates_timeouts [of simDevice 3 streamingWorld]
  have "console (worldBefore simDevice streamingWorld (Suc 0))
          = console (worldBefore simDevice streamingWorld 0) @ [FrameTimeoutContinuous 0]"
    using T [THEN conjunct2, THEN conjunct1, rule_format, of 0] fails by simp
  moreover have "exitcode (continuousLoop simDevice 3 0 streamingWorld)
          = ExitCode_feed 12 (exitcode streamingWorld)"
    using T [THEN conjunct2, THEN conjunct2, THEN conjunct1] ex by simp
  ultimately show ?thesis
    using fails next1 by (simp add: c0 twelve streamingWorld_pass1)
qed

subsection \<open>The configuration phase of the Visionary-S demo\<close>

lemma grows_refl: "grows w w"
  by (simp add: grows_def loggedIn_def)

lemma grows_trans: "grows a b \<Longrightarrow> grows b c \<Longrightarrow> grows a c"
  unfolding grows_def by (meson prefix_order.order_trans)

lemma keeps_ret: "keeps (ret x)"
  by (simp add: keeps_def ret_def grows_refl)

lemma keeps_act_say: "keeps (act (say m))"
  by (simp add: keeps_def act_def say_def grows_def loggedIn_def)

lemma keeps_act_exitcode: "keeps (act (exitcode_call c))"
  by (simp add: keeps_def act_def exitcode_call_def grows_def loggedIn_def)

lemma keeps_send: "keeps (send dev cmd)"
  by (simp add: keeps_def send_def sendCommand_def grows_def loggedIn_def split: option.splits)

lemma keeps_decode: "keeps (decode rd response)"
  by (simp add: keeps_def decode_def grows_refl)

lemma keeps_now: "keeps (now dev)"
  by (simp add: keeps_def now_def grows_def loggedIn_def)

lemma keeps_login: "keeps (control_call (login dev level password))"
  by (simp add: keeps_def control_call_def login_def grows_def loggedIn_def)

lemma keeps_bnd:
  assumes "keeps m" and "\<And>x. keeps (f x)"
  shows "keeps (bnd m f)"
  unfolding keeps_def
proof
  fix w
  obtain r w1 where m: "m w = (r, w1)" by (cases "m w")
  from assms(1) m have g1: "grows w w1" by (auto simp: keeps_def dest: spec [of _ w])
  show "grows w (snd (bnd m f w))"
  proof (cases r)
    case (Inl e)
    with m g1 show ?thesis by (simp add: bnd_def)
  next
    case (Inr x)
    from assms(2) [of x] have "grows w1 (snd (f x w1))" by (simp add: keeps_def)
    with g1 have "grows w (snd (f x w1))" by (rule grows_trans)
    with m Inr show ?thesis by (simp add: bnd_def)
  qed
qed

lemma keeps_if: "keeps a \<Longrightarrow> keeps b \<Longrightarrow> keeps (if c then a else b)"
  by simp

lemma keepsP_total: "keeps m \<Longrightarrow> keepsP (total m)"
  unfolding keeps_def keepsP_def total_def by (metis option.inject snd_conv)

lemma keepsP_if: "keepsP a \<Longrightarrow> keepsP b \<Longrightarrow> keepsP (if c then a else b)"
  by simp

lemma keepsP_bndP:
  assumes "keepsP m" and "\<And>x. keepsP (f x)"
  shows "keepsP (bndP m f)"
  unfolding keepsP_def
proof (intro allI impI)
  fix w r w'
  assume run: "bndP m f w = Some (r, w')"
  then obtain r1 w1 where m: "m w = Some (r1, w1)"
    by (cases "m w") (auto simp: bndP_def)
  from assms(1) m have g1: "grows w w1" by (simp add: keepsP_def)
  show "grows w w'"
  proof (cases r1)
    case (Inl e)
    with run m g1 show ?thesis by (simp add: bndP_def)
  next
    case (Inr x)
    with run m have "f x w1 = Some (r, w')" by (simp add: bndP_def)
    with assms(2) [of x] have "grows w1 w'" by (simp add: keepsP_def)
    with g1 show ?thesis by (rule grows_trans)
  qed
qed

lemma keepsP_forEachP:
  assumes "\<And>x. keepsP (body x)"
  shows "keepsP (forEachP body xs)"
proof (induction xs)
  case Nil
  show ?case by (simp add: keepsP_def grows_refl)
next
  case (Cons x xs)
  have "forEachP body (x # xs) = bndP (body x) (\<lambda>_. forEachP body xs)"
    by (rule ext) simp
  then show ?case
    using assms Cons.IH by (simp add: keepsP_bndP)
qed

lemma waitAutoExposure_grows:
  "waitAutoExposure dev autoType startTime w = Some y \<Longrightarrow> grows w (snd y)"
proof (rule waitAutoExposure.raw_induct
         [where P = "\<lambda>dev autoType startTime w y. grows w (snd y)"], goal_cases)
  case (1 wait dev autoType startTime w y)
  obtain r1 w1 where s: "send dev getAutoExpParamRunningCommand w = (r1, w1)"
    by (cases "send dev getAutoExpParamRunningCommand w")
  have g1: "grows w w1"
    using keeps_send [of dev getAutoExpParamRunningCommand] s
    by (auto simp: keeps_def dest: spec [of _ w])
  show ?case
  proof (cases r1)
    case (Inl e)
    with 1(3) s g1 show ?thesis by auto
  next
    case (Inr response)
    show ?thesis
    proof (cases "fst (readBool (CoLaParameterReader_new response))")
      case (Inl e)
      with 1(3) s Inr g1 show ?thesis by (auto simp: decode_def)
    next
      case running: (Inr running)
      let ?w3 = "w1\<lparr>clockReads := Suc (clockReads w1)\<rparr>"
      let ?w4 = "if systemClock dev (clockReads w1) - startTime \<le> 10000000000 then ?w3
                 else say (AutoExposureTimeout autoType) ?w3"
      have "grows w1 ?w4" by (simp add: grows_def loggedIn_def say_def)
      with g1 have g4: "grows w ?w4" by (rule grows_trans)
      from 1(3) s Inr running
      have body: "(if running then wait dev autoType startTime ?w4 else Some (Inr (), ?w4))
          = Some y"
        by (simp add: decode_def now_def Let_def)
      show ?thesis
      proof (cases running)
        case True
        then have rt: "running = True" by simp
        from body [unfolded rt if_True]
        have "wait dev autoType startTime ?w4 = Some y" .
        then have "grows ?w4 (snd y)" by (rule 1(2))
        with g4 show ?thesis by (rule grows_trans)
      next
        case False
        then have rf: "running = False" by simp
        from body [unfolded rf if_False]
        have "Some (Inr (), ?w4) = Some y" .
        then have "snd y = ?w4" by auto
        with g4 show ?thesis by simp
      qed
    qed
  qed
qed

lemma keepsP_waitAutoExposure: "keepsP (waitAutoExposure dev autoType startTime)"
  unfolding keepsP_def using waitAutoExposure_grows by fastforce

lemma keeps_readIntegrationTimes: "keeps (readIntegrationTimes dev)"
  unfolding readIntegrationTimes_def
  by (intro keeps_bnd keeps_send keeps_decode keeps_act_say)

lemma keepsP_triggerAutoExposure: "keepsP (triggerAutoExposure dev autoType)"
  unfolding triggerAutoExposure_def
  by (intro keepsP_bndP keepsP_total keeps_bnd keeps_if keeps_send keeps_decode keeps_act_say
        keeps_ret keeps_now keepsP_waitAutoExposure)

lemma keepsP_autoExposure: "keepsP (autoExposure dev)"
  unfolding autoExposure_def
  by (intro keepsP_bndP keepsP_total keepsP_if keepsP_forEachP keepsP_triggerAutoExposure
        keeps_bnd keeps_send keeps_readIntegrationTimes keeps_login keeps_ret)

lemma readInfoLoop_grows: "grows w (snd (snd (readInfoLoop n (r, w))))"
proof (induction n arbitrary: r w)
  case 0
  show ?case by (simp add: grows_refl)
next
  case (Suc n)
  obtain x r1 where item: "readInfoItem r = (x, r1)" by (cases "readInfoItem r")
  show ?case
  proof (cases x)
    case (Inl e)
    with item show ?thesis by (simp add: grows_refl)
  next
    case (Inr it)
    let ?w1 = "if errorId it \<noteq> 0
               then say (InfoMessage (errorId it) (extInfo it) (numberOccurrences it)) w else w"
    have "grows w ?w1" by (simp add: grows_def loggedIn_def say_def)
    moreover have "grows ?w1 (snd (snd (readInfoLoop n (r1, ?w1))))" by (rule Suc.IH)
    ultimately have "grows w (snd (snd (readInfoLoop n (r1, ?w1))))" by (rule grows_trans)
    with item Inr show ?thesis by simp
  qed
qed

lemma keeps_readInfoMessages: "keeps (readInfoMessages dev)"
  unfolding readInfoMessages_def
proof (intro keeps_bnd keeps_send)
  fix response
  show "keeps (\<lambda>w. case readInfoLoop 25 (CoLaParameterReader_new response, w) of
                     (r, reader, w') \<Rightarrow> (r, w'))"
    unfolding keeps_def
  proof
    fix w
    from readInfoLoop_grows [of w 25 "CoLaParameterReader_new response"]
    show "grows w (snd (case readInfoLoop 25 (CoLaParameterReader_new response, w) of
                          (r, reader, w') \<Rightarrow> (r, w')))"
      by (simp add: split_beta)
  qed
qed

lemma prefix_take: "prefix xs ys \<Longrightarrow> take (length xs) ys = xs"
  by (auto simp: prefix_def)

lemma decode_150000:
  "cmdPayload response = be32 150000 \<Longrightarrow> decode readUDInt response w = (Inr 150000, w)"
  by (simp add: decode_def readUDInt_def bnd_def issue_def fetch_def ret_def
        CoLaParameterReader_new_def be32_def from_be_def)

lemma setFramePeriodCommand_eq:
  "setFramePeriodCommand =
     \<lparr>cmdType = WRITE_VARIABLE, cmdName = ''framePeriodTime'', cmdPayload = be32 150000,
      getError = OK\<rparr>"
  by (simp add: setFramePeriodCommand_def build_def parameterUDInt_def CoLaParameterWriter_new_def)

lemma getFramePeriodCommand_eq:
  "getFramePeriodCommand =
     \<lparr>cmdType = READ_VARIABLE, cmdName = ''framePeriodTime'', cmdPayload = [], getError = OK\<rparr>"
  by (simp add: getFramePeriodCommand_def build_def CoLaParameterWriter_new_def)

lemma configurationPhase_head:
  assumes "reachable dev COLA_B ip 5000"
    and "accepts dev AUTHORIZED_CLIENT ''CLIENT''"
    and "respond dev (loginCalls ip @ [CallSend setFramePeriodCommand]) = Some wr"
    and "getError wr = OK"
    and "respond dev (loginCalls ip @ [CallSend setFramePeriodCommand, CallSend getFramePeriodCommand])
           = Some rr"
    and "getError rr = OK"
    and "cmdPayload rr = be32 150000"
  shows "configurationPhase dev ip (World_new a) =
     bndP (autoExposure dev) (\<lambda>_.
     bndP (total (readInfoMessages dev)) (\<lambda>_.
     total (bnd logoutStep (\<lambda>_. ret True)))) (afterReadBack dev ip a)"
proof -
  let ?wB = "(World_new a)\<lparr>
        visionaryControl :=
          \<lparr>sessionState = Authenticated AUTHORIZED_CLIENT, acquisition = STOPPED,
           wire = loginCalls ip\<rparr>,
        console := [DeviceIdentIs (deviceIdent dev)]\<rparr>"
  let ?wC = "(World_new a)\<lparr>
        visionaryControl :=
          \<lparr>sessionState = Authenticated AUTHORIZED_CLIENT, acquisition = STOPPED,
           wire = loginCalls ip @ [CallSend setFramePeriodCommand]\<rparr>,
        console := [DeviceIdentIs (deviceIdent dev), SettingFramePeriodTime,
                    SuccessfullySetFramePeriodTime]\<rparr>"
  have openA: "control_call (ctrl_open dev COLA_B ip 5000) (World_new a)
      = (Inr True, (World_new a)\<lparr>visionaryControl :=
           \<lparr>sessionState = Connected, acquisition = a, wire = [CallOpen COLA_B ip 5000]\<rparr>\<rparr>)"
    using assms(1) by (simp add: control_call_def ctrl_open_def World_new_def)
  have loginB: "bnd (control_call stopAcquisition) (\<lambda>_.
        bnd (control_call (getDeviceIdent dev)) (\<lambda>ident.
        bnd (act (say (DeviceIdentIs ident))) (\<lambda>_.
        control_call (login dev AUTHORIZED_CLIENT ''CLIENT''))))
        ((World_new a)\<lparr>visionaryControl :=
           \<lparr>sessionState = Connected, acquisition = a, wire = [CallOpen COLA_B ip 5000]\<rparr>\<rparr>)
      = (Inr True, ?wB)"
    using assms(2)
    by (simp add: bnd_def control_call_def stopAcquisition_def getDeviceIdent_def act_def
          say_def login_def World_new_def loginCalls_def)
  have writeC: "setFramePeriod dev ?wB = (Inr (), ?wC)"
    using assms(3,4)
    by (simp add: setFramePeriod_def bnd_def act_def say_def send_def sendCommand_def
          World_new_def)
  have readD: "readFramePeriod dev ?wC = (Inr (), afterReadBack dev ip a)"
    using assms(5,6) decode_150000 [OF assms(7)]
    by (simp add: readFramePeriod_def bnd_def act_def say_def send_def sendCommand_def
          World_new_def afterReadBack_def)
  show ?thesis
    unfolding configurationPhase_def
    by (simp add: bndP_def total_def openA loginB writeC readD)
qed

lemma afterReadBack_fields:
  "wire (visionaryControl (afterReadBack dev ip a))
     = [CallOpen COLA_B ip 5000, CallStop, CallIdent, CallLogin AUTHORIZED_CLIENT ''CLIENT'',
        CallSend \<lparr>cmdType = WRITE_VARIABLE, cmdName = ''framePeriodTime'',
                  cmdPayload = be32 150000, getError = OK\<rparr>,
        CallSend \<lparr>cmdType = READ_VARIABLE, cmdName = ''framePeriodTime'',
                  cmdPayload = [], getError = OK\<rparr>]"
  "console (afterReadBack dev ip a)
     = [DeviceIdentIs (deviceIdent dev), SettingFramePeriodTime,
        SuccessfullySetFramePeriodTime, ReadFramePeriodTime 150000]"
  "sessionState (visionaryControl (afterReadBack dev ip a)) = Authenticated AUTHORIZED_CLIENT"
  "exitcode (afterReadBack dev ip a) = ExitCode_new"
  by (simp_all add: afterReadBack_def loginCalls_def setFramePeriodCommand_eq
        getFramePeriodCommand_eq World_new_def)

lemma grows_afterReadBack:
  assumes "grows (afterReadBack dev ip a) w"
  shows "take 6 (wire (visionaryControl w)) = wire (visionaryControl (afterReadBack dev ip a))"
    and "take 4 (console w) = console (afterReadBack dev ip a)"
    and "sessionState (visionaryControl w) \<noteq> Disconnected"
    and "loggedIn w"
    and "CallLogout \<notin> set (wire (visionaryControl w))"
proof -
  let ?wD = "afterReadBack dev ip a"
  from assms have pw: "prefix (wire (visionaryControl ?wD)) (wire (visionaryControl w))"
    and pc: "prefix (console ?wD) (console w)"
    by (simp_all add: grows_def)
  have "length (wire (visionaryControl ?wD)) = 6" "length (console ?wD) = 4"
    by (simp_all add: afterReadBack_fields)
  with prefix_take [OF pw] prefix_take [OF pc]
  show "take 6 (wire (visionaryControl w)) = wire (visionaryControl ?wD)"
    and "take 4 (console w) = console ?wD"
    by simp_all
  from assms show "sessionState (visionaryControl w) \<noteq> Disconnected"
    by (simp add: grows_def afterReadBack_fields)
  from assms show "loggedIn w"
    by (simp add: grows_def loggedIn_def afterReadBack_fields)
  from assms show "CallLogout \<notin> set (wire (visionaryControl w))"
    by (simp add: grows_def afterReadBack_fields)
qed

lemma logout_tail:
  assumes "sessionState (visionaryControl w) \<noteq> Disconnected"
  shows "bnd logoutStep (\<lambda>_. ret True) w
     = (Inr True, w\<lparr>visionaryControl :=
                      (visionaryControl w)\<lparr>sessionState := Connected,
                                             wire := wire (visionaryControl w) @ [CallLogout]\<rparr>\<rparr>)"
  using assms by (simp add: logoutStep_def bnd_def control_call_def logout_def ret_def)

text \<open>
  C1 (as amended). The configuration phase of the Visionary-S demo opens the control
  session with the \<^verbatim>\<open>COLA_B\<close> variant (the legacy variant, not "v2"), stops the
  acquisition, reads the device identification, logs in at level
  \<^verbatim>\<open>AUTHORIZED_CLIENT\<close> with the password \<^verbatim>\<open>CLIENT\<close>, writes the variable
  \<^verbatim>\<open>framePeriodTime\<close> with the four bytes of the unsigned 32-bit value 150000 and
  reads it back. Against a device that can be reached with \<^verbatim>\<open>COLA_B\<close>, accepts the
  login and answers the write with \<open>OK\<close> and the read with \<open>OK\<close> and the bytes of
  150000, with no further condition: the phase reaches the state in which exactly these
  six calls have been made, in this order, the success message and the decoded value
  150000 have been printed, the session is logged in as authorized client and the exit
  code is untouched, and it goes on from there with the auto exposure block, the info
  messages and the logout. When these two blocks end without a failure, the phase
  returns normally and does not return early, its last call is the logout, and the
  session state after it is \<open>Connected\<close>. Whatever way the phase ends, the six calls
  are the first six on the wire and the four messages the first four printed; when it
  returns normally the logout is the last call and the only logout, and the state is
  \<open>Connected\<close>; when it ends with a failure of one of the two blocks, no logout has
  been sent and the session is still logged in.
\<close>

theorem configuration_phase_order:
  assumes "reachable dev COLA_B ip 5000"
    and "accepts dev AUTHORIZED_CLIENT ''CLIENT''"
    and "respond dev (loginCalls ip @ [CallSend setFramePeriodCommand]) = Some wr"
    and "getError wr = OK"
    and "respond dev (loginCalls ip @ [CallSend setFramePeriodCommand, CallSend getFramePeriodCommand])
           = Some rr"
    and "getError rr = OK"
    and "cmdPayload rr = be32 150000"
  shows "configurationPhase dev ip (World_new a)
      = bndP (autoExposure dev) (\<lambda>_.
        bndP (total (readInfoMessages dev)) (\<lambda>_.
        total (bnd logoutStep (\<lambda>_. ret True)))) (afterReadBack dev ip a)
    \<and> wire (visionaryControl (afterReadBack dev ip a))
        = [CallOpen COLA_B ip 5000, CallStop, CallIdent, CallLogin AUTHORIZED_CLIENT ''CLIENT'',
           CallSend \<lparr>cmdType = WRITE_VARIABLE, cmdName = ''framePeriodTime'',
                     cmdPayload = be32 150000, getError = OK\<rparr>,
           CallSend \<lparr>cmdType = READ_VARIABLE, cmdName = ''framePeriodTime'',
                     cmdPayload = [], getError = OK\<rparr>]
    \<and> console (afterReadBack dev ip a)
        = [DeviceIdentIs (deviceIdent dev), SettingFramePeriodTime,
           SuccessfullySetFramePeriodTime, ReadFramePeriodTime 150000]
    \<and> sessionState (visionaryControl (afterReadBack dev ip a)) = Authenticated AUTHORIZED_CLIENT
    \<and> exitcode (afterReadBack dev ip a) = ExitCode_new
    \<and> (\<forall>wE wF.
          autoExposure dev (afterReadBack dev ip a) = Some (Inr (), wE)
          \<and> readInfoMessages dev wE = (Inr (), wF) \<longrightarrow>
          configurationPhase dev ip (World_new a)
            = Some (Inr True,
                    wF\<lparr>visionaryControl :=
                         (visionaryControl wF)\<lparr>sessionState := Connected,
                                                 wire := wire (visionaryControl wF) @ [CallLogout]\<rparr>\<rparr>))
    \<and> (\<forall>res w.
          configurationPhase dev ip (World_new a) = Some (res, w) \<longrightarrow>
          take 6 (wire (visionaryControl w)) = wire (visionaryControl (afterReadBack dev ip a))
          \<and> take 4 (console w) = console (afterReadBack dev ip a)
          \<and> (case res of
                Inr goOn \<Rightarrow>
                  goOn \<and> last (wire (visionaryControl w)) = CallLogout
                  \<and> CallLogout \<notin> set (butlast (wire (visionaryControl w)))
                  \<and> sessionState (visionaryControl w) = Connected
              | Inl e \<Rightarrow>
                  CallLogout \<notin> set (wire (visionaryControl w)) \<and> loggedIn w))"
proof -
  let ?wD = "afterReadBack dev ip a"
  let ?out = "\<lambda>wF. wF\<lparr>visionaryControl :=
                         (visionaryControl wF)\<lparr>sessionState := Connected,
                                                 wire := wire (visionaryControl wF) @ [CallLogout]\<rparr>\<rparr>"
  note head = configurationPhase_head [OF assms, of a]
  have through: "grows ?wD wE" if "autoExposure dev ?wD = Some (r, wE)" for r wE
    using keepsP_autoExposure [of dev] that by (simp add: keepsP_def)
  have info: "grows wE (snd (readInfoMessages dev wE))" for wE
    using keeps_readInfoMessages [of dev] by (simp add: keeps_def)
  have completes: "configurationPhase dev ip (World_new a) = Some (Inr True, ?out wF)"
    if ae: "autoExposure dev ?wD = Some (Inr (), wE)"
      and ri: "readInfoMessages dev wE = (Inr (), wF)" for wE wF
  proof -
    from info [of wE] ri have "grows wE wF" by simp
    with through [OF ae] have "grows ?wD wF" by (rule grows_trans)
    then have "sessionState (visionaryControl wF) \<noteq> Disconnected"
      by (rule grows_afterReadBack)
    from logout_tail [OF this] show ?thesis
      unfolding head by (simp add: bndP_def total_def ae ri)
  qed
  have ends: "take 6 (wire (visionaryControl w)) = wire (visionaryControl ?wD)
          \<and> take 4 (console w) = console ?wD
          \<and> (case res of
                Inr goOn \<Rightarrow>
                  goOn \<and> last (wire (visionaryControl w)) = CallLogout
                  \<and> CallLogout \<notin> set (butlast (wire (visionaryControl w)))
                  \<and> sessionState (visionaryControl w) = Connected
              | Inl e \<Rightarrow>
                  CallLogout \<notin> set (wire (visionaryControl w)) \<and> loggedIn w)"
    if run: "configurationPhase dev ip (World_new a) = Some (res, w)" for res w
  proof -
    from run [unfolded head] obtain r1 wE where ae: "autoExposure dev ?wD = Some (r1, wE)"
      by (cases "autoExposure dev ?wD") (auto simp: bndP_def)
    note gE = through [OF ae]
    show ?thesis
    proof (cases r1)
      case (Inl e)
      with run [unfolded head] ae have "res = Inl e" "w = wE" by (simp_all add: bndP_def)
      with grows_afterReadBack [OF gE] show ?thesis by simp
    next
      case (Inr u)
      obtain r2 wF where ri: "readInfoMessages dev wE = (r2, wF)"
        by (cases "readInfoMessages dev wE")
      from info [of wE] ri have "grows wE wF" by simp
      with gE have gF: "grows ?wD wF" by (rule grows_trans)
      note fF = grows_afterReadBack [OF gF]
      show ?thesis
      proof (cases r2)
        case (Inl e)
        with run [unfolded head] ae Inr ri have "res = Inl e" "w = wF"
          by (simp_all add: bndP_def total_def)
        with fF show ?thesis by simp
      next
        case inner: (Inr u2)
        from Inr inner ae ri have "configurationPhase dev ip (World_new a) = Some (Inr True, ?out wF)"
          by (intro completes) simp_all
        with run have res: "res = Inr True" and w: "w = ?out wF" by simp_all
        from gF have "prefix (wire (visionaryControl ?wD)) (wire (visionaryControl wF))"
          by (simp add: grows_def)
        then have "prefix (wire (visionaryControl ?wD)) (wire (visionaryControl w))"
          unfolding w by (simp add: prefix_prefix)
        from prefix_take [OF this]
        have "take (length (wire (visionaryControl ?wD))) (wire (visionaryControl w))
            = wire (visionaryControl ?wD)" .
        moreover have "length (wire (visionaryControl ?wD)) = 6"
          by (simp add: afterReadBack_fields)
        ultimately have six: "take 6 (wire (visionaryControl w)) = wire (visionaryControl ?wD)"
          by (simp only:)
        have four: "take 4 (console w) = console ?wD"
          unfolding w using fF(2) by simp
        have tail: "last (wire (visionaryControl w)) = CallLogout"
          "CallLogout \<notin> set (butlast (wire (visionaryControl w)))"
          "sessionState (visionaryControl w) = Connected"
          unfolding w using fF(5) by simp_all
        from six four tail res show ?thesis by simp
      qed
    qed
  qed
  have F: "wire (visionaryControl ?wD)
        = [CallOpen COLA_B ip 5000, CallStop, CallIdent, CallLogin AUTHORIZED_CLIENT ''CLIENT'',
           CallSend \<lparr>cmdType = WRITE_VARIABLE, cmdName = ''framePeriodTime'',
                     cmdPayload = be32 150000, getError = OK\<rparr>,
           CallSend \<lparr>cmdType = READ_VARIABLE, cmdName = ''framePeriodTime'',
                     cmdPayload = [], getError = OK\<rparr>]"
    "console ?wD
        = [DeviceIdentIs (deviceIdent dev), SettingFramePeriodTime,
           SuccessfullySetFramePeriodTime, ReadFramePeriodTime 150000]"
    "sessionState (visionaryControl ?wD) = Authenticated AUTHORIZED_CLIENT"
    "exitcode ?wD = ExitCode_new"
    by (rule afterReadBack_fields)+
  from completes have completes': "\<forall>wE wF.
          autoExposure dev ?wD = Some (Inr (), wE)
          \<and> readInfoMessages dev wE = (Inr (), wF) \<longrightarrow>
          configurationPhase dev ip (World_new a) = Some (Inr True, ?out wF)"
    by blast
  from ends have ends': "\<forall>res w.
          configurationPhase dev ip (World_new a) = Some (res, w) \<longrightarrow>
          take 6 (wire (visionaryControl w)) = wire (visionaryControl ?wD)
          \<and> take 4 (console w) = console ?wD
          \<and> (case res of
                Inr goOn \<Rightarrow>
                  goOn \<and> last (wire (visionaryControl w)) = CallLogout
                  \<and> CallLogout \<notin> set (butlast (wire (visionaryControl w)))
                  \<and> sessionState (visionaryControl w) = Connected
              | Inl e \<Rightarrow>
                  CallLogout \<notin> set (wire (visionaryControl w)) \<and> loggedIn w)"
    by blast
  show ?thesis
    by (rule conjI, fact head, rule conjI, fact F(1), rule conjI, fact F(2), rule conjI,
        fact F(3), rule conjI, fact F(4), rule conjI, fact completes', fact ends')
qed

subsection \<open>The configuration phase against the simulated device\<close>

lemmas sim_defs =
  simDevice_def simRespond_def simAnswer_def simVariables_def

lemmas block_defs =
  bndP_def total_def bnd_def ret_def act_def say_def send_def sendCommand_def control_call_def
  login_def decode_def now_def CoLaParameterReader_new_def readUDInt_def readBool_def issue_def
  fetch_def from_be_def be32_def be16_def build_def CoLaParameterWriter_new_def
  parameterUSInt_def parameterUInt_def parameterUDInt_def

lemma simDevice_autoExposure:
  "\<exists>w. autoExposure simDevice (afterReadBack simDevice ''192.168.1.10'' RUNNING) = Some (Inr (), w)
       \<and> sessionState (visionaryControl w) = Authenticated SERVICE
       \<and> respond simDevice (wire (visionaryControl w) @ [CallSend getMessagesCommand])
           = Some simMSinfoResponse"
  by (simp add: autoExposure_def readIntegrationTimes_def roiCommand_def forEachP.simps
        triggerAutoExposure_def invokeAutoExposureCommand_def getAutoExpParamRunningCommand_def
        waitAutoExposure.simps afterReadBack_def loginCalls_def World_new_def
        setFramePeriodCommand_def getFramePeriodCommand_def getMessagesCommand_def
        simMSinfoResponse_def block_defs sim_defs Let_def)

lemma readInfoMessages_simMSinfo:
  assumes "sessionState (visionaryControl w) \<noteq> Disconnected"
    and "respond dev (wire (visionaryControl w) @ [CallSend getMessagesCommand]) = Some simMSinfoResponse"
  shows "readInfoMessages dev w =
     (Inr (), w\<lparr>visionaryControl :=
                  (visionaryControl w)\<lparr>wire := wire (visionaryControl w) @ [CallSend getMessagesCommand]\<rparr>\<rparr>)"
  using send_answered [OF assms]
  by (simp add: readInfoMessages_def bnd_def readInfoLoop_simMSinfo)

lemma simDevice_answers:
  "reachable simDevice COLA_B ''192.168.1.10'' 5000"
  "accepts simDevice AUTHORIZED_CLIENT ''CLIENT''"
  "respond simDevice (loginCalls ''192.168.1.10'' @ [CallSend setFramePeriodCommand])
     = Some \<lparr>cmdType = WRITE_VARIABLE_RESPONSE, cmdName = ''framePeriodTime'', cmdPayload = [],
             getError = OK\<rparr>"
  "respond simDevice
     (loginCalls ''192.168.1.10'' @ [CallSend setFramePeriodCommand, CallSend getFramePeriodCommand])
     = Some \<lparr>cmdType = READ_VARIABLE_RESPONSE, cmdName = ''framePeriodTime'',
             cmdPayload = be32 150000, getError = OK\<rparr>"
  by (simp_all add: sim_defs loginCalls_def setFramePeriodCommand_eq getFramePeriodCommand_eq)

theorem configuration_phase_order_witness:
  "\<exists>w. configurationPhase simDevice ''192.168.1.10'' (World_new RUNNING) = Some (Inr True, w)
     \<and> take 6 (wire (visionaryControl w))
        = [CallOpen COLA_B ''192.168.1.10'' 5000, CallStop, CallIdent,
           CallLogin AUTHORIZED_CLIENT ''CLIENT'',
           CallSend \<lparr>cmdType = WRITE_VARIABLE, cmdName = ''framePeriodTime'',
                     cmdPayload = be32 150000, getError = OK\<rparr>,
           CallSend \<lparr>cmdType = READ_VARIABLE, cmdName = ''framePeriodTime'',
                     cmdPayload = [], getError = OK\<rparr>]
     \<and> last (wire (visionaryControl w)) = CallLogout
     \<and> CallLogout \<notin> set (butlast (wire (visionaryControl w)))
     \<and> sessionState (visionaryControl w) = Connected
     \<and> take 4 (console w)
        = [DeviceIdentIs ''Visionary-S CX V3S102-1x 5.16.0'', SettingFramePeriodTime,
           SuccessfullySetFramePeriodTime, ReadFramePeriodTime 150000]"
proof -
  let ?ip = "''192.168.1.10''"
  let ?out = "\<lambda>wF. wF\<lparr>visionaryControl :=
                         (visionaryControl wF)\<lparr>sessionState := Connected,
                                                 wire := wire (visionaryControl wF) @ [CallLogout]\<rparr>\<rparr>"
  have ok: "getError \<lparr>cmdType = WRITE_VARIABLE_RESPONSE, cmdName = ''framePeriodTime'',
                      cmdPayload = [], getError = OK\<rparr> = OK"
    "getError \<lparr>cmdType = READ_VARIABLE_RESPONSE, cmdName = ''framePeriodTime'',
               cmdPayload = be32 150000, getError = OK\<rparr> = OK"
    "cmdPayload \<lparr>cmdType = READ_VARIABLE_RESPONSE, cmdName = ''framePeriodTime'',
                 cmdPayload = be32 150000, getError = OK\<rparr> = be32 150000"
    by simp_all
  note order = configuration_phase_order
    [OF simDevice_answers(1,2,3) ok(1) simDevice_answers(4) ok(2,3), of RUNNING]
  from simDevice_autoExposure obtain wE
    where ae: "autoExposure simDevice (afterReadBack simDevice ?ip RUNNING) = Some (Inr (), wE)"
      and st: "sessionState (visionaryControl wE) = Authenticated SERVICE"
      and rs: "respond simDevice (wire (visionaryControl wE) @ [CallSend getMessagesCommand])
                 = Some simMSinfoResponse"
    by blast
  from st have conn: "sessionState (visionaryControl wE) \<noteq> Disconnected" by simp
  note ri = readInfoMessages_simMSinfo [OF conn rs]
  let ?wF = "wE\<lparr>visionaryControl :=
                  (visionaryControl wE)\<lparr>wire := wire (visionaryControl wE)
                                                @ [CallSend getMessagesCommand]\<rparr>\<rparr>"
  from order ae ri
  have run: "configurationPhase simDevice ?ip (World_new RUNNING) = Some (Inr True, ?out ?wF)"
    by blast
  from order run
  have "take 6 (wire (visionaryControl (?out ?wF)))
          = wire (visionaryControl (afterReadBack simDevice ?ip RUNNING))
      \<and> take 4 (console (?out ?wF)) = console (afterReadBack simDevice ?ip RUNNING)
      \<and> (case (Inr True :: Failure + bool) of
            Inr goOn \<Rightarrow>
              goOn \<and> last (wire (visionaryControl (?out ?wF))) = CallLogout
              \<and> CallLogout \<notin> set (butlast (wire (visionaryControl (?out ?wF))))
              \<and> sessionState (visionaryControl (?out ?wF)) = Connected
          | Inl e \<Rightarrow>
              CallLogout \<notin> set (wire (visionaryControl (?out ?wF))) \<and> loggedIn (?out ?wF))"
    by blast
  moreover have "deviceIdent simDevice = ''Visionary-S CX V3S102-1x 5.16.0''"
    by (simp add: simDevice_def)
  ultimately have "take 6 (wire (visionaryControl (?out ?wF)))
        = [CallOpen COLA_B ''192.168.1.10'' 5000, CallStop, CallIdent,
           CallLogin AUTHORIZED_CLIENT ''CLIENT'',
           CallSend \<lparr>cmdType = WRITE_VARIABLE, cmdName = ''framePeriodTime'',
                     cmdPayload = be32 150000, getError = OK\<rparr>,
           CallSend \<lparr>cmdType = READ_VARIABLE, cmdName = ''framePeriodTime'',
                     cmdPayload = [], getError = OK\<rparr>]
     \<and> last (wire (visionaryControl (?out ?wF))) = CallLogout
     \<and> CallLogout \<notin> set (butlast (wire (visionaryControl (?out ?wF))))
     \<and> sessionState (visionaryControl (?out ?wF)) = Connected
     \<and> take 4 (console (?out ?wF))
        = [DeviceIdentIs ''Visionary-S CX V3S102-1x 5.16.0'', SettingFramePeriodTime,
           SuccessfullySetFramePeriodTime, ReadFramePeriodTime 150000]"
    by (simp only: afterReadBack_fields sum.case) simp
  with run show ?thesis by blast
qed

text \<open>
  The claim as it was stated names the "v2" variant for the open. The demo passes
  \<^verbatim>\<open>COLA_B\<close>: behind a control port that can be reached with \<^verbatim>\<open>COLA_2\<close> only it
  opens no session, prints that the open failed, feeds 1 into the exit code and
  returns at once, with no login, no write and no read. And the logout does not follow
  the read-back on every device that answers the write and the read as expected: the
  auto exposure block lies in between, and on a device that answers the read of
  \<^verbatim>\<open>integrationTimeUs\<close> with an error code and an empty payload the decoding in that
  block fails and the phase ends there, logged in and with no logout sent.
\<close>

lemma noIntegrationTimeDevice_answers:
  "reachable noIntegrationTimeDevice COLA_B ''192.168.1.10'' 5000"
  "accepts noIntegrationTimeDevice AUTHORIZED_CLIENT ''CLIENT''"
  "respond noIntegrationTimeDevice (loginCalls ''192.168.1.10'' @ [CallSend setFramePeriodCommand])
     = Some \<lparr>cmdType = WRITE_VARIABLE_RESPONSE, cmdName = ''framePeriodTime'', cmdPayload = [],
             getError = OK\<rparr>"
  "respond noIntegrationTimeDevice
     (loginCalls ''192.168.1.10'' @ [CallSend setFramePeriodCommand, CallSend getFramePeriodCommand])
     = Some \<lparr>cmdType = READ_VARIABLE_RESPONSE, cmdName = ''framePeriodTime'',
             cmdPayload = be32 150000, getError = OK\<rparr>"
  by (simp_all add: noIntegrationTimeDevice_def sim_defs loginCalls_def setFramePeriodCommand_eq
        getFramePeriodCommand_eq)

lemma noIntegrationTimeDevice_autoExposure:
  "autoExposure noIntegrationTimeDevice (afterReadBack noIntegrationTimeDevice ''192.168.1.10'' RUNNING)
     = Some (Inl TruncatedPayload,
         (afterReadBack noIntegrationTimeDevice ''192.168.1.10'' RUNNING)\<lparr>visionaryControl :=
            (visionaryControl (afterReadBack noIntegrationTimeDevice ''192.168.1.10'' RUNNING))
              \<lparr>wire := wire (visionaryControl
                                (afterReadBack noIntegrationTimeDevice ''192.168.1.10'' RUNNING))
                 @ [CallSend (build (parameterUSInt 0
                      (CoLaParameterWriter_new WRITE_VARIABLE ''acquisitionModeStereo''))),
                    CallSend (roiCommand ''autoExposureROI''),
                    CallSend (roiCommand ''autoExposureColorROI''),
                    CallSend (roiCommand ''autoWhiteBalanceROI''),
                    CallSend (build (CoLaParameterWriter_new READ_VARIABLE
                                       ''integrationTimeUs''))]\<rparr>\<rparr>)"
  by (simp add: autoExposure_def readIntegrationTimes_def roiCommand_def
        afterReadBack_def loginCalls_def World_new_def
        setFramePeriodCommand_def getFramePeriodCommand_def
        noIntegrationTimeDevice_def block_defs sim_defs)

theorem configuration_phase_counterexample:
  "configurationPhase cola2Device ''192.168.1.10'' (World_new RUNNING)
     = Some (Inr False,
             (World_new RUNNING)\<lparr>exitcode := \<lparr>m_code = 1\<rparr>, console := [FailedOpenControl]\<rparr>)
   \<and> reachable cola2Device COLA_2 ''192.168.1.10'' 5000
   \<and> configurationPhase noIntegrationTimeDevice ''192.168.1.10'' (World_new RUNNING)
     = Some (Inl TruncatedPayload,
         (afterReadBack noIntegrationTimeDevice ''192.168.1.10'' RUNNING)\<lparr>visionaryControl :=
            (visionaryControl (afterReadBack noIntegrationTimeDevice ''192.168.1.10'' RUNNING))
              \<lparr>wire := wire (visionaryControl
                                (afterReadBack noIntegrationTimeDevice ''192.168.1.10'' RUNNING))
                 @ [CallSend (build (parameterUSInt 0
                      (CoLaParameterWriter_new WRITE_VARIABLE ''acquisitionModeStereo''))),
                    CallSend (roiCommand ''autoExposureROI''),
                    CallSend (roiCommand ''autoExposureColorROI''),
                    CallSend (roiCommand ''autoWhiteBalanceROI''),
                    CallSend (build (CoLaParameterWriter_new READ_VARIABLE
                                       ''integrationTimeUs''))]\<rparr>\<rparr>)"
proof -
  have 1: "configurationPhase cola2Device ''192.168.1.10'' (World_new RUNNING)
     = Some (Inr False,
             (World_new RUNNING)\<lparr>exitcode := \<lparr>m_code = 1\<rparr>, console := [FailedOpenControl]\<rparr>)"
    "reachable cola2Device COLA_2 ''192.168.1.10'' 5000"
    by (simp_all add: configurationPhase_def cola2Device_def simDevice_def ctrl_open_def
          World_new_def bndP_def total_def bnd_def ret_def act_def say_def exitcode_call_def
          control_call_def ExitCode_feed_def ExitCode_new_def)
  have ok: "getError \<lparr>cmdType = WRITE_VARIABLE_RESPONSE, cmdName = ''framePeriodTime'',
                      cmdPayload = [], getError = OK\<rparr> = OK"
    "getError \<lparr>cmdType = READ_VARIABLE_RESPONSE, cmdName = ''framePeriodTime'',
               cmdPayload = be32 150000, getError = OK\<rparr> = OK"
    "cmdPayload \<lparr>cmdType = READ_VARIABLE_RESPONSE, cmdName = ''framePeriodTime'',
                 cmdPayload = be32 150000, getError = OK\<rparr> = be32 150000"
    by simp_all
  note head = configurationPhase_head
    [OF noIntegrationTimeDevice_answers(1,2,3) ok(1) noIntegrationTimeDevice_answers(4) ok(2,3),
     of RUNNING]
  show ?thesis
    unfolding head using 1
    by (simp add: bndP_def noIntegrationTimeDevice_autoExposure)
qed

section \<open>Properties of the two IP tools\<close>

subsection \<open>\<^verbatim>\<open>runAssignDemo\<close>\<close>

text \<open>
  C8. \<^verbatim>\<open>runAssignDemo\<close> returns 0 for every input, whether
  \<^verbatim>\<open>VisionaryAutoIPScan::assign\<close> reported success or not: the outcome of the
  assignment only selects the message written to the standard output.
\<close>

theorem runAssignDemo_always_zero:
  "snd (runAssignDemo lib mac ver ip pl dh t gw) = 0
   \<and> fst (runAssignDemo lib mac ver ip pl dh t gw) =
       (if assign lib ip pl (convertMacToStruct lib mac) ver ip pl gw dh t
        then [AssignedOk] else [AssignedFailed])"
  by (simp add: runAssignDemo_def)

theorem runAssignDemo_always_zero_witness:
  "runAssignDemo exampleLib ''00:06:77:00:00:01'' SCAN_COLA_2 ''192.168.1.10'' 24 False
     5000 ''0.0.0.0'' = ([AssignedFailed], 0)"
  using runAssignDemo_always_zero
    [of exampleLib "''00:06:77:00:00:01''" SCAN_COLA_2 "''192.168.1.10''" 24 False 5000
        "''0.0.0.0''"]
  by (simp add: prod_eq_iff exampleLib_def)

subsection \<open>\<^verbatim>\<open>runScanDemo\<close>\<close>

lemma printedMacs_append: "printedMacs (xs @ ys) = printedMacs xs @ printedMacs ys"
  by (induction xs rule: printedMacs.induct) simp_all

lemma scanLoop_invariant:
  "scanLoop conv ds (M, out) = (M', out') \<Longrightarrow>
   distinct (printedMacs out) \<Longrightarrow> set (printedMacs out) = M \<Longrightarrow>
   distinct (printedMacs out') \<and> set (printedMacs out') = M'
   \<and> M' = M \<union> set (map (\<lambda>d. conv (macAddress d)) ds)"
proof (induction ds arbitrary: M out)
  case Nil
  then show ?case by simp
next
  case (Cons it rest)
  let ?mac = "conv (macAddress it)"
  show ?case
  proof (cases "?mac \<in> M")
    case True
    with Cons.prems have "scanLoop conv rest (M, out) = (M', out')" by (simp add: Let_def)
    from Cons.IH [OF this Cons.prems(2) Cons.prems(3)] True show ?thesis by auto
  next
    case False
    let ?out = "out @ [DeviceBlock (deviceName it) ?mac (ipAddress it) (subNet it) (port it)]"
    from False Cons.prems have run: "scanLoop conv rest (insert ?mac M, ?out) = (M', out')"
      by (simp add: Let_def)
    have d: "distinct (printedMacs ?out)"
      using False Cons.prems(2,3) by (simp add: printedMacs_append)
    have s: "set (printedMacs ?out) = insert ?mac M"
      using Cons.prems(3) by (simp add: printedMacs_append)
    from Cons.IH [OF run d s] show ?thesis by auto
  qed
qed

text \<open>
  C9. For every device list that \<^verbatim>\<open>doScan\<close> returns, \<^verbatim>\<open>runScanDemo\<close> prints each
  MAC string at most once (a record whose MAC string is already in the set is
  skipped), the MAC strings printed are those of the list, and the number printed
  last is the number of distinct MAC strings, which is the number of distinct MAC
  addresses of the list when \<^verbatim>\<open>convertMacToString\<close> maps different addresses to
  different strings; it is not the number of records.
\<close>

theorem runScanDemo_distinct_macs:
  "distinct (printedMacs (fst (runScanDemo lib ip pl bp bt)))
   \<and> set (printedMacs (fst (runScanDemo lib ip pl bp bt))) =
       set (map (\<lambda>d. convertMacToString lib (macAddress d)) (doScan lib ip pl bt bp))
   \<and> last (fst (runScanDemo lib ip pl bp bt)) =
       FoundDevices (card (set (map (\<lambda>d. convertMacToString lib (macAddress d))
                                    (doScan lib ip pl bt bp))))
   \<and> (inj_on (convertMacToString lib) (set (map macAddress (doScan lib ip pl bt bp))) \<longrightarrow>
        last (fst (runScanDemo lib ip pl bp bt)) =
        FoundDevices (card (set (map macAddress (doScan lib ip pl bt bp)))))
   \<and> snd (runScanDemo lib ip pl bp bt) = 0"
proof -
  let ?ds = "doScan lib ip pl bt bp"
  let ?conv = "convertMacToString lib"
  obtain M out where loop: "scanLoop ?conv ?ds ({}, []) = (M, out)"
    by (cases "scanLoop ?conv ?ds ({}, [])")
  have inv: "distinct (printedMacs out) \<and> set (printedMacs out) = M
      \<and> M = {} \<union> set (map (\<lambda>d. ?conv (macAddress d)) ?ds)"
    by (rule scanLoop_invariant [OF loop]) simp_all
  have run: "runScanDemo lib ip pl bp bt = (out @ [FoundDevices (card M)], 0)"
    by (simp add: runScanDemo_def loop)
  have M: "M = set (map (\<lambda>d. ?conv (macAddress d)) ?ds)"
    using inv by simp
  have img: "set (map (\<lambda>d. ?conv (macAddress d)) ?ds) = ?conv ` set (map macAddress ?ds)"
    by (simp add: image_image)
  have inj: "inj_on ?conv (set (map macAddress ?ds)) \<longrightarrow>
      card M = card (set (map macAddress ?ds))"
    unfolding M img by (simp add: card_image)
  show ?thesis
    unfolding run using inv inj M by (simp add: printedMacs_append)
qed

theorem runScanDemo_distinct_macs_witness:
  "fst (runScanDemo exampleLib ''10.0.0.9'' 8 30718 5000)
   = [DeviceBlock ''A'' ''m1'' ''10.0.0.1'' ''255.0.0.0'' ''2122'',
      DeviceBlock ''B'' ''m2'' ''10.0.0.2'' ''255.0.0.0'' ''2122'',
      FoundDevices 2]
   \<and> length (doScan exampleLib ''10.0.0.9'' 8 5000 30718) = 3
   \<and> last (fst (runScanDemo exampleLib ''10.0.0.9'' 8 30718 5000)) =
       FoundDevices (card (set (map macAddress (doScan exampleLib ''10.0.0.9'' 8 5000 30718))))"
proof -
  have run: "fst (runScanDemo exampleLib ''10.0.0.9'' 8 30718 5000)
      = [DeviceBlock ''A'' ''m1'' ''10.0.0.1'' ''255.0.0.0'' ''2122'',
         DeviceBlock ''B'' ''m2'' ''10.0.0.2'' ''255.0.0.0'' ''2122'',
         FoundDevices 2]"
    by (simp add: runScanDemo_def Let_def exampleLib_def)
  have len: "length (doScan exampleLib ''10.0.0.9'' 8 5000 30718) = 3"
    by (simp add: exampleLib_def)
  have "inj_on (convertMacToString exampleLib)
          (set (map macAddress (doScan exampleLib ''10.0.0.9'' 8 5000 30718)))"
    by (simp add: exampleLib_def)
  with runScanDemo_distinct_macs [of exampleLib "''10.0.0.9''" 8 30718 5000]
  have "last (fst (runScanDemo exampleLib ''10.0.0.9'' 8 30718 5000)) =
        FoundDevices (card (set (map macAddress (doScan exampleLib ''10.0.0.9'' 8 5000 30718))))"
    by blast
  with run len show ?thesis by simp
qed

subsection \<open>The exit codes of the two \<^verbatim>\<open>main\<close> functions\<close>

lemma scanSwitch_flags:
  "exitCode (scanSwitch k v opts) = (if k \<in> Some ` set ''hipt'' then exitCode opts else 1)"
  "showHelpAndExit (scanSwitch k v opts) =
     (showHelpAndExit opts \<or> k = Some CHR ''h'' \<or> k \<notin> Some ` set ''hipt'')"
  by (auto simp: scanSwitch_def)

lemma assignSwitch_flags:
  "a_exitCode (assignSwitch k v opts) =
     (if k \<in> Some ` set ''hocidtg'' then a_exitCode opts else 1)"
  "a_showHelpAndExit (assignSwitch k v opts) =
     (a_showHelpAndExit opts \<or> k = Some CHR ''h'' \<or> k \<notin> Some ` set ''hocidtg'')"
  by (auto simp: assignSwitch_def Let_def)

lemma scanArgs_sticky:
  "showHelpAndExit opts \<Longrightarrow> exitCode opts = 1 \<Longrightarrow>
   showHelpAndExit (scanArgs args opts) \<and> exitCode (scanArgs args opts) = 1"
proof (induction args arbitrary: opts)
  case Nil
  then show ?case by simp
next
  case (Cons a args)
  show ?case
  proof (cases "nonDash a")
    case True
    then show ?thesis by (simp add: nonDash_def)
  next
    case False
    let ?o = "scanSwitch (optionLetter a) (snd (stream_get (snd (stream_get a)))) opts"
    have "showHelpAndExit ?o" "exitCode ?o = 1"
      using Cons.prems by (simp_all add: scanSwitch_flags)
    from Cons.IH [OF this] False show ?thesis
      by (simp add: nonDash_def optionLetter_def)
  qed
qed

lemma scanArgs_rejected:
  "rejected ''hipt'' args \<Longrightarrow>
   showHelpAndExit (scanArgs args opts) \<and> exitCode (scanArgs args opts) = 1"
proof (induction args arbitrary: opts)
  case Nil
  then show ?case by (simp add: rejected_def)
next
  case (Cons a args)
  show ?case
  proof (cases "nonDash a")
    case True
    then show ?thesis by (simp add: nonDash_def)
  next
    case False
    let ?o = "scanSwitch (optionLetter a) (snd (stream_get (snd (stream_get a)))) opts"
    have step: "scanArgs (a # args) opts = scanArgs args ?o"
      using False by (simp add: nonDash_def optionLetter_def)
    show ?thesis
    proof (cases "unknownOption ''hipt'' a")
      case True
      then have "optionLetter a \<notin> Some ` set ''hipt''"
        by (simp add: unknownOption_def)
      then have "showHelpAndExit ?o" "exitCode ?o = 1"
        by (simp_all add: scanSwitch_flags)
      then show ?thesis
        unfolding step by (rule scanArgs_sticky)
    next
      case known: False
      with False Cons.prems have "rejected ''hipt'' args"
        by (simp add: rejected_def)
      then show ?thesis
        unfolding step by (rule Cons.IH)
    qed
  qed
qed

lemma scanArgs_accepted:
  "\<not> rejected ''hipt'' args \<Longrightarrow>
   exitCode (scanArgs args opts) = exitCode opts
   \<and> (showHelpAndExit (scanArgs args opts) \<longleftrightarrow>
        showHelpAndExit opts \<or> (\<exists>a \<in> set args. helpOption a))"
proof (induction args arbitrary: opts)
  case Nil
  then show ?case by simp
next
  case (Cons a args)
  let ?o = "scanSwitch (optionLetter a) (snd (stream_get (snd (stream_get a)))) opts"
  from Cons.prems have dash: "\<not> nonDash a" and
    known: "optionLetter a \<in> Some ` set ''hipt''" and rest: "\<not> rejected ''hipt'' args"
    by (auto simp: rejected_def unknownOption_def)
  have step: "scanArgs (a # args) opts = scanArgs args ?o"
    using dash by (simp add: nonDash_def optionLetter_def)
  have e: "exitCode ?o = exitCode opts"
    using known by (simp add: scanSwitch_flags)
  have h: "showHelpAndExit ?o = (showHelpAndExit opts \<or> helpOption a)"
    using known dash by (simp add: scanSwitch_flags helpOption_def)
  show ?case
    unfolding step using Cons.IH [OF rest, of ?o] e h by auto
qed

lemma assignArgs_sticky:
  "a_showHelpAndExit opts \<Longrightarrow> a_exitCode opts = 1 \<Longrightarrow>
   a_showHelpAndExit (assignArgs args opts) \<and> a_exitCode (assignArgs args opts) = 1"
proof (induction args arbitrary: opts)
  case Nil
  then show ?case by simp
next
  case (Cons a args)
  show ?case
  proof (cases "nonDash a")
    case True
    then show ?thesis by (simp add: nonDash_def)
  next
    case False
    let ?o = "assignSwitch (optionLetter a) (snd (stream_get (snd (stream_get a)))) opts"
    have "a_showHelpAndExit ?o" "a_exitCode ?o = 1"
      using Cons.prems by (simp_all add: assignSwitch_flags)
    from Cons.IH [OF this] False show ?thesis
      by (simp add: nonDash_def optionLetter_def)
  qed
qed

lemma assignArgs_rejected:
  "rejected ''hocidtg'' args \<Longrightarrow>
   a_showHelpAndExit (assignArgs args opts) \<and> a_exitCode (assignArgs args opts) = 1"
proof (induction args arbitrary: opts)
  case Nil
  then show ?case by (simp add: rejected_def)
next
  case (Cons a args)
  show ?case
  proof (cases "nonDash a")
    case True
    then show ?thesis by (simp add: nonDash_def)
  next
    case False
    let ?o = "assignSwitch (optionLetter a) (snd (stream_get (snd (stream_get a)))) opts"
    have step: "assignArgs (a # args) opts = assignArgs args ?o"
      using False by (simp add: nonDash_def optionLetter_def)
    show ?thesis
    proof (cases "unknownOption ''hocidtg'' a")
      case True
      then have "optionLetter a \<notin> Some ` set ''hocidtg''"
        by (simp add: unknownOption_def)
      then have "a_showHelpAndExit ?o" "a_exitCode ?o = 1"
        by (simp_all add: assignSwitch_flags)
      then show ?thesis
        unfolding step by (rule assignArgs_sticky)
    next
      case known: False
      with False Cons.prems have "rejected ''hocidtg'' args"
        by (simp add: rejected_def)
      then show ?thesis
        unfolding step by (rule Cons.IH)
    qed
  qed
qed

lemma assignArgs_accepted:
  "\<not> rejected ''hocidtg'' args \<Longrightarrow>
   a_exitCode (assignArgs args opts) = a_exitCode opts
   \<and> (a_showHelpAndExit (assignArgs args opts) \<longleftrightarrow>
        a_showHelpAndExit opts \<or> (\<exists>a \<in> set args. helpOption a))"
proof (induction args arbitrary: opts)
  case Nil
  then show ?case by simp
next
  case (Cons a args)
  let ?o = "assignSwitch (optionLetter a) (snd (stream_get (snd (stream_get a)))) opts"
  from Cons.prems have dash: "\<not> nonDash a" and
    known: "optionLetter a \<in> Some ` set ''hocidtg''" and rest: "\<not> rejected ''hocidtg'' args"
    by (auto simp: rejected_def unknownOption_def)
  have step: "assignArgs (a # args) opts = assignArgs args ?o"
    using dash by (simp add: nonDash_def optionLetter_def)
  have e: "a_exitCode ?o = a_exitCode opts"
    using known by (simp add: assignSwitch_flags)
  have h: "a_showHelpAndExit ?o = (a_showHelpAndExit opts \<or> helpOption a)"
    using known dash by (simp add: assignSwitch_flags helpOption_def)
  show ?case
    unfolding step using Cons.IH [OF rest, of ?o] e h by auto
qed

lemma scanMain_help:
  "showHelpAndExit (scanArgs args (ScanOpts_init lib))
     \<or> badCidr (hostIP (scanArgs args (ScanOpts_init lib))) \<Longrightarrow>
   scanMain lib args = ([HelpText], exitCode (scanArgs args (ScanOpts_init lib)))"
  by (auto simp: scanMain_def badCidr_def Let_def split: option.splits)

lemma assignMain_help:
  "a_showHelpAndExit (assignArgs args (AssignOpts_init lib t0))
     \<or> badCidr (ipAddr (assignArgs args (AssignOpts_init lib t0))) \<Longrightarrow>
   assignMain lib t0 args = ([HelpText], a_exitCode (assignArgs args (AssignOpts_init lib t0)))"
  by (auto simp: assignMain_def badCidr_def Let_def split: option.splits)

lemma ScanOpts_init_flags:
  "exitCode (ScanOpts_init lib) = 0" "\<not> showHelpAndExit (ScanOpts_init lib)"
  by (simp_all add: ScanOpts_init_def)

lemma AssignOpts_init_flags:
  "a_exitCode (AssignOpts_init lib t0) = 0" "\<not> a_showHelpAndExit (AssignOpts_init lib t0)"
  by (simp_all add: AssignOpts_init_def)

text \<open>
  C10 (as amended). In both IP tools, a command line with an option letter the tool does
  not know or with an argument that does not start with a dash makes \<^verbatim>\<open>main\<close> print
  the help and return 1, whatever else is on it, also a bad \<^verbatim>\<open>-i\<close> value or
  \<^verbatim>\<open>-h\<close>: the code 1, once set, is never reset. On a command line without such an
  argument, an \<^verbatim>\<open>-i\<close> value, as left by the option loop, that does not split into
  \<^verbatim>\<open>ip/prefix\<close> or has a prefix above 32 makes \<^verbatim>\<open>main\<close> print the help and
  return 0, and so does \<^verbatim>\<open>-h\<close>.
\<close>

theorem ip_tools_help_exit_codes:
  "(rejected ''hipt'' args \<longrightarrow> scanMain lib args = ([HelpText], 1))
   \<and> (\<not> rejected ''hipt'' args \<and> badCidr (hostIP (scanArgs args (ScanOpts_init lib))) \<longrightarrow>
        scanMain lib args = ([HelpText], 0))
   \<and> (\<not> rejected ''hipt'' args \<and> (\<exists>a \<in> set args. helpOption a) \<longrightarrow>
        scanMain lib args = ([HelpText], 0))
   \<and> (rejected ''hocidtg'' args \<longrightarrow> assignMain lib t0 args = ([HelpText], 1))
   \<and> (\<not> rejected ''hocidtg'' args
        \<and> badCidr (ipAddr (assignArgs args (AssignOpts_init lib t0))) \<longrightarrow>
        assignMain lib t0 args = ([HelpText], 0))
   \<and> (\<not> rejected ''hocidtg'' args \<and> (\<exists>a \<in> set args. helpOption a) \<longrightarrow>
        assignMain lib t0 args = ([HelpText], 0))"
proof -
  have s1: "scanMain lib args = ([HelpText], 1)" if "rejected ''hipt'' args"
    using scanArgs_rejected [OF that, of "ScanOpts_init lib"]
    by (simp add: scanMain_help)
  have s2: "scanMain lib args = ([HelpText], 0)"
    if "\<not> rejected ''hipt'' args" "badCidr (hostIP (scanArgs args (ScanOpts_init lib)))"
    using scanArgs_accepted [OF that(1), of "ScanOpts_init lib"] that(2)
    by (simp add: scanMain_help ScanOpts_init_flags)
  have s3: "scanMain lib args = ([HelpText], 0)"
    if "\<not> rejected ''hipt'' args" "\<exists>a \<in> set args. helpOption a"
    using scanArgs_accepted [OF that(1), of "ScanOpts_init lib"] that(2)
    by (simp add: scanMain_help ScanOpts_init_flags)
  have a1: "assignMain lib t0 args = ([HelpText], 1)" if "rejected ''hocidtg'' args"
    using assignArgs_rejected [OF that, of "AssignOpts_init lib t0"]
    by (simp add: assignMain_help)
  have a2: "assignMain lib t0 args = ([HelpText], 0)"
    if "\<not> rejected ''hocidtg'' args"
       "badCidr (ipAddr (assignArgs args (AssignOpts_init lib t0)))"
    using assignArgs_accepted [OF that(1), of "AssignOpts_init lib t0"] that(2)
    by (simp add: assignMain_help AssignOpts_init_flags)
  have a3: "assignMain lib t0 args = ([HelpText], 0)"
    if "\<not> rejected ''hocidtg'' args" "\<exists>a \<in> set args. helpOption a"
    using assignArgs_accepted [OF that(1), of "AssignOpts_init lib t0"] that(2)
    by (simp add: assignMain_help AssignOpts_init_flags)
  from s1 s2 s3 a1 a2 a3 show ?thesis by blast
qed

lemmas arg_class_defs =
  rejected_def nonDash_def unknownOption_def optionLetter_def helpOption_def stream_get_def

lemmas extract_defs =
  extract_string_def extract_unsigned_def extract_int_def scan_number_def digits_value_def
  isspace_def isdigit_def parse_cidr_def badCidr_def

theorem ip_tools_help_exit_codes_witness:
  "scanMain exampleLib [''-i192.168.1.100''] = ([HelpText], 0)
   \<and> scanMain exampleLib [''-t100'', ''-i192.168.1.100/33''] = ([HelpText], 0)
   \<and> scanMain exampleLib [''-h'', ''-i192.168.1.100/24''] = ([HelpText], 0)
   \<and> scanMain exampleLib [''-i192.168.1.100/24'', ''-x''] = ([HelpText], 1)
   \<and> scanMain exampleLib [''scan'', ''-i192.168.1.100/24''] = ([HelpText], 1)
   \<and> assignMain exampleLib 0 [''-o00:06:77:00:00:01'', ''-i192.168.1.10''] = ([HelpText], 0)
   \<and> assignMain exampleLib 0 [''-i192.168.1.10/40'', ''-d''] = ([HelpText], 0)
   \<and> assignMain exampleLib 0 [''-h''] = ([HelpText], 0)
   \<and> assignMain exampleLib 0 [''-i192.168.1.10/24'', ''-p5''] = ([HelpText], 1)
   \<and> assignMain exampleLib 0 [''-i192.168.1.10/24'', ''assign''] = ([HelpText], 1)"
proof -
  have 1: "scanMain exampleLib [''-i192.168.1.100''] = ([HelpText], 0)"
    using ip_tools_help_exit_codes [of "[''-i192.168.1.100'']" exampleLib]
    by (simp add: arg_class_defs extract_defs scanSwitch_def ScanOpts_init_def)
  have 2: "scanMain exampleLib [''-t100'', ''-i192.168.1.100/33''] = ([HelpText], 0)"
    using ip_tools_help_exit_codes [of "[''-t100'', ''-i192.168.1.100/33'']" exampleLib]
    by (simp add: arg_class_defs extract_defs scanSwitch_def ScanOpts_init_def)
  have 3: "scanMain exampleLib [''-h'', ''-i192.168.1.100/24''] = ([HelpText], 0)"
    using ip_tools_help_exit_codes [of "[''-h'', ''-i192.168.1.100/24'']" exampleLib]
    by (simp add: arg_class_defs)
  have 4: "scanMain exampleLib [''-i192.168.1.100/24'', ''-x''] = ([HelpText], 1)"
    using ip_tools_help_exit_codes [of "[''-i192.168.1.100/24'', ''-x'']" exampleLib]
    by (simp add: arg_class_defs)
  have 5: "scanMain exampleLib [''scan'', ''-i192.168.1.100/24''] = ([HelpText], 1)"
    using ip_tools_help_exit_codes [of "[''scan'', ''-i192.168.1.100/24'']" exampleLib]
    by (simp add: arg_class_defs)
  have 6: "assignMain exampleLib 0 [''-o00:06:77:00:00:01'', ''-i192.168.1.10'']
      = ([HelpText], 0)"
    using ip_tools_help_exit_codes
      [of "[''-o00:06:77:00:00:01'', ''-i192.168.1.10'']" exampleLib 0]
    by (simp add: arg_class_defs extract_defs assignSwitch_def AssignOpts_init_def)
  have 7: "assignMain exampleLib 0 [''-i192.168.1.10/40'', ''-d''] = ([HelpText], 0)"
    using ip_tools_help_exit_codes [of "[''-i192.168.1.10/40'', ''-d'']" exampleLib 0]
    by (simp add: arg_class_defs extract_defs assignSwitch_def AssignOpts_init_def)
  have 8: "assignMain exampleLib 0 [''-h''] = ([HelpText], 0)"
    using ip_tools_help_exit_codes [of "[''-h'']" exampleLib 0]
    by (simp add: arg_class_defs)
  have 9: "assignMain exampleLib 0 [''-i192.168.1.10/24'', ''-p5''] = ([HelpText], 1)"
    using ip_tools_help_exit_codes [of "[''-i192.168.1.10/24'', ''-p5'']" exampleLib 0]
    by (simp add: arg_class_defs)
  have 10: "assignMain exampleLib 0 [''-i192.168.1.10/24'', ''assign''] = ([HelpText], 1)"
    using ip_tools_help_exit_codes [of "[''-i192.168.1.10/24'', ''assign'']" exampleLib 0]
    by (simp add: arg_class_defs)
  from 1 2 3 4 5 6 7 8 9 10 show ?thesis by simp
qed

text \<open>
  The exit code 0 for a bad \<^verbatim>\<open>-i\<close> value does not hold for every command line: with
  an unknown option or a non-dash argument beside it, the tools return 1.
\<close>

theorem ip_tools_help_counterexample:
  "scanMain exampleLib [''-i192.168.1.100'', ''-x''] = ([HelpText], 1)
   \<and> badCidr (hostIP (scanArgs [''-i192.168.1.100'', ''-x''] (ScanOpts_init exampleLib)))
   \<and> assignMain exampleLib 0 [''-i192.168.1.10/40'', ''assign''] = ([HelpText], 1)
   \<and> badCidr (ipAddr (assignArgs [''-i192.168.1.10/40'', ''assign'']
                         (AssignOpts_init exampleLib 0)))"
proof -
  have r1: "rejected ''hipt'' [''-i192.168.1.100'', ''-x'']"
    and r2: "rejected ''hocidtg'' [''-i192.168.1.10/40'', ''assign'']"
    by (simp_all add: arg_class_defs)
  have 1: "scanMain exampleLib [''-i192.168.1.100'', ''-x''] = ([HelpText], 1)"
    using scanArgs_rejected [OF r1, of "ScanOpts_init exampleLib"]
    by (simp add: scanMain_help)
  have 2: "badCidr (hostIP (scanArgs [''-i192.168.1.100'', ''-x''] (ScanOpts_init exampleLib)))"
    by (simp add: arg_class_defs extract_defs scanSwitch_def ScanOpts_init_def)
  have 3: "assignMain exampleLib 0 [''-i192.168.1.10/40'', ''assign''] = ([HelpText], 1)"
    using assignArgs_rejected [OF r2, of "AssignOpts_init exampleLib 0"]
    by (simp add: assignMain_help)
  have 4: "badCidr (ipAddr (assignArgs [''-i192.168.1.10/40'', ''assign'']
                              (AssignOpts_init exampleLib 0)))"
    by (simp add: arg_class_defs extract_defs assignSwitch_def AssignOpts_init_def)
  from 1 2 3 4 show ?thesis by simp
qed

end
